theory Spec2Isabelle
  imports Complex_Main "HOL-Library.Word" "HOL-Library.Monad_Syntax"
begin

section \<open>The tiled image cache of libtexture/imagecache.cpp\<close>

text \<open>
  A shallow embedding of \<^verbatim>\<open>src/libtexture/imagecache.cpp\<close>. The cache object
  \<^verbatim>\<open>ImageCacheImpl\<close> is a record that every operation takes and returns. File
  records and tile records are shared through pointers in the C++ code, so they live in two
  explicit stores (lists indexed by address) and the tables hold addresses. An operation
  that may not return (a sweep that loops forever, an \<^verbatim>\<open>ASSERT\<close> that aborts, a
  division by zero) returns \<open>None\<close>. A single calling thread is modelled; timers, byte
  statistics and the camera matrices are left out.
\<close>

subsection \<open>Types of the collaborating headers\<close>

text \<open>\<^verbatim>\<open>TypeDesc\<close> (typedesc.h): a base type and an array length.\<close>

datatype BASETYPE = TD_UNKNOWN | TD_UINT8 | TD_INT8 | TD_UINT16 | TD_INT16
  | TD_UINT | TD_INT | TD_HALF | TD_FLOAT | TD_DOUBLE | TD_STRING | TD_MATRIX

record TypeDesc =
  basetype :: BASETYPE
  arraylen :: int

definition TypeInt :: TypeDesc where
  "TypeInt = \<lparr>basetype = TD_INT, arraylen = 0\<rparr>"

definition TypeFloat :: TypeDesc where
  "TypeFloat = \<lparr>basetype = TD_FLOAT, arraylen = 0\<rparr>"

definition TypeString :: TypeDesc where
  "TypeString = \<lparr>basetype = TD_STRING, arraylen = 0\<rparr>"

text \<open>Bytes of one value of a base type (\<^verbatim>\<open>TypeDesc::size\<close> of a scalar).\<close>

fun basesize :: "BASETYPE \<Rightarrow> int" where
  "basesize TD_UNKNOWN = 0"
| "basesize TD_UINT8 = 1"
| "basesize TD_INT8 = 1"
| "basesize TD_UINT16 = 2"
| "basesize TD_INT16 = 2"
| "basesize TD_UINT = 4"
| "basesize TD_INT = 4"
| "basesize TD_HALF = 2"
| "basesize TD_FLOAT = 4"
| "basesize TD_DOUBLE = 8"
| "basesize TD_STRING = 8"
| "basesize TD_MATRIX = 64"

text \<open>
  The payload of a metadata attribute (\<^verbatim>\<open>ImageIOParameter::data\<close>): either
  32-bit cells, read as \<^verbatim>\<open>int\<close> or \<^verbatim>\<open>float\<close> according to the type, or a
  C string.
\<close>

datatype ParamData = Cells "32 word list" | Str string

record ImageIOParameter =
  p_name :: string
  p_type :: TypeDesc
  p_data :: ParamData

record ImageSpec =
  spec_x :: int
  spec_y :: int
  spec_z :: int
  width :: int
  height :: int
  depth :: int
  full_width :: int
  full_height :: int
  tile_width :: int
  tile_height :: int
  tile_depth :: int
  nchannels :: int
  format :: BASETYPE
  extra_attribs :: "ImageIOParameter list"

text \<open>
  \<^verbatim>\<open>ImageSpec::find_attribute (name, searchtype)\<close>: the first attribute of that
  name whose type is the one searched for; \<^verbatim>\<open>TD_UNKNOWN\<close> searches by name only.
\<close>

definition find_attribute :: "ImageSpec \<Rightarrow> string \<Rightarrow> BASETYPE \<Rightarrow> ImageIOParameter option" where
  "find_attribute sp name searchtype =
     find (\<lambda>p. p_name p = name \<and>
                (searchtype = TD_UNKNOWN \<or> basetype (p_type p) = searchtype))
          (extra_attribs sp)"

definition get_string_attribute :: "ImageSpec \<Rightarrow> string \<Rightarrow> string" where
  "get_string_attribute sp name =
     (case find_attribute sp name TD_STRING of
        Some p \<Rightarrow> (case p_data p of Str v \<Rightarrow> v | Cells c \<Rightarrow> [])
      | None \<Rightarrow> [])"

text \<open>
  Modelled from the spec: \<^verbatim>\<open>pow2roundup\<close> of fmath.h is not among the sources;
  the spec calls it the next power of two that is at least its argument.
\<close>

function pow2from :: "int \<Rightarrow> int \<Rightarrow> int" where
  "pow2from p v = (if 0 < p \<and> p < v then pow2from (2 * p) v else p)"
  by pat_completeness auto
termination
  by (relation "measure (\<lambda>(p, v). nat (v - p))") auto

definition pow2roundup :: "int \<Rightarrow> int" where
  "pow2roundup v = (if v \<le> 0 then 0 else pow2from 1 v)"

text \<open>C's integer division and remainder truncate towards zero.\<close>

definition c_div :: "int \<Rightarrow> int \<Rightarrow> int" where
  "c_div a b = sgn a * sgn b * (\<bar>a\<bar> div \<bar>b\<bar>)"

definition c_mod :: "int \<Rightarrow> int \<Rightarrow> int" where
  "c_mod a b = a - b * c_div a b"

datatype TexFormat = TexFormatUnknown | TexFormatTexture | TexFormatTexture3d
  | TexFormatShadow | TexFormatCubeFaceShadow | TexFormatVolumeShadow
  | TexFormatLatLongEnv | TexFormatCubeFaceEnv

text \<open>The formats below \<^verbatim>\<open>TexFormatLast\<close>, in the order of the enum.\<close>

definition all_TexFormats :: "TexFormat list" where
  "all_TexFormats = [TexFormatUnknown, TexFormatTexture, TexFormatTexture3d, TexFormatShadow,
     TexFormatCubeFaceShadow, TexFormatVolumeShadow, TexFormatLatLongEnv, TexFormatCubeFaceEnv]"

datatype CubeLayout = CubeUnknown | CubeThreeByTwo | CubeOneBySix | CubeLast

subsection \<open>The reader interface and the file system\<close>

text \<open>
  What a reader plugin reports for one file: whether \<^verbatim>\<open>ImageInput::open\<close>
  succeeds, the specs of its subimages (\<^verbatim>\<open>seek_subimage i\<close> succeeds for the indices
  of this list), its format name, and the bytes of each tile, scanline or whole image
  (\<open>None\<close> where the read fails, the destination buffer is then left as it was).
\<close>

record DiskFile =
  df_open_ok :: bool
  df_subimages :: "ImageSpec list"
  df_format_name :: string
  df_mod_time :: nat
  df_tile :: "int \<Rightarrow> int \<Rightarrow> int \<Rightarrow> int \<Rightarrow> 8 word list option"
  df_scanline :: "int \<Rightarrow> int \<Rightarrow> int \<Rightarrow> 8 word list option"
  df_image :: "int \<Rightarrow> 8 word list option"

text \<open>
  Everything outside the cache: \<open>disk\<close> is \<^verbatim>\<open>ImageInput::create\<close> (\<open>None\<close>
  when no reader can be created for the name), \<open>searchpath_find\<close> is
  \<^verbatim>\<open>Filesystem::searchpath_find\<close>, \<open>texture_format_name\<close> and
  \<open>texture_type_name\<close> are the two name tables of texture.h, \<open>basetype_code\<close> is
  the integer of a \<^verbatim>\<open>TypeDesc::BASETYPE\<close>, \<open>float_bits n\<close> is the 32-bit pattern
  of \<^verbatim>\<open>(float) n\<close>, \<open>parse_wrapmodes\<close> is
  \<^verbatim>\<open>TextureOptions::parse_wrapmodes\<close> and \<open>convert_types\<close> converts the bytes of
  one pixel between two channel types. The floating-point steps of
  \<^verbatim>\<open>read_unmipped\<close> are taken from outside as well: \<open>texel_low i w uw\<close> is the
  integer part that \<^verbatim>\<open>floorfrac (((i+0.5f) / w) * uw - 0.5, &low)\<close> delivers, and
  \<open>make_lores\<close> is the tile that \<^verbatim>\<open>bilerp\<close>, \<^verbatim>\<open>setpixel\<close> and
  \<^verbatim>\<open>copy_pixels\<close> build from the texels fetched for each of its pixels.
\<close>

record World =
  disk :: "string \<Rightarrow> DiskFile option"
  searchpath_find :: "string \<Rightarrow> string"
  texture_format_name :: "TexFormat \<Rightarrow> string"
  texture_type_name :: "TexFormat \<Rightarrow> string"
  basetype_code :: "BASETYPE \<Rightarrow> int"
  float_bits :: "int \<Rightarrow> 32 word"
  parse_wrapmodes :: "ParamData \<Rightarrow> int \<times> int \<Rightarrow> int \<times> int"
  convert_types :: "BASETYPE \<Rightarrow> BASETYPE \<Rightarrow> 8 word list \<Rightarrow> 8 word list"
  texel_low :: "int \<Rightarrow> int \<Rightarrow> int \<Rightarrow> int"
  make_lores :: "ImageSpec \<Rightarrow> BASETYPE \<Rightarrow> ((int \<times> int) \<times> 8 word list) list \<Rightarrow> 8 word list"

text \<open>
  A value of C's 32-bit \<^verbatim>\<open>float\<close>: a finite value, which is a rational, or an
  infinity or NaN.
\<close>

datatype cfloat = Finite rat | NonFinite

subsection \<open>File records, tile records and the cache\<close>

text \<open>
  \<open>m_input\<close> is \<open>Some i\<close> while a reader is open, positioned at subimage \<open>i\<close>.
  \<open>m_duplicate\<close> is the address of the canonical record, \<open>None\<close> for the null
  pointer. Wrap modes are the integers of the \<^verbatim>\<open>TextureOptions::Wrap\<close> enum.
\<close>

record ImageCacheFile =
  m_filename :: string
  m_used :: bool
  m_broken :: bool
  m_untiled :: bool
  m_unmipped :: bool
  m_input :: "int option"
  m_fileformat :: string
  m_spec :: "ImageSpec list"
  m_texformat :: TexFormat
  m_swrap :: int
  m_twrap :: int
  m_cubelayout :: CubeLayout
  m_y_up :: bool
  m_datatype :: BASETYPE
  m_channelsize :: int
  m_pixelsize :: int
  m_eightbit :: bool
  m_fingerprint :: string
  m_duplicate :: "nat option"
  m_tilesread :: nat
  m_timesopened :: nat
  m_mipused :: bool
  m_mod_time :: nat

record TileID =
  id_file :: nat
  id_subimage :: int
  id_x :: int
  id_y :: int
  id_z :: int

text \<open>
  A tile is reference counted (\<^verbatim>\<open>ImageCacheTileRef\<close> is an intrusive pointer):
  \<open>t_refcnt\<close> counts the table entry, the two slots of the calling thread and the
  handles given out by \<^verbatim>\<open>get_tile\<close>.
\<close>

record ImageCacheTile =
  t_id :: TileID
  t_pixels :: "8 word list"
  t_valid :: bool
  t_used :: bool
  t_refcnt :: nat

text \<open>
  The messages passed to \<^verbatim>\<open>ImageCacheImpl::error\<close>, by kind: \<open>NotFound\<close> is
  "Image file ... not found", \<open>Broken\<close> is "Invalid image file ...", \<open>BadSubimage\<close>
  the two unknown-subimage messages, \<open>ReaderError\<close> a message taken from the reader and
  \<open>UntiledRejected\<close> is "... was untiled, rejecting".
\<close>

datatype cache_error = NotFound string | Broken string | BadSubimage int string
  | ReaderError string | UntiledRejected string

text \<open>
  \<open>m_files\<close>, \<open>m_fingerprints\<close> and \<open>m_tilecache\<close> are the three hash maps, kept in
  a fixed iteration order; a sweep cursor is \<open>Some i\<close> at the \<open>i\<close>-th entry and
  \<open>None\<close> at \<^verbatim>\<open>end()\<close>. \<open>reader_creates\<close> counts the calls of
  \<^verbatim>\<open>ImageInput::create\<close>; \<open>pt_tile\<close>, \<open>pt_lasttile\<close> and \<open>pt_purge\<close> are
  the calling thread's \<^verbatim>\<open>ImageCachePerThreadInfo\<close>.
\<close>

record ImageCacheImpl =
  m_max_open_files :: int
  m_max_memory_MB :: cfloat
  m_max_memory_bytes :: int
  m_searchpath :: string
  m_statslevel :: int
  m_autotile :: int
  m_automip :: bool
  m_forcefloat :: bool
  m_accept_untiled :: bool
  file_heap :: "ImageCacheFile list"
  m_files :: "(string \<times> nat) list"
  m_file_sweep :: "nat option"
  m_fingerprints :: "(string \<times> nat) list"
  tile_heap :: "ImageCacheTile list"
  m_tilecache :: "(TileID \<times> nat) list"
  m_tile_sweep :: "nat option"
  m_mem_used :: int
  m_stat_tiles_created :: int
  m_stat_tiles_current :: int
  m_stat_tiles_peak :: int
  m_stat_open_files_created :: int
  m_stat_open_files_current :: int
  m_stat_open_files_peak :: int
  m_errormessage :: "cache_error list"
  reader_creates :: nat
  unique_files :: nat
  find_tile_calls :: nat
  find_tile_microcache_misses :: nat
  find_tile_cache_misses :: nat
  pt_tile :: "nat option"
  pt_lasttile :: "nat option"
  pt_purge :: bool

definition error :: "cache_error \<Rightarrow> ImageCacheImpl \<Rightarrow> ImageCacheImpl" where
  "error e s = s\<lparr>m_errormessage := m_errormessage s @ [e]\<rparr>"

definition upd_file :: "nat \<Rightarrow> (ImageCacheFile \<Rightarrow> ImageCacheFile) \<Rightarrow> ImageCacheImpl \<Rightarrow> ImageCacheImpl" where
  "upd_file a g s = s\<lparr>file_heap := (file_heap s)[a := g (file_heap s ! a)]\<rparr>"

text \<open>
  Modelled from the spec: \<^verbatim>\<open>incr_open_files\<close>, \<^verbatim>\<open>decr_open_files\<close> and
  \<^verbatim>\<open>ImageCacheFile::use\<close> are inline members of imagecache\_pvt.h, which is not
  among the sources. The counter is the number of currently open reader handles and
  \<^verbatim>\<open>use\<close> ("touch") sets the used flag.
\<close>

definition incr_open_files :: "ImageCacheImpl \<Rightarrow> ImageCacheImpl" where
  "incr_open_files s =
     s\<lparr>m_stat_open_files_created := m_stat_open_files_created s + 1,
       m_stat_open_files_current := m_stat_open_files_current s + 1,
       m_stat_open_files_peak := max (m_stat_open_files_peak s) (m_stat_open_files_current s + 1)\<rparr>"

definition decr_open_files :: "ImageCacheImpl \<Rightarrow> ImageCacheImpl" where
  "decr_open_files s = s\<lparr>m_stat_open_files_current := m_stat_open_files_current s - 1\<rparr>"

definition use_file :: "nat \<Rightarrow> ImageCacheImpl \<Rightarrow> ImageCacheImpl" where
  "use_file a s = upd_file a (\<lambda>f. f\<lparr>m_used := True\<rparr>) s"

subsection \<open>\<^verbatim>\<open>ImageCacheFile\<close>: the lazy-open state machine\<close>

text \<open>
  The body of \<^verbatim>\<open>if (tempspec.tile_width == 0 || tempspec.tile_height == 0)\<close> in
  \<^verbatim>\<open>open\<close>: a scanline file is made to look tiled.
\<close>

definition make_tiled :: "int \<Rightarrow> ImageSpec \<Rightarrow> ImageSpec" where
  "make_tiled autotile t =
     (if autotile \<noteq> 0
      then t\<lparr>tile_width := autotile, tile_height := autotile, tile_depth := 1\<rparr>
      else t\<lparr>tile_width := pow2roundup (width t), tile_height := pow2roundup (height t),
             tile_depth := 1\<rparr>)"

text \<open>
  The \<^verbatim>\<open>do ... while (m_input->seek_subimage (nsubimages, tempspec))\<close> loop of
  \<^verbatim>\<open>open\<close>, over the specs the reader still has to deliver. \<open>acc\<close> is
  \<^verbatim>\<open>m_spec\<close> so far (its length is \<^verbatim>\<open>nsubimages\<close>) and \<open>u\<close> is
  \<^verbatim>\<open>m_untiled\<close>. The first component of the result is false when a subimage with
  another number of channels stops the loop.
\<close>

fun read_subimages :: "int \<Rightarrow> ImageSpec list \<Rightarrow> ImageSpec list \<Rightarrow> bool \<Rightarrow> bool \<times> ImageSpec list \<times> bool" where
  "read_subimages autotile [] acc u = (True, acc, u)"
| "read_subimages autotile (t # ts) acc u =
     (if 1 < length acc \<and> nchannels t \<noteq> nchannels (hd acc) then (False, acc, u)
      else let untiled = (tile_width t = 0 \<or> tile_height t = 0);
               t' = (if untiled then make_tiled autotile t else t)
           in read_subimages autotile ts (acc @ [t']) (u \<or> untiled))"

text \<open>
  The \<^verbatim>\<open>while (w > 1 || h > 1)\<close> loop of \<^verbatim>\<open>open\<close> that appends the
  synthesized MIP levels; \<open>sp\<close> is \<^verbatim>\<open>spec()\<close>, the spec of subimage 0.
\<close>

lemma c_div_2_less: "1 < w \<Longrightarrow> c_div w 2 < w"
  by (simp add: c_div_def)

lemma c_div_2_le: "\<not> 1 < w \<Longrightarrow> c_div w 2 \<le> 0"
proof -
  assume w: "\<not> 1 < w"
  have "0 \<le> \<bar>w\<bar> div 2" by (simp add: pos_imp_zdiv_nonneg_iff)
  moreover have "w = 1 \<Longrightarrow> \<bar>w\<bar> div 2 = 0" by simp
  ultimately show ?thesis using w by (cases "w = 1") (auto simp: c_div_def sgn_if)
qed

function automip_levels :: "int \<Rightarrow> ImageSpec \<Rightarrow> int \<Rightarrow> int \<Rightarrow> ImageSpec list" where
  "automip_levels autotile sp w h =
     (if 1 < w \<or> 1 < h then
        (let w' = max 1 (c_div w 2);
             h' = max 1 (c_div h 2);
             s0 = sp\<lparr>width := w', height := h', full_width := w', full_height := h'\<rparr>;
             s1 = (if autotile \<noteq> 0
                   then s0\<lparr>tile_width := min autotile w', tile_height := min autotile h'\<rparr>
                   else s0\<lparr>tile_width := w', tile_height := h'\<rparr>);
             s2 = s1\<lparr>tile_width := pow2roundup (tile_width s1),
                     tile_height := pow2roundup (tile_height s1)\<rparr>
         in s2 # automip_levels autotile sp w' h')
      else [])"
  by pat_completeness auto
termination
proof (relation "measure (\<lambda>(a, sp, w, h). nat (if 1 < w then w else 0) + nat (if 1 < h then h else 0))")
  show "wf (measure (\<lambda>(a, sp, w, h). nat (if 1 < w then w else 0) + nat (if 1 < h then h else 0)))"
    by simp
next
  fix autotile :: int and sp :: ImageSpec and w h x xa :: int
  assume "1 < w \<or> 1 < h" and x: "x = max 1 (c_div w 2)" and xa: "xa = max 1 (c_div h 2)"
  moreover have "1 < w \<Longrightarrow> x < w" using c_div_2_less [of w] x by simp
  moreover have "1 < h \<Longrightarrow> xa < h" using c_div_2_less [of h] xa by simp
  moreover have "\<not> 1 < w \<Longrightarrow> x = 1" using x c_div_2_le [of w] by simp
  moreover have "\<not> 1 < h \<Longrightarrow> xa = 1" using xa c_div_2_le [of h] by simp
  ultimately show "((autotile, sp, x, xa), (autotile, sp, w, h))
       \<in> measure (\<lambda>(a, sp, w, h). nat (if 1 < w then w else 0) + nat (if 1 < h then h else 0))"
    by auto
qed

text \<open>\<^verbatim>\<open>std::string::rfind\<close>: the last position at which \<open>pat\<close> occurs.\<close>

fun rfind :: "string \<Rightarrow> string \<Rightarrow> nat option" where
  "rfind pat [] = (if pat = [] then Some 0 else None)"
| "rfind pat (c # cs) =
     (case rfind pat cs of
        Some i \<Rightarrow> Some (Suc i)
      | None \<Rightarrow> if take (length pat) (c # cs) = pat then Some 0 else None)"

definition ImageCacheFile_close :: "nat \<Rightarrow> ImageCacheImpl \<Rightarrow> ImageCacheImpl" where
  "ImageCacheFile_close a s =
     (if m_input (file_heap s ! a) \<noteq> None
      then decr_open_files (upd_file a (\<lambda>f. f\<lparr>m_input := None\<rparr>) s)
      else s)"

definition ImageCacheFile_release :: "nat \<Rightarrow> ImageCacheImpl \<Rightarrow> ImageCacheImpl" where
  "ImageCacheFile_release a s =
     (if m_used (file_heap s ! a) then upd_file a (\<lambda>f. f\<lparr>m_used := False\<rparr>) s
      else ImageCacheFile_close a s)"

text \<open>
  The part of \<^verbatim>\<open>open\<close> after the subimages are read and the file is known to be
  accepted: texture format, wrap modes, cube layout, fingerprint and cached data type,
  all taken from the spec of subimage 0.
\<close>

definition fill_fields :: "World \<Rightarrow> bool \<Rightarrow> string \<Rightarrow> ImageCacheFile \<Rightarrow> ImageCacheFile" where
  "fill_fields W forcefloat format_name f =
     (let sp = hd (m_spec f);
          texformat =
            (case find_attribute sp ''textureformat'' TD_STRING of
               None \<Rightarrow> TexFormatTexture
             | Some p \<Rightarrow>
                 (case p_data p of
                    Str v \<Rightarrow> (case find (\<lambda>t. texture_format_name W t = v) all_TexFormats of
                                Some t \<Rightarrow> t | None \<Rightarrow> TexFormatTexture)
                  | Cells c \<Rightarrow> TexFormatTexture));
          specs =
            (if find_attribute sp ''textureformat'' TD_STRING \<noteq> None \<and> texformat = TexFormatTexture
             then map (\<lambda>q. q\<lparr>full_width := min (full_width q) (width q),
                             full_height := min (full_height q) (height q)\<rparr>) (m_spec f)
             else m_spec f);
          sp = hd specs;
          wraps =
            (case find_attribute sp ''wrapmodes'' TD_STRING of
               None \<Rightarrow> (m_swrap f, m_twrap f)
             | Some p \<Rightarrow> parse_wrapmodes W (p_data p) (m_swrap f, m_twrap f));
          w = max (full_width sp) (tile_width sp);
          h = max (full_height sp) (tile_height sp);
          desc = get_string_attribute sp ''ImageDescription'';
          datatype = (if \<not> forcefloat \<and> format sp = TD_UINT8 then TD_UINT8 else TD_FLOAT)
      in f\<lparr>m_spec := specs,
           m_texformat := texformat,
           m_swrap := fst wraps,
           m_twrap := snd wraps,
           m_y_up := (texformat = TexFormatCubeFaceEnv \<and> format_name = ''openexr''),
           m_cubelayout :=
             (if texformat = TexFormatCubeFaceEnv then
                (if width sp = 3 * w \<and> height sp = 2 * h then CubeThreeByTwo
                 else if width sp = w \<and> height sp = 6 * h then CubeOneBySix
                 else CubeLast)
              else m_cubelayout f),
           m_fingerprint :=
             (case rfind ''SHA-1='' desc of
                None \<Rightarrow> m_fingerprint f
              | Some found \<Rightarrow> take 40 (drop (found + 6) desc)),
           m_datatype := datatype,
           m_channelsize := basesize datatype,
           m_pixelsize := basesize datatype * nchannels sp,
           m_eightbit := (datatype = TD_UINT8)\<rparr>)"

text \<open>
  \<^verbatim>\<open>ImageCacheFile::open\<close> from the point where the file is known to be opened for
  the very first time (\<^verbatim>\<open>m_spec\<close> is empty); \<open>df\<close> is what the reader delivers.
\<close>

definition open_first_time :: "World \<Rightarrow> nat \<Rightarrow> DiskFile \<Rightarrow> ImageCacheImpl \<Rightarrow> ImageCacheImpl \<times> bool" where
  "open_first_time W a df s =
     (case read_subimages (m_autotile s) (df_subimages df) [] (m_untiled (file_heap s ! a)) of
        (False, specs, u) \<Rightarrow>
          (upd_file a (\<lambda>f. f\<lparr>m_broken := True\<rparr>)
             (ImageCacheFile_close a (upd_file a (\<lambda>f. f\<lparr>m_spec := specs, m_untiled := u\<rparr>) s)),
           False)
      | (True, specs, u) \<Rightarrow>
          (let unmipped = (length specs = 1 \<or> m_unmipped (file_heap s ! a));
               sp = hd specs;
               specs' =
                 (if u \<and> unmipped \<and> m_automip s \<and>
                     find_attribute sp ''textureformat'' TD_STRING = None
                  then specs @ automip_levels (m_autotile s) sp (full_width sp) (full_height sp)
                  else specs);
               s1 = upd_file a (\<lambda>f. f\<lparr>m_spec := specs', m_untiled := u, m_unmipped := unmipped,
                                       m_input := Some (int (length (df_subimages df)) - 1)\<rparr>) s
           in if u \<and> \<not> m_accept_untiled s
              then (upd_file a (\<lambda>f. f\<lparr>m_broken := True, m_input := None\<rparr>)
                      (error (UntiledRejected (m_filename (file_heap s ! a))) s1), False)
              else (let s2 = upd_file a (fill_fields W (m_forcefloat s) (df_format_name df)) s1
                    in (s2, \<not> m_broken (file_heap s2 ! a)))))"

text \<open>
  \<^verbatim>\<open>ImageCacheFile::open\<close> on the record at address \<open>a\<close>. The reader's
  \<^verbatim>\<open>open\<close> succeeds when the file says so and has a first subimage.
\<close>

definition ImageCacheFile_open :: "World \<Rightarrow> nat \<Rightarrow> ImageCacheImpl \<Rightarrow> ImageCacheImpl \<times> bool" where
  "ImageCacheFile_open W a s =
     (let f = file_heap s ! a
      in if m_input f \<noteq> None then (s, \<not> m_broken f)
         else if m_broken f then (s, False)
         else (let s0 = s\<lparr>reader_creates := Suc (reader_creates s)\<rparr>
               in case disk W (m_filename f) of
                    None \<Rightarrow>
                      (upd_file a (\<lambda>f. f\<lparr>m_broken := True\<rparr>)
                         (error (ReaderError (m_filename f)) s0), False)
                  | Some df \<Rightarrow>
                      if \<not> df_open_ok df \<or> df_subimages df = []
                      then (upd_file a (\<lambda>f. f\<lparr>m_broken := True, m_input := None\<rparr>)
                              (error (ReaderError (m_filename f)) s0), False)
                      else (let s1 = use_file a (incr_open_files
                                       (upd_file a (\<lambda>f. f\<lparr>m_input := Some 0,
                                                           m_fileformat := df_format_name df,
                                                           m_timesopened := Suc (m_timesopened f)\<rparr>) s0))
                            in if m_spec f \<noteq> [] then (s1, True)
                               else open_first_time W a df s1)))"

definition resolve_filename :: "World \<Rightarrow> string \<Rightarrow> string" where
  "resolve_filename W filename =
     (let r = searchpath_find W filename in if r = [] then filename else r)"

text \<open>
  The constructor \<^verbatim>\<open>ImageCacheFile::ImageCacheFile\<close>: a new record is allocated at
  the next free address and opened at once. The result is the new cache and the address.
\<close>

definition new_ImageCacheFile :: "World \<Rightarrow> string \<Rightarrow> ImageCacheImpl \<Rightarrow> ImageCacheImpl \<times> nat" where
  "new_ImageCacheFile W filename s =
     (let a = length (file_heap s);
          f = \<lparr>m_filename = resolve_filename W filename, m_used = True, m_broken = False,
               m_untiled = False, m_unmipped = False, m_input = None, m_fileformat = [],
               m_spec = [], m_texformat = TexFormatTexture, m_swrap = 0, m_twrap = 0,
               m_cubelayout = CubeUnknown, m_y_up = False, m_datatype = TD_UNKNOWN,
               m_channelsize = 0, m_pixelsize = 0, m_eightbit = False, m_fingerprint = [],
               m_duplicate = None, m_tilesread = 0, m_timesopened = 0, m_mipused = False,
               m_mod_time = 0\<rparr>;
          s1 = fst (ImageCacheFile_open W a (s\<lparr>file_heap := file_heap s @ [f]\<rparr>))
      in (if \<not> m_broken (file_heap s1 ! a)
          then upd_file a (\<lambda>f. f\<lparr>m_mod_time :=
                 (case disk W (m_filename f) of Some df \<Rightarrow> df_mod_time df | None \<Rightarrow> 0)\<rparr>) s1
          else s1, a))"

subsection \<open>The file table: \<^verbatim>\<open>find_file\<close> and the open-file sweep\<close>

text \<open>
  The entry a sweep looks at next: the cursor, or the first entry when the cursor is at
  \<^verbatim>\<open>end()\<close>; \<open>None\<close> when the table is empty. A cursor beyond the table does not
  arise and counts as \<^verbatim>\<open>end()\<close>.
\<close>

definition sweep_pos :: "nat option \<Rightarrow> 'a list \<Rightarrow> nat option" where
  "sweep_pos cur xs =
     (case cur of
        Some i \<Rightarrow> if i < length xs then Some i else if xs = [] then None else Some 0
      | None \<Rightarrow> if xs = [] then None else Some 0)"

text \<open>
  \<^verbatim>\<open>ImageCacheImpl::check_max_files\<close>. The loop has no bound of its own, so the
  model is a partial function: \<open>None\<close> when the loop never ends.
\<close>

partial_function (option) check_max_files :: "ImageCacheImpl \<Rightarrow> ImageCacheImpl option" where
  "check_max_files s =
     (if m_max_open_files s \<le> m_stat_open_files_current s then
        (case sweep_pos (m_file_sweep s) (m_files s) of
           None \<Rightarrow> Some (s\<lparr>m_file_sweep := None\<rparr>)
         | Some i \<Rightarrow>
             check_max_files
               ((ImageCacheFile_release (snd (m_files s ! i)) s)
                  \<lparr>m_file_sweep := (if Suc i < length (m_files s) then Some (Suc i) else None)\<rparr>))
      else Some s)"

declare check_max_files.simps [code]

text \<open>\<^verbatim>\<open>m[key] = value\<close> on a table: an entry with the key is overwritten.\<close>

definition table_set :: "'k \<Rightarrow> 'v \<Rightarrow> ('k \<times> 'v) list \<Rightarrow> ('k \<times> 'v) list" where
  "table_set k v m =
     (if k \<in> fst ` set m then map (\<lambda>(k', v'). if k' = k then (k', v) else (k', v')) m
      else m @ [(k, v)])"

text \<open>
  The fingerprint block of \<^verbatim>\<open>find_file\<close>, for the newly created record \<open>tf\<close>.
\<close>

definition dedup_fingerprint :: "nat \<Rightarrow> ImageCacheImpl \<Rightarrow> ImageCacheImpl" where
  "dedup_fingerprint tf s =
     (let f = file_heap s ! tf
      in if m_fingerprint f = [] then s
         else (case map_of (m_fingerprints s) (m_fingerprint f) of
                 None \<Rightarrow> s\<lparr>m_fingerprints := table_set (m_fingerprint f) tf (m_fingerprints s)\<rparr>
               | Some dup \<Rightarrow>
                   (let d = file_heap s ! dup
                    in if m_swrap f = m_swrap d \<and> m_twrap f = m_twrap d \<and>
                          m_datatype f = m_datatype d \<and> m_cubelayout f = m_cubelayout d \<and>
                          m_y_up f = m_y_up d
                       then ImageCacheFile_close tf (upd_file tf (\<lambda>f. f\<lparr>m_duplicate := Some dup\<rparr>) s)
                       else s)))"

text \<open>The canonical record behind a record: its duplicate pointer if that is set.\<close>

definition canonical :: "ImageCacheImpl \<Rightarrow> nat \<Rightarrow> nat" where
  "canonical s a = (case m_duplicate (file_heap s ! a) of Some d \<Rightarrow> d | None \<Rightarrow> a)"

text \<open>
  \<^verbatim>\<open>ImageCacheImpl::find_file\<close>. The returned pointer is \<open>Some\<close> address, \<open>None\<close>
  would be the null pointer. The outer \<open>None\<close> is a call that does not return.
\<close>

definition find_file :: "World \<Rightarrow> string \<Rightarrow> ImageCacheImpl \<Rightarrow> (ImageCacheImpl \<times> nat option) option" where
  "find_file W filename s =
     (case map_of (m_files s) filename of
        Some a \<Rightarrow> Some (use_file (canonical s a) s, Some (canonical s a))
      | None \<Rightarrow>
          (case new_ImageCacheFile W filename s of
             (s1, tf) \<Rightarrow>
               (case map_of (m_files s1) filename of
                  Some a \<Rightarrow>
                    (let s2 = ImageCacheFile_close tf s1
                     in Some (use_file (canonical s2 a) s2, Some (canonical s2 a)))
                | None \<Rightarrow>
                    (case check_max_files (dedup_fingerprint tf s1) of
                       None \<Rightarrow> None
                     | Some s3 \<Rightarrow>
                         (let s4 = s3\<lparr>m_files := table_set filename tf (m_files s3)\<rparr>
                          in case m_duplicate (file_heap s4 ! tf) of
                               Some d \<Rightarrow> Some (use_file d s4, Some d)
                             | None \<Rightarrow>
                                 Some (use_file tf (s4\<lparr>unique_files := Suc (unique_files s4)\<rparr>),
                                       Some tf))))))"

subsection \<open>Tile records and the tile table\<close>

definition upd_tile :: "nat \<Rightarrow> (ImageCacheTile \<Rightarrow> ImageCacheTile) \<Rightarrow> ImageCacheImpl \<Rightarrow> ImageCacheImpl" where
  "upd_tile a g s = s\<lparr>tile_heap := (tile_heap s)[a := g (tile_heap s ! a)]\<rparr>"

text \<open>
  Modelled from the spec: \<^verbatim>\<open>ImageSpec::tile_pixels\<close> (imageio.h) and
  \<^verbatim>\<open>ImageCacheTile::memsize\<close>, \<^verbatim>\<open>use\<close>, \<^verbatim>\<open>release\<close>,
  \<^verbatim>\<open>ImageCacheImpl::incr_tiles\<close>, \<^verbatim>\<open>decr_tiles\<close> and
  \<^verbatim>\<open>tile_in_cache\<close> (imagecache\_pvt.h) are not among the sources. The spec sizes
  the buffer of a tile as tile width times tile height times tile depth times channels
  times channel bytes; \<^verbatim>\<open>release\<close> clears the used flag of a tile and returns
  its old value; the two counters add and subtract the size to and from the resident
  bytes. \<open>memsize\<close> is \<open>None\<close> where the subimage of the tile is not one of the file's,
  an out-of-range read of \<^verbatim>\<open>m_spec\<close> in the C++ code.
\<close>

definition tile_pixels :: "ImageSpec \<Rightarrow> int" where
  "tile_pixels sp = tile_width sp * tile_height sp * tile_depth sp"

definition spec_of :: "ImageCacheImpl \<Rightarrow> nat \<Rightarrow> int \<Rightarrow> ImageSpec option" where
  "spec_of s a subimage =
     (if 0 \<le> subimage \<and> subimage < int (length (m_spec (file_heap s ! a)))
      then Some (m_spec (file_heap s ! a) ! nat subimage) else None)"

definition memsize :: "ImageCacheImpl \<Rightarrow> TileID \<Rightarrow> int option" where
  "memsize s tid =
     (case spec_of s (id_file tid) (id_subimage tid) of
        None \<Rightarrow> None
      | Some sp \<Rightarrow> Some (tile_pixels sp * nchannels sp * basesize (m_datatype (file_heap s ! id_file tid))))"

definition incr_tiles :: "int \<Rightarrow> ImageCacheImpl \<Rightarrow> ImageCacheImpl" where
  "incr_tiles sz s =
     s\<lparr>m_stat_tiles_created := m_stat_tiles_created s + 1,
       m_stat_tiles_current := m_stat_tiles_current s + 1,
       m_stat_tiles_peak := max (m_stat_tiles_peak s) (m_stat_tiles_current s + 1),
       m_mem_used := m_mem_used s + sz\<rparr>"

definition decr_tiles :: "int \<Rightarrow> ImageCacheImpl \<Rightarrow> ImageCacheImpl" where
  "decr_tiles sz s =
     s\<lparr>m_stat_tiles_current := m_stat_tiles_current s - 1, m_mem_used := m_mem_used s - sz\<rparr>"

definition use_tile :: "nat \<Rightarrow> ImageCacheImpl \<Rightarrow> ImageCacheImpl" where
  "use_tile a s = upd_tile a (\<lambda>t. t\<lparr>t_used := True\<rparr>) s"

definition tile_in_cache :: "ImageCacheImpl \<Rightarrow> TileID \<Rightarrow> bool" where
  "tile_in_cache s tid = (map_of (m_tilecache s) tid \<noteq> None)"

text \<open>
  Taking and dropping a reference to a tile. Dropping the last one runs the destructor
  \<^verbatim>\<open>ImageCacheTile::~ImageCacheTile\<close>, which gives the tile's bytes back.
\<close>

definition tile_incref :: "nat \<Rightarrow> ImageCacheImpl \<Rightarrow> ImageCacheImpl" where
  "tile_incref a s = upd_tile a (\<lambda>t. t\<lparr>t_refcnt := Suc (t_refcnt t)\<rparr>) s"

definition tile_decref :: "nat \<Rightarrow> ImageCacheImpl \<Rightarrow> ImageCacheImpl option" where
  "tile_decref a s =
     (let s1 = upd_tile a (\<lambda>t. t\<lparr>t_refcnt := t_refcnt t - 1\<rparr>) s
      in if t_refcnt (tile_heap s ! a) \<le> 1
         then (case memsize s (t_id (tile_heap s ! a)) of
                 None \<Rightarrow> None
               | Some sz \<Rightarrow> Some (decr_tiles sz s1))
         else Some s1)"

definition ref_reset :: "nat option \<Rightarrow> ImageCacheImpl \<Rightarrow> ImageCacheImpl option" where
  "ref_reset r s = (case r of None \<Rightarrow> Some s | Some a \<Rightarrow> tile_decref a s)"

text \<open>
  \<^verbatim>\<open>ImageCacheImpl::check_max_mem\<close>. \<open>None\<close> is the abort of
  \<^verbatim>\<open>ASSERT (m_mem_used >= size)\<close> or an undefined \<open>memsize\<close>. After the entry at
  the cursor is erased the cursor is at the entry that followed it.
\<close>

definition sweep_weight :: "ImageCacheImpl \<Rightarrow> nat" where
  "sweep_weight s = (\<Sum>e\<leftarrow>m_tilecache s. if t_used (tile_heap s ! snd e) then 2 else 1)"

definition tile_sweep_pos :: "ImageCacheImpl \<Rightarrow> nat option" where
  "tile_sweep_pos s = sweep_pos (m_tile_sweep s) (m_tilecache s)"

definition erase_at :: "nat \<Rightarrow> 'a list \<Rightarrow> 'a list" where
  "erase_at i xs = take i xs @ drop (Suc i) xs"

definition sweep_clear :: "nat \<Rightarrow> ImageCacheImpl \<Rightarrow> ImageCacheImpl" where
  "sweep_clear i s =
     (upd_tile (snd (m_tilecache s ! i)) (\<lambda>t. t\<lparr>t_used := False\<rparr>) s)
       \<lparr>m_tile_sweep := (if Suc i < length (m_tilecache s) then Some (Suc i) else None)\<rparr>"

definition sweep_erase :: "nat \<Rightarrow> ImageCacheImpl \<Rightarrow> ImageCacheImpl option" where
  "sweep_erase i s =
     (case memsize s (t_id (tile_heap s ! snd (m_tilecache s ! i))) of
        None \<Rightarrow> None
      | Some sz \<Rightarrow>
          if m_mem_used s < sz then None
          else tile_decref (snd (m_tilecache s ! i))
                 (s\<lparr>m_tilecache := erase_at i (m_tilecache s),
                    m_tile_sweep := (if Suc i < length (m_tilecache s) then Some i else None)\<rparr>))"

lemma sum_list_strict_at:
  fixes f g :: "'a \<Rightarrow> nat"
  assumes "i < length xs" "f (xs ! i) < g (xs ! i)" "\<forall>e\<in>set xs. f e \<le> g e"
  shows "sum_list (map f xs) < sum_list (map g xs)"
proof -
  have xs: "xs = take i xs @ xs ! i # drop (Suc i) xs"
    using assms(1) by (rule id_take_nth_drop)
  have a: "sum_list (map f (take i xs)) \<le> sum_list (map g (take i xs))"
    using assms(3) by (intro sum_list_mono) (auto dest: in_set_takeD)
  have b: "sum_list (map f (drop (Suc i) xs)) \<le> sum_list (map g (drop (Suc i) xs))"
    using assms(3) by (intro sum_list_mono) (auto dest: in_set_dropD)
  have "sum_list (map f xs) = sum_list (map f (take i xs)) + f (xs ! i) + sum_list (map f (drop (Suc i) xs))"
    by (subst xs) simp
  moreover have "sum_list (map g xs) = sum_list (map g (take i xs)) + g (xs ! i) + sum_list (map g (drop (Suc i) xs))"
    by (subst xs) simp
  ultimately show ?thesis using a b assms(2) by linarith
qed

lemma sum_list_erase_at:
  fixes f :: "'a \<Rightarrow> nat"
  assumes "i < length xs" "0 < f (xs ! i)"
  shows "sum_list (map f (erase_at i xs)) < sum_list (map f xs)"
proof -
  have xs: "xs = take i xs @ xs ! i # drop (Suc i) xs"
    using assms(1) by (rule id_take_nth_drop)
  have "sum_list (map f xs) = sum_list (map f (take i xs)) + f (xs ! i) + sum_list (map f (drop (Suc i) xs))"
    by (subst xs) simp
  then show ?thesis using assms(2) by (simp add: erase_at_def)
qed

lemma nth_upd_field: "(\<And>t. P (g t) = P t) \<Longrightarrow> P (xs[a := g (xs ! a)] ! b) = P (xs ! b)"
  by (cases "a < length xs"; cases "a = b"; simp add: list_update_beyond)

lemma sweep_weight_clear:
  assumes "i < length (m_tilecache s)" "t_used (tile_heap s ! snd (m_tilecache s ! i))"
    "snd (m_tilecache s ! i) < length (tile_heap s)"
  shows "sweep_weight (sweep_clear i s) < sweep_weight s"
  unfolding sweep_weight_def
  using assms
  by (auto simp: sweep_clear_def upd_tile_def nth_list_update intro!: sum_list_strict_at [where i = i])

lemma tile_decref_used:
  assumes "tile_decref a s = Some s'"
  shows "m_tilecache s' = m_tilecache s" and "t_used (tile_heap s' ! b) = t_used (tile_heap s ! b)"
proof -
  let ?g = "\<lambda>t. t\<lparr>t_refcnt := t_refcnt t - 1\<rparr>"
  have h: "tile_heap s' = (tile_heap s)[a := ?g (tile_heap s ! a)] \<and> m_tilecache s' = m_tilecache s"
    using assms by (auto simp: tile_decref_def Let_def upd_tile_def decr_tiles_def split: if_splits option.splits)
  show "m_tilecache s' = m_tilecache s" using h by simp
  show "t_used (tile_heap s' ! b) = t_used (tile_heap s ! b)"
    using h nth_upd_field [of t_used ?g "tile_heap s" a b] by simp
qed

lemma sweep_weight_erase:
  assumes "i < length (m_tilecache s)" "sweep_erase i s = Some s'"
  shows "sweep_weight s' < sweep_weight s"
proof -
  let ?s1 = "s\<lparr>m_tilecache := erase_at i (m_tilecache s),
               m_tile_sweep := (if Suc i < length (m_tilecache s) then Some i else None)\<rparr>"
  have d: "tile_decref (snd (m_tilecache s ! i)) ?s1 = Some s'"
    using assms(2) by (auto simp: sweep_erase_def split: option.splits if_splits)
  have "sweep_weight s' = sweep_weight ?s1"
    unfolding sweep_weight_def using tile_decref_used [OF d] by simp
  also have "\<dots> < sweep_weight s"
    unfolding sweep_weight_def using assms(1) by (simp add: sum_list_erase_at)
  finally show ?thesis .
qed

text \<open>
  The loop of \<^verbatim>\<open>check_max_mem\<close>. A table entry whose tile address is not in the
  store is a dangling pointer and gives \<open>None\<close>. The loop ends in every state: each
  turn either clears a used flag or erases an entry.
\<close>

function check_max_mem_loop :: "ImageCacheImpl \<Rightarrow> ImageCacheImpl option" where
  "check_max_mem_loop s =
     (if m_max_memory_bytes s \<le> m_mem_used s then
        (case tile_sweep_pos s of
           None \<Rightarrow> Some (s\<lparr>m_tile_sweep := None\<rparr>)
         | Some i \<Rightarrow>
             if length (tile_heap s) \<le> snd (m_tilecache s ! i) then None
             else if t_used (tile_heap s ! snd (m_tilecache s ! i))
             then check_max_mem_loop (sweep_clear i s)
             else (case sweep_erase i s of
                     None \<Rightarrow> None
                   | Some s' \<Rightarrow> check_max_mem_loop s'))
      else Some s)"
  by pat_completeness auto
termination
proof (relation "measure sweep_weight")
  show "wf (measure sweep_weight)" by simp
next
  fix s i
  assume "tile_sweep_pos s = Some i" "\<not> length (tile_heap s) \<le> snd (m_tilecache s ! i)"
    "t_used (tile_heap s ! snd (m_tilecache s ! i))"
  then show "(sweep_clear i s, s) \<in> measure sweep_weight"
    using sweep_weight_clear [of i s]
    by (auto simp: tile_sweep_pos_def sweep_pos_def split: option.splits if_splits)
next
  fix s i s'
  assume "tile_sweep_pos s = Some i" "sweep_erase i s = Some s'"
  then show "(s', s) \<in> measure sweep_weight"
    using sweep_weight_erase [of i s s']
    by (auto simp: tile_sweep_pos_def sweep_pos_def split: option.splits if_splits)
qed

definition check_max_mem :: "ImageCacheImpl \<Rightarrow> ImageCacheImpl option" where
  "check_max_mem s = (if m_tilecache s = [] then Some s else check_max_mem_loop s)"


subsection \<open>Reading tiles\<close>

text \<open>A loop over a list whose body may fail to return.\<close>

fun fold_opt :: "('a \<Rightarrow> 's \<Rightarrow> 's option) \<Rightarrow> 'a list \<Rightarrow> 's \<Rightarrow> 's option" where
  "fold_opt f [] s = Some s"
| "fold_opt f (x # xs) s = (case f x s of None \<Rightarrow> None | Some s' \<Rightarrow> fold_opt f xs s')"

text \<open>Writing \<open>bytes\<close> at the start of a buffer, which keeps its length.\<close>

definition overwrite :: "8 word list \<Rightarrow> 8 word list \<Rightarrow> 8 word list" where
  "overwrite bytes buf = take (length buf) (bytes @ drop (length bytes) buf)"

definition zeros :: "int \<Rightarrow> 8 word list" where
  "zeros n = replicate (nat n) 0"

text \<open>
  \<^verbatim>\<open>m_input->seek_subimage\<close> on the open reader of the record at \<open>a\<close>: it succeeds
  for the subimages the file has and leaves the reader there.
\<close>

definition seek_subimage :: "World \<Rightarrow> nat \<Rightarrow> int \<Rightarrow> ImageCacheImpl \<Rightarrow> ImageCacheImpl \<times> bool" where
  "seek_subimage W a subimage s =
     (case disk W (m_filename (file_heap s ! a)) of
        None \<Rightarrow> (s, False)
      | Some df \<Rightarrow>
          if 0 \<le> subimage \<and> subimage < int (length (df_subimages df))
          then (upd_file a (\<lambda>f. f\<lparr>m_input := Some subimage\<rparr>) s, True)
          else (s, False))"

text \<open>The reader behind the record at \<open>a\<close>; every read fails once the file is gone.\<close>

definition reader_of :: "World \<Rightarrow> ImageCacheImpl \<Rightarrow> nat \<Rightarrow> DiskFile" where
  "reader_of W s a =
     (case disk W (m_filename (file_heap s ! a)) of
        Some df \<Rightarrow> df
      | None \<Rightarrow> \<lparr>df_open_ok = False, df_subimages = [], df_format_name = [], df_mod_time = 0,
                  df_tile = (\<lambda>_ _ _ _. None), df_scanline = (\<lambda>_ _ _. None),
                  df_image = (\<lambda>_. None)\<rparr>)"

text \<open>
  \<^verbatim>\<open>m_tilecache[tile->id()] = tile\<close>: the table takes a reference to the new tile
  and drops the one to a tile it held under the same id.
\<close>

definition tilecache_set :: "TileID \<Rightarrow> nat \<Rightarrow> ImageCacheImpl \<Rightarrow> ImageCacheImpl option" where
  "tilecache_set tid a s =
     ref_reset (map_of (m_tilecache s) tid)
       (tile_incref a (s\<lparr>m_tilecache := table_set tid a (m_tilecache s)\<rparr>))"

definition add_tile_to_cache :: "nat \<Rightarrow> ImageCacheImpl \<Rightarrow> ImageCacheImpl option" where
  "add_tile_to_cache a s =
     (case check_max_mem s of
        None \<Rightarrow> None
      | Some s1 \<Rightarrow> tilecache_set (t_id (tile_heap s1 ! a)) a s1)"

text \<open>
  The second constructor of \<^verbatim>\<open>ImageCacheTile\<close>, which copies pixels that are in
  memory already; source and destination have the cached type of the file, so the
  conversion is a copy and succeeds.
\<close>

definition new_ImageCacheTile_pels :: "TileID \<Rightarrow> 8 word list \<Rightarrow> ImageCacheImpl \<Rightarrow> (ImageCacheImpl \<times> nat) option" where
  "new_ImageCacheTile_pels tid pels s =
     (case memsize s tid of
        None \<Rightarrow> None
      | Some sz \<Rightarrow>
          Some (s\<lparr>tile_heap := tile_heap s @
                    [\<lparr>t_id = tid, t_pixels = overwrite pels (zeros sz), t_valid = True,
                      t_used = True, t_refcnt = 0\<rparr>]\<rparr>,
                length (tile_heap s)))"

text \<open>
  The tile of \<open>tw\<close> by \<open>th\<close> pixels cut out of a buffer of scanlines, starting at byte
  \<open>start\<close> of each scanline (\<^verbatim>\<open>convert_image\<close> with the strides of the buffer).
\<close>

definition cut_tile :: "8 word list \<Rightarrow> int \<Rightarrow> int \<Rightarrow> int \<Rightarrow> int \<Rightarrow> int \<Rightarrow> 8 word list" where
  "cut_tile buf scanlinesize pixelsize tw th start =
     concat (map (\<lambda>r. take (nat (tw * pixelsize)) (drop (nat (r * scanlinesize + start)) buf))
                 [0..th - 1])"

text \<open>
  The scanline loop of \<^verbatim>\<open>read_untiled\<close>: it stops at the first scanline that cannot
  be read; the scanlines not read stay zero.
\<close>

fun read_scanlines :: "DiskFile \<Rightarrow> int \<Rightarrow> int \<Rightarrow> int \<Rightarrow> int list \<Rightarrow> 8 word list \<times> bool" where
  "read_scanlines df subimage z scanlinesize [] = ([], True)"
| "read_scanlines df subimage z scanlinesize (y # ys) =
     (case df_scanline df subimage y z of
        None \<Rightarrow> ([], False)
      | Some row \<Rightarrow>
          (case read_scanlines df subimage z scanlinesize ys of
             (rest, ok) \<Rightarrow> (overwrite row (zeros scanlinesize) @ rest, ok)))"

text \<open>
  One turn of the loop of \<^verbatim>\<open>read_untiled\<close> over the tiles of a tile row, for the
  tile that starts at column \<open>i\<close>: the tile asked for goes to the caller's buffer, any
  other tile goes into the tile table unless it is there already.
\<close>

definition untiled_row_step :: "nat \<Rightarrow> int \<Rightarrow> ImageSpec \<Rightarrow> 8 word list \<Rightarrow> int \<Rightarrow> int \<Rightarrow> int \<Rightarrow> int \<Rightarrow> int
    \<Rightarrow> int \<Rightarrow> ImageCacheImpl \<times> bool \<times> 8 word list \<Rightarrow> (ImageCacheImpl \<times> bool \<times> 8 word list) option" where
  "untiled_row_step a subimage sp buf scanlinesize pixelsize xx y0 z i acc =
     (case acc of (s, ok, data) \<Rightarrow>
        let tw = tile_width sp; th = tile_height sp
        in if i = xx
           then Some (s, ok, overwrite (cut_tile buf scanlinesize pixelsize tw th
                                          ((xx - c_mod xx tw) * pixelsize)) data)
           else
             let tid = \<lparr>id_file = a, id_subimage = subimage, id_x = i + spec_x sp,
                        id_y = y0, id_z = z\<rparr>
             in if tile_in_cache s tid then Some (s, ok, data)
                else do {
                  (s1, t) \<leftarrow> new_ImageCacheTile_pels tid
                               (cut_tile buf scanlinesize pixelsize tw th (i * pixelsize)) s;
                  sz \<leftarrow> memsize s1 tid;
                  s2 \<leftarrow> add_tile_to_cache t (incr_tiles sz (tile_incref t s1));
                  s3 \<leftarrow> tile_decref t s2;
                  Some (s3, ok \<and> t_valid (tile_heap s1 ! t), data) })"

text \<open>
  \<^verbatim>\<open>ImageCacheFile::read_untiled\<close>. The result is the cache, the returned flag and
  the contents of the caller's buffer \<open>data\<close>. With a tile width or height that is not
  positive the row buffer and its loop are not defined (a division by zero, a negative
  size), which is \<open>None\<close>.
\<close>

definition read_untiled :: "World \<Rightarrow> nat \<Rightarrow> int \<Rightarrow> int \<Rightarrow> int \<Rightarrow> int \<Rightarrow> BASETYPE \<Rightarrow> 8 word list \<Rightarrow> ImageCacheImpl
    \<Rightarrow> (ImageCacheImpl \<times> bool \<times> 8 word list) option" where
  "read_untiled W a subimage x y z fmt data s =
     (case (if m_input (file_heap s ! a) \<noteq> Some subimage then seek_subimage W a subimage s
            else (s, True)) of
        (s1, False) \<Rightarrow> Some (s1, False, data)
      | (s1, True) \<Rightarrow>
          (case spec_of s1 a subimage of
             None \<Rightarrow> None
           | Some sp \<Rightarrow>
               let tw = tile_width sp; th = tile_height sp; df = reader_of W s1 a
               in if m_autotile s1 \<noteq> 0 then
                    (if tw \<le> 0 \<or> th \<le> 0 then None
                     else
                       let pixelsize = nchannels sp * basesize fmt;
                           scanlinesize = tw * c_div (width sp + tw - 1) tw * pixelsize;
                           yy = y - spec_y sp;
                           y0 = yy - c_mod yy th;
                           y1 = min (y0 + th - 1) (height sp - 1);
                           rows = read_scanlines df subimage z scanlinesize
                                    [y0 + spec_y sp..y1 + spec_y sp];
                           buf = overwrite (fst rows) (zeros (scanlinesize * th));
                           s2 = (if snd rows then s1
                                 else error (ReaderError (m_filename (file_heap s1 ! a))) s1);
                           s3 = upd_file a (\<lambda>f. f\<lparr>m_tilesread := Suc (m_tilesread f)\<rparr>) s2
                       in fold_opt
                            (untiled_row_step a subimage sp buf scanlinesize pixelsize
                               (x - spec_x sp) (y0 + spec_y sp) z)
                            (filter (\<lambda>i. i < width sp) (map (\<lambda>k. k * tw) [0..c_div (width sp) tw]))
                            (s3, snd rows, data))
                  else
                    (case df_image df subimage of
                       None \<Rightarrow>
                         Some (upd_file a (\<lambda>f. f\<lparr>m_tilesread := Suc (m_tilesread f)\<rparr>)
                                 (error (ReaderError (m_filename (file_heap s1 ! a))) s1), False, data)
                     | Some img \<Rightarrow>
                         Some (upd_file a (\<lambda>f. f\<lparr>m_tilesread := Suc (m_tilesread f)\<rparr>) s1,
                               True, overwrite img data))))"

text \<open>
  A region of pixels \<open>(xbegin, xend, ybegin, yend, zbegin, zend)\<close>, and the type of
  \<^verbatim>\<open>get_pixels\<close> on a file record: the file, the region and the requested type
  give the cache, the returned flag and the bytes written to \<^verbatim>\<open>result\<close>.
\<close>

type_synonym region = "int \<times> int \<times> int \<times> int \<times> int \<times> int"

type_synonym get_pixels_fn =
  "nat \<Rightarrow> region \<Rightarrow> BASETYPE \<Rightarrow> ImageCacheImpl \<Rightarrow> (ImageCacheImpl \<times> bool \<times> 8 word list) option"

text \<open>
  \<^verbatim>\<open>ImageCacheFile::read_unmipped\<close>. It calls \<^verbatim>\<open>get_pixels\<close> on the next finer
  subimage, which may read tiles and so come back here one subimage lower. The functions
  on this path therefore take \<open>gp\<close>, the \<^verbatim>\<open>get_pixels\<close> of the subimage below theirs,
  and the recursion is closed by recursion on the subimage further down.
\<close>

definition read_unmipped :: "get_pixels_fn \<Rightarrow> World \<Rightarrow> nat \<Rightarrow> int \<Rightarrow> int \<Rightarrow> int \<Rightarrow> int \<Rightarrow> BASETYPE
    \<Rightarrow> 8 word list \<Rightarrow> ImageCacheImpl \<Rightarrow> (ImageCacheImpl \<times> bool \<times> 8 word list) option" where
  "read_unmipped gp W a subimage x y z fmt data s =
     (case spec_of s a subimage of
        None \<Rightarrow> None
      | Some sp \<Rightarrow>
          (case spec_of s a (subimage - 1) of
             None \<Rightarrow> None
           | Some upspec \<Rightarrow>
               if tile_width sp = 0 \<or> tile_height sp = 0 then None
               else
                 let x' = x - spec_x sp;
                     y' = y - spec_y sp;
                     x0 = x' - c_mod x' (tile_width sp);
                     x1 = min (x0 + tile_width sp - 1) (full_width sp - 1);
                     y0 = y' - c_mod y' (tile_height sp);
                     y1 = min (y0 + tile_height sp - 1) (full_height sp - 1)
                 in (case fold_opt
                            (\<lambda>(j, i) (s, ok, acc).
                               let ylow = texel_low W j (full_height sp) (full_height upspec);
                                   xlow = texel_low W i (full_width sp) (full_width upspec)
                               in case gp a (xlow, xlow + 2, ylow, ylow + 2, 0, 1) TD_FLOAT s of
                                    None \<Rightarrow> None
                                  | Some (s', ok', px) \<Rightarrow>
                                      Some (s', ok \<and> ok', acc @ [((i - x0, j - y0), px)]))
                            (concat (map (\<lambda>j. map (\<lambda>i. (j, i)) [x0..x1]) [y0..y1]))
                            (s, True, []) of
                       None \<Rightarrow> None
                     | Some (s', ok, acc) \<Rightarrow> Some (s', ok, overwrite (make_lores W sp fmt acc) data))))"

definition read_tile :: "get_pixels_fn \<Rightarrow> World \<Rightarrow> nat \<Rightarrow> int \<Rightarrow> int \<Rightarrow> int \<Rightarrow> int \<Rightarrow> BASETYPE
    \<Rightarrow> 8 word list \<Rightarrow> ImageCacheImpl \<Rightarrow> (ImageCacheImpl \<times> bool \<times> 8 word list) option" where
  "read_tile gp W a subimage x y z fmt data s =
     (case ImageCacheFile_open W a s of
        (s1, False) \<Rightarrow> Some (s1, False, data)
      | (s1, True) \<Rightarrow>
          let s2 = (if 0 < subimage then upd_file a (\<lambda>f. f\<lparr>m_mipused := True\<rparr>) s1 else s1);
              f = file_heap s2 ! a
          in if m_unmipped f \<and> subimage \<noteq> 0 then read_unmipped gp W a subimage x y z fmt data s2
             else if m_untiled f then read_untiled W a subimage x y z fmt data s2
             else
               (case (if m_input f \<noteq> Some subimage then seek_subimage W a subimage s2
                      else (s2, True)) of
                  (s3, False) \<Rightarrow> Some (s3, False, data)
                | (s3, True) \<Rightarrow>
                    (case df_tile (reader_of W s3 a) subimage x y z of
                       None \<Rightarrow> Some (error (ReaderError (m_filename f)) s3, False, data)
                     | Some bytes \<Rightarrow>
                         Some (upd_file a (\<lambda>f. f\<lparr>m_tilesread := Suc (m_tilesread f)\<rparr>) s3,
                               True, overwrite bytes data))))"

text \<open>
  The first constructor of \<^verbatim>\<open>ImageCacheTile\<close>: the buffer is allocated with
  \<open>memsize\<close> zero bytes and filled by \<^verbatim>\<open>read_tile\<close>; a tile whose read failed is
  not valid and not used. A negative size cannot be allocated.
\<close>

definition new_ImageCacheTile :: "get_pixels_fn \<Rightarrow> World \<Rightarrow> TileID \<Rightarrow> ImageCacheImpl \<Rightarrow> (ImageCacheImpl \<times> nat) option" where
  "new_ImageCacheTile gp W tid s =
     (case memsize s tid of
        None \<Rightarrow> None
      | Some sz \<Rightarrow>
          if sz < 0 then None
          else
            (case read_tile gp W (id_file tid) (id_subimage tid) (id_x tid) (id_y tid) (id_z tid)
                    (m_datatype (file_heap s ! id_file tid)) (zeros sz) s of
               None \<Rightarrow> None
             | Some (s1, valid, pixels) \<Rightarrow>
                 Some (s1\<lparr>tile_heap := tile_heap s1 @
                            [\<lparr>t_id = tid, t_pixels = pixels, t_valid = valid, t_used = valid,
                              t_refcnt = 0\<rparr>]\<rparr>,
                       length (tile_heap s1))))"

text \<open>
  The \<^verbatim>\<open>ImageCacheTileRef &tile\<close> that \<^verbatim>\<open>find_tile_main_cache\<close> assigns to:
  the current-tile slot of the calling thread, or a local variable that was null.
\<close>

datatype tile_ref = ThreadTile | LocalTile

definition ref_assign :: "tile_ref \<Rightarrow> nat \<Rightarrow> ImageCacheImpl \<Rightarrow> ImageCacheImpl option" where
  "ref_assign r a s =
     (case r of
        LocalTile \<Rightarrow> Some (tile_incref a s)
      | ThreadTile \<Rightarrow>
          (case ref_reset (pt_tile s) (tile_incref a s) of
             None \<Rightarrow> None
           | Some s1 \<Rightarrow> Some (s1\<lparr>pt_tile := Some a\<rparr>)))"

text \<open>
  \<^verbatim>\<open>ImageCacheImpl::find_tile_main_cache\<close>. The result is the cache, the address of
  the tile now in \<^verbatim>\<open>tile\<close> and the returned flag.
\<close>

definition find_tile_main_cache :: "get_pixels_fn \<Rightarrow> World \<Rightarrow> TileID \<Rightarrow> tile_ref \<Rightarrow> ImageCacheImpl
    \<Rightarrow> (ImageCacheImpl \<times> nat \<times> bool) option" where
  "find_tile_main_cache gp W tid r s =
     (let s0 = s\<lparr>find_tile_microcache_misses := Suc (find_tile_microcache_misses s)\<rparr>
      in case map_of (m_tilecache s0) tid of
           Some a \<Rightarrow>
             (case ref_assign r a s0 of
                None \<Rightarrow> None
              | Some s1 \<Rightarrow> Some (use_tile a s1, a, True))
         | None \<Rightarrow>
             do { (s1, a) \<leftarrow> new_ImageCacheTile gp W tid
                              (s0\<lparr>find_tile_cache_misses := Suc (find_tile_cache_misses s0)\<rparr>);
                  s2 \<leftarrow> ref_assign r a s1;
                  sz \<leftarrow> memsize s2 tid;
                  s3 \<leftarrow> add_tile_to_cache a (incr_tiles sz s2);
                  Some (s3, a, t_valid (tile_heap s3 ! a)) })"

text \<open>
  Modelled from the spec: \<^verbatim>\<open>ImageCacheImpl::find_tile\<close>, the microcache in front of
  the tile table, is an inline member of imagecache\_pvt.h. If the thread's current tile
  matches the id it is returned; else current and previous are swapped and a match of the
  new current is returned; else the lookup falls through to the tile table, which writes
  its result into the current slot.
\<close>

definition find_tile :: "get_pixels_fn \<Rightarrow> World \<Rightarrow> TileID \<Rightarrow> ImageCacheImpl \<Rightarrow> (ImageCacheImpl \<times> bool) option" where
  "find_tile gp W tid s =
     (let s0 = s\<lparr>find_tile_calls := Suc (find_tile_calls s)\<rparr>;
          s1 = (case pt_tile s0 of
                  None \<Rightarrow> s0
                | Some t \<Rightarrow> if t_id (tile_heap s0 ! t) = tid then s0
                            else s0\<lparr>pt_tile := pt_lasttile s0, pt_lasttile := Some t\<rparr>)
      in case (case pt_tile s1 of
                 None \<Rightarrow> None
               | Some t \<Rightarrow> if t_id (tile_heap s1 ! t) = tid then Some t else None) of
           Some t \<Rightarrow> Some (use_tile t s1, True)
         | None \<Rightarrow>
             (case find_tile_main_cache gp W tid ThreadTile s1 of
                None \<Rightarrow> None
              | Some (s2, a, ok) \<Rightarrow> Some (s2, ok)))"

text \<open>
  \<^verbatim>\<open>ImageCacheTile::data (x, y, z)\<close>: the offset of a pixel in the buffer of the tile
  at address \<open>t\<close>, \<open>None\<close> for the null pointer.
\<close>

definition tile_data :: "ImageCacheImpl \<Rightarrow> nat \<Rightarrow> int \<Rightarrow> int \<Rightarrow> int \<Rightarrow> int option" where
  "tile_data s t x y z =
     (let tid = t_id (tile_heap s ! t)
      in case spec_of s (id_file tid) (id_subimage tid) of
           None \<Rightarrow> None
         | Some sp \<Rightarrow>
             let w = tile_width sp; h = tile_height sp; d = max 1 (tile_depth sp);
                 x' = x - id_x tid; y' = y - id_y tid; z' = z - id_z tid
             in if x' < 0 \<or> w \<le> x' \<or> y' < 0 \<or> h \<le> y' \<or> z' < 0 \<or> d \<le> z' then None
                else Some (((z' * h + y') * w + x') *
                           (nchannels sp * basesize (m_datatype (file_heap s ! id_file tid)))))"

text \<open>
  The body of the three nested loops of \<^verbatim>\<open>get_pixels\<close> for one pixel: the tile
  origin is computed with the tile sizes of subimage 0, the tile is fetched through
  \<open>ft\<close> (\<^verbatim>\<open>find_tile\<close>) and one pixel is converted, or zeroed when the thread has no
  tile or the pixel is not inside it.
\<close>

definition get_pixel :: "(TileID \<Rightarrow> ImageCacheImpl \<Rightarrow> (ImageCacheImpl \<times> bool) option) \<Rightarrow> World \<Rightarrow> nat \<Rightarrow> int
    \<Rightarrow> BASETYPE \<Rightarrow> int \<times> int \<times> int \<Rightarrow> ImageCacheImpl \<times> bool \<times> 8 word list
    \<Rightarrow> (ImageCacheImpl \<times> bool \<times> 8 word list) option" where
  "get_pixel ft W a subimage fmt c acc =
     (case (c, acc) of ((z, y, x), (s, ok, result)) \<Rightarrow>
        (case m_spec (file_heap s ! a) of
           [] \<Rightarrow> None
         | sp # _ \<Rightarrow>
             if tile_height sp = 0 \<or> tile_width sp = 0 then None
             else
               (case ft \<lparr>id_file = a, id_subimage = subimage,
                         id_x = x - c_mod x (tile_width sp),
                         id_y = y - c_mod y (tile_height sp),
                         id_z = z - c_mod z (max 1 (tile_depth sp))\<rparr> s of
                  None \<Rightarrow> None
                | Some (s1, ok1) \<Rightarrow>
                    let f = file_heap s1 ! a;
                        nc = nchannels sp;
                        zero = zeros (nc * basesize fmt)
                    in Some (s1, ok \<and> ok1,
                             result @
                             (case pt_tile s1 of
                                None \<Rightarrow> zero
                              | Some t \<Rightarrow>
                                  (case tile_data s1 t x y z of
                                     None \<Rightarrow> zero
                                   | Some off \<Rightarrow>
                                       convert_types W (m_datatype f) fmt
                                         (take (nat (nc * basesize (m_datatype f)))
                                            (drop (nat off) (t_pixels (tile_heap s1 ! t))))))))))"

definition region_pixels :: "region \<Rightarrow> (int \<times> int \<times> int) list" where
  "region_pixels r =
     (case r of (xbegin, xend, ybegin, yend, zbegin, zend) \<Rightarrow>
        concat (map (\<lambda>z. concat (map (\<lambda>y. map (\<lambda>x. (z, y, x)) [xbegin..xend - 1])
                                      [ybegin..yend - 1]))
                    [zbegin..zend - 1]))"

definition get_pixels_body :: "get_pixels_fn \<Rightarrow> World \<Rightarrow> int \<Rightarrow> get_pixels_fn" where
  "get_pixels_body gp W subimage a r fmt s =
     fold_opt (get_pixel (find_tile gp W) W a subimage fmt) (region_pixels r) (s, True, [])"

text \<open>
  \<^verbatim>\<open>ImageCacheImpl::get_pixels (ImageCacheFile *file, ...)\<close> at subimage \<open>n\<close>, by
  recursion on \<open>n\<close>. Below subimage 0 there is nothing to call: \<^verbatim>\<open>read_unmipped\<close>
  is entered for subimages other than 0 only.
\<close>

definition no_finer :: get_pixels_fn where
  "no_finer a r fmt s = None"

primrec get_pixels_file :: "World \<Rightarrow> nat \<Rightarrow> get_pixels_fn" where
  "get_pixels_file W 0 = get_pixels_body no_finer W 0"
| "get_pixels_file W (Suc n) = get_pixels_body (get_pixels_file W n) W (int (Suc n))"

definition finer :: "World \<Rightarrow> int \<Rightarrow> get_pixels_fn" where
  "finer W subimage = (if subimage \<le> 0 then no_finer else get_pixels_file W (nat subimage - 1))"

subsection \<open>The public operations\<close>

text \<open>
  \<^verbatim>\<open>ImageCacheImpl::get_perthread_info\<close> for the calling thread: a pending purge
  empties the two slots of the microcache.
\<close>

definition get_perthread_info :: "ImageCacheImpl \<Rightarrow> ImageCacheImpl option" where
  "get_perthread_info s =
     (if pt_purge s then
        do { s1 \<leftarrow> ref_reset (pt_tile s) s;
             s2 \<leftarrow> ref_reset (pt_lasttile s1) (s1\<lparr>pt_tile := None\<rparr>);
             Some (s2\<lparr>pt_lasttile := None, pt_purge := False\<rparr>) }
      else Some s)"

text \<open>
  \<^verbatim>\<open>ImageCacheImpl::get_image_info\<close>. The third component of the result is what was
  written to \<^verbatim>\<open>data\<close>, if anything.
\<close>

definition get_image_info :: "World \<Rightarrow> string \<Rightarrow> string \<Rightarrow> TypeDesc \<Rightarrow> ImageCacheImpl
    \<Rightarrow> (ImageCacheImpl \<times> bool \<times> ParamData option) option" where
  "get_image_info W filename dataname datatype s =
     do { s0 \<leftarrow> get_perthread_info s;
          (s1, file) \<leftarrow> find_file W filename s0;
          case file of
            None \<Rightarrow> Some (error (NotFound filename) s1, False, None)
          | Some a \<Rightarrow>
              let f = file_heap s1 ! a; sp = hd (m_spec f)
              in if m_broken f then Some (error (Broken filename) s1, False, None)
                 else if dataname = ''resolution'' \<and> datatype = \<lparr>basetype = TD_INT, arraylen = 2\<rparr>
                 then Some (s1, True, Some (Cells [word_of_int (width sp), word_of_int (height sp)]))
                 else if dataname = ''texturetype'' \<and> datatype = TypeString
                 then Some (s1, True, Some (Str (texture_type_name W (m_texformat f))))
                 else if dataname = ''textureformat'' \<and> datatype = TypeString
                 then Some (s1, True, Some (Str (texture_format_name W (m_texformat f))))
                 else if dataname = ''fileformat'' \<and> datatype = TypeString
                 then Some (s1, True, Some (Str (m_fileformat f)))
                 else if dataname = ''channels'' \<and> datatype = TypeInt
                 then Some (s1, True, Some (Cells [word_of_int (nchannels sp)]))
                 else if dataname = ''channels'' \<and> datatype = TypeFloat
                 then Some (s1, True, Some (Cells [float_bits W (nchannels sp)]))
                 else if dataname = ''format'' \<and> datatype = TypeInt
                 then Some (s1, True, Some (Cells [word_of_int (basetype_code W (format sp))]))
                 else if (dataname = ''cachedformat'' \<or> dataname = ''cachedpixeltype'') \<and>
                         datatype = TypeInt
                 then Some (s1, True, Some (Cells [word_of_int (basetype_code W (m_datatype f))]))
                 else
                   (case find_attribute sp dataname TD_UNKNOWN of
                      None \<Rightarrow> Some (s1, False, None)
                    | Some p \<Rightarrow>
                        if arraylen (p_type p) \<noteq> arraylen datatype then Some (s1, False, None)
                        else if p_type p = datatype then Some (s1, True, Some (p_data p))
                        else if basetype (p_type p) = TD_FLOAT \<and> basetype datatype = TD_INT
                        then Some (s1, True,
                               Some (Cells (map (\<lambda>c. float_bits W (sint c))
                                              (take (nat (arraylen (p_type p)))
                                                 (case p_data p of Cells cs \<Rightarrow> cs | Str v \<Rightarrow> [])))))
                        else Some (s1, False, None)) }"

definition get_imagespec :: "World \<Rightarrow> string \<Rightarrow> int \<Rightarrow> ImageCacheImpl
    \<Rightarrow> (ImageCacheImpl \<times> ImageSpec option) option" where
  "get_imagespec W filename subimage s =
     do { s0 \<leftarrow> get_perthread_info s;
          (s1, file) \<leftarrow> find_file W filename s0;
          case file of
            None \<Rightarrow> Some (error (NotFound filename) s1, None)
          | Some a \<Rightarrow>
              let f = file_heap s1 ! a
              in if m_broken f then Some (error (Broken filename) s1, None)
                 else if subimage < 0 \<or> int (length (m_spec f)) \<le> subimage
                 then Some (error (BadSubimage subimage filename) s1, None)
                 else Some (s1, Some (m_spec f ! nat subimage)) }"

text \<open>
  \<^verbatim>\<open>ImageCacheImpl::get_pixels (ustring filename, ...)\<close>. The third component is
  what was written to \<^verbatim>\<open>result\<close>.
\<close>

definition get_pixels :: "World \<Rightarrow> string \<Rightarrow> int \<Rightarrow> region \<Rightarrow> BASETYPE \<Rightarrow> ImageCacheImpl
    \<Rightarrow> (ImageCacheImpl \<times> bool \<times> 8 word list) option" where
  "get_pixels W filename subimage r fmt s =
     do { s0 \<leftarrow> get_perthread_info s;
          (s1, file) \<leftarrow> find_file W filename s0;
          case file of
            None \<Rightarrow> Some (error (NotFound filename) s1, False, [])
          | Some a \<Rightarrow>
              let f = file_heap s1 ! a
              in if m_broken f then Some (error (Broken filename) s1, False, [])
                 else if subimage < 0 \<or> int (length (m_spec f)) \<le> subimage
                 then Some (error (BadSubimage subimage filename) s1, False, [])
                 else get_pixels_file W (nat subimage) a r fmt s1 }"

text \<open>
  \<^verbatim>\<open>ImageCacheImpl::get_tile\<close>: the handle returned is the address of the tile, with
  one more reference on it, or \<open>None\<close> for the null pointer. The three divisions by the
  tile sizes of subimage 0 are not defined for a size of zero.
\<close>

definition get_tile :: "World \<Rightarrow> string \<Rightarrow> int \<Rightarrow> int \<Rightarrow> int \<Rightarrow> int \<Rightarrow> ImageCacheImpl
    \<Rightarrow> (ImageCacheImpl \<times> nat option) option" where
  "get_tile W filename subimage x y z s =
     do { s0 \<leftarrow> get_perthread_info s;
          (s1, file) \<leftarrow> find_file W filename s0;
          case file of
            None \<Rightarrow> Some (s1, None)
          | Some a \<Rightarrow>
              if m_broken (file_heap s1 ! a) then Some (s1, None)
              else
                (case m_spec (file_heap s1 ! a) of
                   [] \<Rightarrow> None
                 | sp # _ \<Rightarrow>
                     if tile_width sp = 0 \<or> tile_height sp = 0 \<or> tile_depth sp = 0 then None
                     else
                       do { (s2, t, ok) \<leftarrow>
                              find_tile_main_cache (finer W subimage) W
                                \<lparr>id_file = a, id_subimage = subimage,
                                  id_x = spec_x sp + c_div (x - spec_x sp) (tile_width sp) * tile_width sp,
                                  id_y = spec_y sp + c_div (y - spec_y sp) (tile_height sp) * tile_height sp,
                                  id_z = spec_z sp + c_div (z - spec_z sp) (tile_depth sp) * tile_depth sp\<rparr>
                                LocalTile s1;
                            if ok
                            then do { s3 \<leftarrow> tile_decref t (use_tile t (tile_incref t s2));
                                      Some (s3, Some t) }
                            else do { s3 \<leftarrow> tile_decref t s2; Some (s3, None) } }) }"


definition ImageCacheFile_invalidate :: "World \<Rightarrow> nat \<Rightarrow> ImageCacheImpl \<Rightarrow> ImageCacheImpl option" where
  "ImageCacheFile_invalidate W a s =
     do { s1 \<leftarrow> get_perthread_info
                 (upd_file a (\<lambda>f. f\<lparr>m_spec := [], m_broken := False, m_fingerprint := [],
                                     m_duplicate := None\<rparr>)
                    (ImageCacheFile_close a s));
          Some (fst (ImageCacheFile_open W a s1)) }"

text \<open>
  \<^verbatim>\<open>ImageCacheImpl::invalidate\<close>: the tiles of the file are erased from the tile
  table, the record is invalidated and the thread is told to purge its microcache.
  Erasing the entry under the sweep cursor leaves a dangling iterator, which is \<open>None\<close>.
\<close>

definition erase_tiles_of :: "nat \<Rightarrow> ImageCacheImpl \<Rightarrow> ImageCacheImpl option" where
  "erase_tiles_of a s =
     (let gone = (\<lambda>e. id_file (t_id (tile_heap s ! snd e)) = a);
          cur = (case m_tile_sweep s of None \<Rightarrow> None | Some i \<Rightarrow> Some (m_tilecache s ! i))
      in if (case cur of None \<Rightarrow> False | Some e \<Rightarrow> gone e) then None
         else
           fold_opt (\<lambda>e s. tile_decref (snd e) s) (filter gone (m_tilecache s))
             (s\<lparr>m_tilecache := filter (\<lambda>e. \<not> gone e) (m_tilecache s),
                m_tile_sweep :=
                  (case m_tile_sweep s of
                     None \<Rightarrow> None
                   | Some i \<Rightarrow> Some (length (filter (\<lambda>e. \<not> gone e) (take i (m_tilecache s)))))\<rparr>))"

definition invalidate :: "World \<Rightarrow> string \<Rightarrow> ImageCacheImpl \<Rightarrow> ImageCacheImpl option" where
  "invalidate W filename s =
     (case map_of (m_files s) filename of
        None \<Rightarrow> Some s
      | Some a \<Rightarrow>
          do { s1 \<leftarrow> erase_tiles_of a s;
               s2 \<leftarrow> ImageCacheFile_invalidate W a s1;
               Some (s2\<lparr>pt_purge := True\<rparr>) })"

subsection \<open>Configuration: \<^verbatim>\<open>init\<close> and \<^verbatim>\<open>attribute\<close>\<close>

text \<open>
  The conversion \<^verbatim>\<open>(int) f\<close> of a float: the value is truncated towards zero.
  The conversion always delivers an \<^verbatim>\<open>int\<close> and the program goes on. When the
  truncated value is not an \<^verbatim>\<open>int\<close>, or \<open>f\<close> is an infinity or a NaN, C++
  does not say which one; the conversion instruction the cast is compiled to on x86
  (\<^verbatim>\<open>cvttss2si\<close>) then delivers the bit pattern \<^verbatim>\<open>0x80000000\<close>, which is
  \<^verbatim>\<open>INT_MIN\<close>, and that is the value of the model.
\<close>

definition c_trunc :: "rat \<Rightarrow> int" where
  "c_trunc r = (if 0 \<le> r then \<lfloor>r\<rfloor> else \<lceil>r\<rceil>)"

definition INT_MIN :: int where
  "INT_MIN = - (2 ^ 31)"

definition float_to_int :: "cfloat \<Rightarrow> int" where
  "float_to_int f =
     (case f of
        NonFinite \<Rightarrow> INT_MIN
      | Finite r \<Rightarrow>
          if - (2 ^ 31) \<le> c_trunc r \<and> c_trunc r < 2 ^ 31 then c_trunc r else INT_MIN)"

text \<open>
  A float times the integer constant 1024: a scaling by a power of two, which is exact in
  binary floating point as long as the product is finite. A product beyond the range of
  \<^verbatim>\<open>float\<close> is an infinity.
\<close>

definition FLT_MAX :: rat where
  "FLT_MAX = (2 ^ 24 - 1) * 2 ^ 104"

definition fmul1024 :: "cfloat \<Rightarrow> cfloat" where
  "fmul1024 f =
     (case f of
        NonFinite \<Rightarrow> NonFinite
      | Finite r \<Rightarrow> if \<bar>r * 1024\<bar> \<le> FLT_MAX then Finite (r * 1024) else NonFinite)"

text \<open>
  The conversion of an \<^verbatim>\<open>int\<close> to \<^verbatim>\<open>float\<close>: exact up to 24 significant
  bits, rounded to the nearest float (ties to even) beyond.
\<close>

function bitlength :: "int \<Rightarrow> nat" where
  "bitlength a = (if a \<le> 0 then 0 else Suc (bitlength (a div 2)))"
  by pat_completeness auto
termination
  by (relation "measure nat") auto

declare bitlength.simps [simp del]

definition int_to_float :: "int \<Rightarrow> cfloat" where
  "int_to_float n =
     (let a = \<bar>n\<bar>; e = bitlength a - 24
      in if e = 0 then Finite (of_int n)
         else let q = a div 2 ^ e; r = a mod 2 ^ e; h = 2 ^ (e - 1);
                  q' = (if h < r \<or> (r = h \<and> odd q) then q + 1 else q)
              in Finite (of_int (sgn n * q' * 2 ^ e)))"

text \<open>
  The value behind the \<^verbatim>\<open>void *\<close> of \<^verbatim>\<open>attribute\<close>, tagged with the
  \<^verbatim>\<open>TypeDesc\<close> passed along with it.
\<close>

datatype AttrVal = IntVal int | FloatVal cfloat | StringVal string | OtherVal

definition init :: "ImageCacheImpl \<Rightarrow> ImageCacheImpl" where
  "init s =
     s\<lparr>m_max_open_files := 100,
       m_max_memory_MB := Finite 50,
       m_max_memory_bytes := float_to_int (fmul1024 (fmul1024 (Finite 50))),
       m_autotile := 0,
       m_automip := False,
       m_forcefloat := False,
       m_accept_untiled := True,
       m_mem_used := 0,
       m_statslevel := 0,
       m_stat_tiles_created := 0,
       m_stat_tiles_current := 0,
       m_stat_tiles_peak := 0,
       m_stat_open_files_created := 0,
       m_stat_open_files_current := 0,
       m_stat_open_files_peak := 0\<rparr>"

text \<open>The constructor \<^verbatim>\<open>ImageCacheImpl::ImageCacheImpl\<close>: empty tables, then \<open>init\<close>.\<close>

definition new_ImageCacheImpl :: ImageCacheImpl where
  "new_ImageCacheImpl =
     init \<lparr>m_max_open_files = 0, m_max_memory_MB = Finite 0, m_max_memory_bytes = 0,
       m_searchpath = [], m_statslevel = 0,
       m_autotile = 0, m_automip = False, m_forcefloat = False, m_accept_untiled = False,
       file_heap = [], m_files = [], m_file_sweep = None, m_fingerprints = [],
       tile_heap = [], m_tilecache = [], m_tile_sweep = None, m_mem_used = 0,
       m_stat_tiles_created = 0, m_stat_tiles_current = 0, m_stat_tiles_peak = 0,
       m_stat_open_files_created = 0, m_stat_open_files_current = 0,
       m_stat_open_files_peak = 0, m_errormessage = [], reader_creates = 0,
       unique_files = 0, find_tile_calls = 0, find_tile_microcache_misses = 0,
       find_tile_cache_misses = 0, pt_tile = None, pt_lasttile = None, pt_purge = False\<rparr>"

text \<open>
  \<^verbatim>\<open>ImageCacheImpl::attribute\<close>: straight-line code that gives the new cache and
  the returned flag. The two branches for \<^verbatim>\<open>max_memory_MB\<close> run the same three
  statements on a \<^verbatim>\<open>float size\<close>, which the second one gets from an
  \<^verbatim>\<open>int\<close>; \<open>set_max_memory\<close> is these three statements.
\<close>

definition set_max_memory :: "cfloat \<Rightarrow> ImageCacheImpl \<Rightarrow> ImageCacheImpl \<times> bool" where
  "set_max_memory sz s =
     (s\<lparr>m_max_memory_MB := sz, m_max_memory_bytes := float_to_int (fmul1024 (fmul1024 sz))\<rparr>,
      True)"

definition attribute :: "string \<Rightarrow> AttrVal \<Rightarrow> ImageCacheImpl \<Rightarrow> ImageCacheImpl \<times> bool" where
  "attribute name val s =
     (case val of
        IntVal n \<Rightarrow>
          if name = ''max_open_files'' then (s\<lparr>m_max_open_files := n\<rparr>, True)
          else if name = ''max_memory_MB'' then set_max_memory (int_to_float n) s
          else if name = ''statistics:level'' then (s\<lparr>m_statslevel := n\<rparr>, True)
          else if name = ''autotile'' then
            (let t = pow2roundup n
             in (s\<lparr>m_autotile := (if 0 < t \<and> t < 8 then 8 else t)\<rparr>, True))
          else if name = ''automip'' then (s\<lparr>m_automip := (n \<noteq> 0)\<rparr>, True)
          else if name = ''forcefloat'' then (s\<lparr>m_forcefloat := (n \<noteq> 0)\<rparr>, True)
          else if name = ''accept_untiled'' then (s\<lparr>m_accept_untiled := (n \<noteq> 0)\<rparr>, True)
          else (s, False)
      | FloatVal sz \<Rightarrow>
          if name = ''max_memory_MB'' then set_max_memory sz s else (s, False)
      | StringVal v \<Rightarrow>
          if name = ''searchpath'' then (s\<lparr>m_searchpath := v\<rparr>, True) else (s, False)
      | OtherVal \<Rightarrow> (s, False))"

subsection \<open>Example files and worlds\<close>

text \<open>
  Concrete inputs for the closed theorems: a spec without metadata, a file made of tiled
  or scanline subimages, and a world whose disk holds the listed files.
\<close>

definition plain_spec :: "int \<Rightarrow> int \<Rightarrow> int \<Rightarrow> int \<Rightarrow> int \<Rightarrow> BASETYPE \<Rightarrow> ImageIOParameter list \<Rightarrow> ImageSpec" where
  "plain_spec w h tw th nc fmt attrs =
     \<lparr>spec_x = 0, spec_y = 0, spec_z = 0, width = w, height = h, depth = 1,
      full_width = w, full_height = h, tile_width = tw, tile_height = th, tile_depth = 1,
      nchannels = nc, format = fmt, extra_attribs = attrs\<rparr>"

definition example_file :: "ImageSpec list \<Rightarrow> 8 word list option \<Rightarrow> DiskFile" where
  "example_file specs tile =
     \<lparr>df_open_ok = True, df_subimages = specs, df_format_name = ''tiff'', df_mod_time = 1,
      df_tile = (\<lambda>_ _ _ _. tile), df_scanline = (\<lambda>_ _ _. None), df_image = (\<lambda>_. None)\<rparr>"

definition example_world :: "(string \<times> DiskFile) list \<Rightarrow> World" where
  "example_world files =
     \<lparr>disk = map_of files, searchpath_find = (\<lambda>_. []),
      texture_format_name = (\<lambda>_. ''Plain Texture''),
      texture_type_name = (\<lambda>_. ''Plain Texture''), basetype_code = (\<lambda>_. 0),
      float_bits = (\<lambda>_. 0), parse_wrapmodes = (\<lambda>_ w. w), convert_types = (\<lambda>_ _ b. b),
      texel_low = (\<lambda>i w uw. 2 * i), make_lores = (\<lambda>_ _ _. [])\<rparr>"

text \<open>A scanline (untiled) 100 by 100 RGB float file with a single subimage.\<close>

definition mip_world :: World where
  "mip_world = example_world [(''m.tif'', example_file [plain_spec 100 100 0 0 3 TD_FLOAT []] None)]"

text \<open>
  The same file with a display window of 64 by 64: its full width and height differ from
  its width and height.
\<close>

definition window_world :: World where
  "window_world =
     example_world [(''w.tif'',
       example_file [(plain_spec 100 100 0 0 3 TD_FLOAT [])\<lparr>full_width := 64, full_height := 64\<rparr>]
         None)]"

definition automip_cache :: ImageCacheImpl where
  "automip_cache = new_ImageCacheImpl\<lparr>m_automip := True\<rparr>"

text \<open>Width and height of the spec that \<^verbatim>\<open>get_imagespec\<close> delivered.\<close>

definition spec_size :: "(ImageCacheImpl \<times> ImageSpec option) option \<Rightarrow> (int \<times> int) option" where
  "spec_size r =
     (case r of Some (s, Some sp) \<Rightarrow> Some (width sp, height sp) | _ \<Rightarrow> None)"

definition dims :: "ImageSpec list \<Rightarrow> (int \<times> int) list" where
  "dims specs = map (\<lambda>q. (width q, height q)) specs"

text \<open>
  The chain the claim speaks of, in the spec's words but with the halving the code does:
  every level is half the level before it, rounded down and at least 1, and the chain
  stops at 1 by 1.
\<close>

fun halves_down_to_1x1 :: "int \<times> int \<Rightarrow> (int \<times> int) list \<Rightarrow> bool" where
  "halves_down_to_1x1 (w, h) [] = (w \<le> 1 \<and> h \<le> 1)"
| "halves_down_to_1x1 (w, h) ((w', h') # r) =
     ((1 < w \<or> 1 < h) \<and> w' = max 1 (w div 2) \<and> h' = max 1 (h div 2) \<and>
      halves_down_to_1x1 (w', h') r)"

text \<open>
  Three small tiled files, each one tile of 2 by 2 one-byte pixels; the tile of \<open>c\<close>
  cannot be read.
\<close>

definition small_file :: "8 word list option \<Rightarrow> DiskFile" where
  "small_file tile = example_file [plain_spec 2 2 2 2 1 TD_UINT8 []] tile"

definition three_file_world :: World where
  "three_file_world =
     example_world [(''a'', small_file (Some [1, 2, 3, 4])),
                    (''b'', small_file (Some [5, 6, 7, 8])),
                    (''c'', small_file None)]"

text \<open>
  With \<open>max_open_files = 2\<close>: the specs of \<open>a\<close>, \<open>b\<close> and \<open>c\<close> are asked for, which
  leaves only \<open>c\<close> open, and then a tile of \<open>a\<close> and a tile of \<open>b\<close>.
\<close>

definition reopen_run :: "ImageCacheImpl option" where
  "reopen_run =
     do { (s1, _) \<leftarrow> get_imagespec three_file_world ''a'' 0
                        (fst (attribute ''max_open_files'' (IntVal 2) new_ImageCacheImpl));
          (s2, _) \<leftarrow> get_imagespec three_file_world ''b'' 0 s1;
          (s3, _) \<leftarrow> get_imagespec three_file_world ''c'' 0 s2;
          (s4, _) \<leftarrow> get_tile three_file_world ''a'' 0 0 0 0 s3;
          (s5, _) \<leftarrow> get_tile three_file_world ''b'' 0 0 0 0 s4;
          Some s5 }"

text \<open>
  The open-file counter, the number of records that hold a reader, and the ceiling.
\<close>

definition open_files_and_ceiling :: "ImageCacheImpl option \<Rightarrow> (int \<times> nat \<times> int) option" where
  "open_files_and_ceiling r =
     (case r of
        None \<Rightarrow> None
      | Some s \<Rightarrow> Some (m_stat_open_files_current s,
                       length (filter (\<lambda>f. m_input f \<noteq> None) (file_heap s)),
                       m_max_open_files s))"

text \<open>With \<open>max_open_files = 1\<close>: the cache after the spec of \<open>a\<close> was asked for.\<close>

definition one_file_cache :: "ImageCacheImpl option" where
  "one_file_cache =
     do { (s1, _) \<leftarrow> get_imagespec three_file_world ''a'' 0
                        (fst (attribute ''max_open_files'' (IntVal 1) new_ImageCacheImpl));
          Some s1 }"

text \<open>
  The states in which the file sweep cannot come below the ceiling: even with every
  record of the table closed, the readers still counted reach \<open>max_open_files\<close>.
\<close>

definition open_in_table :: "ImageCacheImpl \<Rightarrow> nat" where
  "open_in_table s = (\<Sum>e\<leftarrow>m_files s. if m_input (file_heap s ! snd e) \<noteq> None then 1 else 0)"

definition sweep_stuck :: "ImageCacheImpl \<Rightarrow> bool" where
  "sweep_stuck s \<longleftrightarrow>
     m_max_open_files s \<le> m_stat_open_files_current s - int (open_in_table s) \<and>
     m_files s \<noteq> [] \<and> list_all (\<lambda>e. snd e < length (file_heap s)) (m_files s)"

definition second_file_query :: "(ImageCacheImpl \<times> ImageSpec option) option" where
  "second_file_query =
     do { s \<leftarrow> one_file_cache; get_imagespec three_file_world ''b'' 0 s }"

text \<open>
  With \<open>max_open_files = 1\<close> and untiled files not accepted: the cache after the spec
  of the scanline file \<open>m.tif\<close> was asked for, which is rejected, and then the query for
  the spec of a file that does not exist.
\<close>

definition rejected_cache :: "ImageCacheImpl option" where
  "rejected_cache =
     do { (s1, _) \<leftarrow> get_imagespec mip_world ''m.tif'' 0
                        (fst (attribute ''accept_untiled'' (IntVal 0)
                           (fst (attribute ''max_open_files'' (IntVal 1) new_ImageCacheImpl))));
          Some s1 }"

definition missing_file_query :: "(ImageCacheImpl \<times> ImageSpec option) option" where
  "missing_file_query =
     do { s \<leftarrow> rejected_cache; get_imagespec mip_world ''nowhere.tif'' 0 s }"

text \<open>
  A tiled file whose spec carries the integer attribute \<open>gain\<close> of two elements, and the
  part of the result of \<^verbatim>\<open>get_image_info\<close> that the caller sees.
\<close>

definition attr_world :: World where
  "attr_world =
     example_world
       [(''t.tif'',
         example_file
           [plain_spec 2 2 2 2 1 TD_UINT8
              [\<lparr>p_name = ''gain'', p_type = \<lparr>basetype = TD_INT, arraylen = 2\<rparr>,
                p_data = Cells [3, 4]\<rparr>]]
           None)]"

definition info_result :: "(ImageCacheImpl \<times> bool \<times> ParamData option) option \<Rightarrow> (bool \<times> ParamData option) option" where
  "info_result r = (case r of None \<Rightarrow> None | Some (s, ok, d) \<Rightarrow> Some (ok, d))"

text \<open>
  A tile of \<open>a\<close> is resident; a second tile with the same id is constructed and
  counted, as by a thread that lost the race: \<open>collision_input\<close> is the cache and the
  newcomer at the call of \<^verbatim>\<open>add_tile_to_cache\<close>. \<open>collision_run\<close> makes the call
  and gives the tile the table holds under the id before and after, and the newcomer.
\<close>

definition collision_input :: "(ImageCacheImpl \<times> nat) option" where
  "collision_input =
     do { (s1, _) \<leftarrow> get_pixels three_file_world ''a'' 0 (0, 1, 0, 1, 0, 1) TD_UINT8 new_ImageCacheImpl;
          let tid = \<lparr>id_file = 0, id_subimage = 0, id_x = 0, id_y = 0, id_z = 0\<rparr>;
          (s2, t) \<leftarrow> new_ImageCacheTile no_finer three_file_world tid s1;
          sz \<leftarrow> memsize s2 tid;
          Some (incr_tiles sz (tile_incref t s2), t) }"

definition collision_run :: "(nat option \<times> nat option \<times> nat) option" where
  "collision_run =
     do { (s, t) \<leftarrow> collision_input;
          s' \<leftarrow> add_tile_to_cache t s;
          Some (map_of (m_tilecache s) (t_id (tile_heap s ! t)),
                map_of (m_tilecache s') (t_id (tile_heap s ! t)), t) }"

text \<open>The fields that \<^verbatim>\<open>find_file\<close> compares before it marks a duplicate.\<close>

definition same_kind :: "ImageCacheFile \<Rightarrow> ImageCacheFile \<Rightarrow> bool" where
  "same_kind f d \<longleftrightarrow>
     m_swrap f = m_swrap d \<and> m_twrap f = m_twrap d \<and> m_datatype f = m_datatype d \<and>
     m_cubelayout f = m_cubelayout d \<and> m_y_up f = m_y_up d"

text \<open>
  Four files that carry the same SHA-1 fingerprint in their image description: \<open>x.exr\<close>
  and \<open>y.exr\<close> hold 8-bit pixels, \<open>z.exr\<close> and \<open>w.exr\<close> hold float pixels, so that
  their cached data type differs from that of \<open>x.exr\<close> and is the same for the two.
\<close>

definition sha_attr :: ImageIOParameter where
  "sha_attr = \<lparr>p_name = ''ImageDescription'', p_type = TypeString,
                p_data = Str ''SHA-1=0123456789abcdef0123456789abcdef01234567''\<rparr>"

definition fp_world :: World where
  "fp_world =
     example_world
       [(''x.exr'', example_file [plain_spec 2 2 2 2 1 TD_UINT8 [sha_attr]] None),
        (''y.exr'', example_file [plain_spec 2 2 2 2 1 TD_UINT8 [sha_attr]] None),
        (''z.exr'', example_file [plain_spec 2 2 2 2 1 TD_FLOAT [sha_attr]] None),
        (''w.exr'', example_file [plain_spec 2 2 2 2 1 TD_FLOAT [sha_attr]] None)]"

text \<open>
  \<open>x.exr\<close> and then \<open>z.exr\<close> are opened. The result is the record the fingerprint map
  holds for the fingerprint, the records in the map, and the duplicate pointer of the
  record of \<open>z.exr\<close>, which is at address 1.
\<close>

definition mismatch_run :: "(nat option \<times> nat list \<times> nat option) option" where
  "mismatch_run =
     do { (s1, _) \<leftarrow> get_imagespec fp_world ''x.exr'' 0 new_ImageCacheImpl;
          (s2, _) \<leftarrow> get_imagespec fp_world ''z.exr'' 0 s1;
          Some (map_of (m_fingerprints s2) ''0123456789abcdef0123456789abcdef01234567'',
                map snd (m_fingerprints s2), m_duplicate (file_heap s2 ! 1)) }"

text \<open>
  \<open>x.exr\<close>, \<open>z.exr\<close> and then \<open>w.exr\<close> are opened. The result is whether the records
  of \<open>z.exr\<close> and \<open>w.exr\<close>, at addresses 1 and 2, have the same fingerprint and agree in
  the fields \<^verbatim>\<open>find_file\<close> compares, and the records that \<^verbatim>\<open>find_file\<close> then
  returns for the two names.
\<close>

definition twin_run :: "(bool \<times> nat option \<times> nat option) option" where
  "twin_run =
     do { (s1, _) \<leftarrow> get_imagespec fp_world ''x.exr'' 0 new_ImageCacheImpl;
          (s2, _) \<leftarrow> get_imagespec fp_world ''z.exr'' 0 s1;
          (s3, _) \<leftarrow> get_imagespec fp_world ''w.exr'' 0 s2;
          (s4, rz) \<leftarrow> find_file fp_world ''z.exr'' s3;
          (s5, rw) \<leftarrow> find_file fp_world ''w.exr'' s4;
          Some (m_fingerprint (file_heap s5 ! 1) = m_fingerprint (file_heap s5 ! 2) \<and>
                m_fingerprint (file_heap s5 ! 1) \<noteq> [] \<and>
                same_kind (file_heap s5 ! 1) (file_heap s5 ! 2), rz, rw) }"

text \<open>The cache after \<open>x.exr\<close> was opened.\<close>

definition x_cache :: ImageCacheImpl where
  "x_cache = fst (the (get_imagespec fp_world ''x.exr'' 0 new_ImageCacheImpl))"

text \<open>The record at address \<open>b\<close> exists and is broken.\<close>

definition broken_at :: "nat \<Rightarrow> ImageCacheImpl \<Rightarrow> bool" where
  "broken_at b s \<longleftrightarrow> b < length (file_heap s) \<and> m_broken (file_heap s ! b)"

text \<open>
  The name \<open>n\<close> is bound in the file table to the record at address \<open>a\<close>, which exists
  and has the duplicate pointer \<open>d\<close>.
\<close>

definition named_at :: "string \<Rightarrow> nat \<Rightarrow> nat option \<Rightarrow> ImageCacheImpl \<Rightarrow> bool" where
  "named_at n a d s \<longleftrightarrow>
     map_of (m_files s) n = Some a \<and> a < length (file_heap s) \<and> m_duplicate (file_heap s ! a) = d"




text \<open>
  What the tile table holds under an id: the valid flag, the used flag and the buffer of
  the tile.
\<close>

definition tile_state :: "ImageCacheImpl \<Rightarrow> TileID \<Rightarrow> (bool \<times> bool \<times> 8 word list) option" where
  "tile_state s tid =
     (case map_of (m_tilecache s) tid of
        None \<Rightarrow> None
      | Some t \<Rightarrow> Some (t_valid (tile_heap s ! t), t_used (tile_heap s ! t), t_pixels (tile_heap s ! t)))"

text \<open>
  The one tile of \<open>c\<close> cannot be read. The tile is asked for with \<^verbatim>\<open>get_tile\<close>, which
  reads it, then asked for again, and then its first pixel is asked for with
  \<^verbatim>\<open>get_pixels\<close>. The result is the handle of the first call, what the tile table
  holds after it, the handle of the second call with the valid flag of the tile behind
  it, and what \<^verbatim>\<open>get_pixels\<close> returned and wrote.
\<close>

definition failed_tile_run ::
    "(nat option \<times> (bool \<times> bool \<times> 8 word list) option \<times> nat option \<times> bool option \<times>
      bool \<times> 8 word list) option" where
  "failed_tile_run =
     do { (s1, h1) \<leftarrow> get_tile three_file_world ''c'' 0 0 0 0 new_ImageCacheImpl;
          (s2, h2) \<leftarrow> get_tile three_file_world ''c'' 0 0 0 0 s1;
          (s3, ok, px) \<leftarrow> get_pixels three_file_world ''c'' 0 (0, 1, 0, 1, 0, 1) TD_UINT8 s2;
          Some (h1, tile_state s1 \<lparr>id_file = 0, id_subimage = 0, id_x = 0, id_y = 0, id_z = 0\<rparr>,
                h2, map_option (\<lambda>t. t_valid (tile_heap s2 ! t)) h2, ok, px) }"

section \<open>Properties\<close>

subsection \<open>What the primitive updates leave alone\<close>

lemma upd_file_fields [simp]:
  "file_heap (upd_file a g s) = (file_heap s)[a := g (file_heap s ! a)]"
  "m_files (upd_file a g s) = m_files s"
  "m_file_sweep (upd_file a g s) = m_file_sweep s"
  "m_fingerprints (upd_file a g s) = m_fingerprints s"
  "m_max_open_files (upd_file a g s) = m_max_open_files s"
  "m_max_memory_bytes (upd_file a g s) = m_max_memory_bytes s"
  "m_stat_open_files_current (upd_file a g s) = m_stat_open_files_current s"
  "m_autotile (upd_file a g s) = m_autotile s"
  "m_automip (upd_file a g s) = m_automip s"
  "m_forcefloat (upd_file a g s) = m_forcefloat s"
  "m_accept_untiled (upd_file a g s) = m_accept_untiled s"
  "tile_heap (upd_file a g s) = tile_heap s"
  "m_tilecache (upd_file a g s) = m_tilecache s"
  "m_tile_sweep (upd_file a g s) = m_tile_sweep s"
  "m_mem_used (upd_file a g s) = m_mem_used s"
  "m_errormessage (upd_file a g s) = m_errormessage s"
  "reader_creates (upd_file a g s) = reader_creates s"
  "pt_tile (upd_file a g s) = pt_tile s"
  "pt_lasttile (upd_file a g s) = pt_lasttile s"
  "pt_purge (upd_file a g s) = pt_purge s"
  by (simp_all add: upd_file_def)

lemma use_file_fields [simp]:
  "file_heap (use_file a s) = (file_heap s)[a := (file_heap s ! a)\<lparr>m_used := True\<rparr>]"
  "m_files (use_file a s) = m_files s"
  "m_file_sweep (use_file a s) = m_file_sweep s"
  "m_fingerprints (use_file a s) = m_fingerprints s"
  "m_max_open_files (use_file a s) = m_max_open_files s"
  "m_max_memory_bytes (use_file a s) = m_max_memory_bytes s"
  "m_stat_open_files_current (use_file a s) = m_stat_open_files_current s"
  "m_autotile (use_file a s) = m_autotile s"
  "m_automip (use_file a s) = m_automip s"
  "m_forcefloat (use_file a s) = m_forcefloat s"
  "m_accept_untiled (use_file a s) = m_accept_untiled s"
  "tile_heap (use_file a s) = tile_heap s"
  "m_tilecache (use_file a s) = m_tilecache s"
  "m_tile_sweep (use_file a s) = m_tile_sweep s"
  "m_mem_used (use_file a s) = m_mem_used s"
  "m_errormessage (use_file a s) = m_errormessage s"
  "reader_creates (use_file a s) = reader_creates s"
  "pt_tile (use_file a s) = pt_tile s"
  "pt_lasttile (use_file a s) = pt_lasttile s"
  "pt_purge (use_file a s) = pt_purge s"
  by (simp_all add: use_file_def)

lemma error_fields [simp]:
  "file_heap (error e s) = file_heap s"
  "m_files (error e s) = m_files s"
  "m_file_sweep (error e s) = m_file_sweep s"
  "m_fingerprints (error e s) = m_fingerprints s"
  "m_max_open_files (error e s) = m_max_open_files s"
  "m_max_memory_bytes (error e s) = m_max_memory_bytes s"
  "m_stat_open_files_current (error e s) = m_stat_open_files_current s"
  "m_autotile (error e s) = m_autotile s"
  "m_automip (error e s) = m_automip s"
  "m_forcefloat (error e s) = m_forcefloat s"
  "m_accept_untiled (error e s) = m_accept_untiled s"
  "tile_heap (error e s) = tile_heap s"
  "m_tilecache (error e s) = m_tilecache s"
  "m_tile_sweep (error e s) = m_tile_sweep s"
  "m_mem_used (error e s) = m_mem_used s"
  "m_errormessage (error e s) = m_errormessage s @ [e]"
  "reader_creates (error e s) = reader_creates s"
  "pt_tile (error e s) = pt_tile s"
  "pt_lasttile (error e s) = pt_lasttile s"
  "pt_purge (error e s) = pt_purge s"
  by (simp_all add: error_def)

lemma incr_open_files_fields [simp]:
  "file_heap (incr_open_files s) = file_heap s"
  "m_files (incr_open_files s) = m_files s"
  "m_file_sweep (incr_open_files s) = m_file_sweep s"
  "m_fingerprints (incr_open_files s) = m_fingerprints s"
  "m_max_open_files (incr_open_files s) = m_max_open_files s"
  "m_max_memory_bytes (incr_open_files s) = m_max_memory_bytes s"
  "m_stat_open_files_current (incr_open_files s) = m_stat_open_files_current s + 1"
  "m_autotile (incr_open_files s) = m_autotile s"
  "m_automip (incr_open_files s) = m_automip s"
  "m_forcefloat (incr_open_files s) = m_forcefloat s"
  "m_accept_untiled (incr_open_files s) = m_accept_untiled s"
  "tile_heap (incr_open_files s) = tile_heap s"
  "m_tilecache (incr_open_files s) = m_tilecache s"
  "m_tile_sweep (incr_open_files s) = m_tile_sweep s"
  "m_mem_used (incr_open_files s) = m_mem_used s"
  "m_errormessage (incr_open_files s) = m_errormessage s"
  "reader_creates (incr_open_files s) = reader_creates s"
  "pt_tile (incr_open_files s) = pt_tile s"
  "pt_lasttile (incr_open_files s) = pt_lasttile s"
  "pt_purge (incr_open_files s) = pt_purge s"
  by (simp_all add: incr_open_files_def)

lemma decr_open_files_fields [simp]:
  "file_heap (decr_open_files s) = file_heap s"
  "m_files (decr_open_files s) = m_files s"
  "m_file_sweep (decr_open_files s) = m_file_sweep s"
  "m_fingerprints (decr_open_files s) = m_fingerprints s"
  "m_max_open_files (decr_open_files s) = m_max_open_files s"
  "m_max_memory_bytes (decr_open_files s) = m_max_memory_bytes s"
  "m_stat_open_files_current (decr_open_files s) = m_stat_open_files_current s - 1"
  "m_autotile (decr_open_files s) = m_autotile s"
  "m_automip (decr_open_files s) = m_automip s"
  "m_forcefloat (decr_open_files s) = m_forcefloat s"
  "m_accept_untiled (decr_open_files s) = m_accept_untiled s"
  "tile_heap (decr_open_files s) = tile_heap s"
  "m_tilecache (decr_open_files s) = m_tilecache s"
  "m_tile_sweep (decr_open_files s) = m_tile_sweep s"
  "m_mem_used (decr_open_files s) = m_mem_used s"
  "m_errormessage (decr_open_files s) = m_errormessage s"
  "reader_creates (decr_open_files s) = reader_creates s"
  "pt_tile (decr_open_files s) = pt_tile s"
  "pt_lasttile (decr_open_files s) = pt_lasttile s"
  "pt_purge (decr_open_files s) = pt_purge s"
  by (simp_all add: decr_open_files_def)

lemma ImageCacheFile_close_fields [simp]:
  "m_files (ImageCacheFile_close a s) = m_files s"
  "m_file_sweep (ImageCacheFile_close a s) = m_file_sweep s"
  "m_fingerprints (ImageCacheFile_close a s) = m_fingerprints s"
  "m_max_open_files (ImageCacheFile_close a s) = m_max_open_files s"
  "m_max_memory_bytes (ImageCacheFile_close a s) = m_max_memory_bytes s"
  "m_autotile (ImageCacheFile_close a s) = m_autotile s"
  "m_automip (ImageCacheFile_close a s) = m_automip s"
  "m_forcefloat (ImageCacheFile_close a s) = m_forcefloat s"
  "m_accept_untiled (ImageCacheFile_close a s) = m_accept_untiled s"
  "tile_heap (ImageCacheFile_close a s) = tile_heap s"
  "m_tilecache (ImageCacheFile_close a s) = m_tilecache s"
  "m_tile_sweep (ImageCacheFile_close a s) = m_tile_sweep s"
  "m_mem_used (ImageCacheFile_close a s) = m_mem_used s"
  "m_errormessage (ImageCacheFile_close a s) = m_errormessage s"
  "reader_creates (ImageCacheFile_close a s) = reader_creates s"
  "pt_tile (ImageCacheFile_close a s) = pt_tile s"
  "pt_lasttile (ImageCacheFile_close a s) = pt_lasttile s"
  "pt_purge (ImageCacheFile_close a s) = pt_purge s"
  "length (file_heap (ImageCacheFile_close a s)) = length (file_heap s)"
  by (simp_all add: ImageCacheFile_close_def)

lemma ImageCacheFile_release_fields [simp]:
  "m_files (ImageCacheFile_release a s) = m_files s"
  "m_file_sweep (ImageCacheFile_release a s) = m_file_sweep s"
  "m_fingerprints (ImageCacheFile_release a s) = m_fingerprints s"
  "m_max_open_files (ImageCacheFile_release a s) = m_max_open_files s"
  "m_max_memory_bytes (ImageCacheFile_release a s) = m_max_memory_bytes s"
  "m_autotile (ImageCacheFile_release a s) = m_autotile s"
  "m_automip (ImageCacheFile_release a s) = m_automip s"
  "m_forcefloat (ImageCacheFile_release a s) = m_forcefloat s"
  "m_accept_untiled (ImageCacheFile_release a s) = m_accept_untiled s"
  "tile_heap (ImageCacheFile_release a s) = tile_heap s"
  "m_tilecache (ImageCacheFile_release a s) = m_tilecache s"
  "m_tile_sweep (ImageCacheFile_release a s) = m_tile_sweep s"
  "m_mem_used (ImageCacheFile_release a s) = m_mem_used s"
  "m_errormessage (ImageCacheFile_release a s) = m_errormessage s"
  "reader_creates (ImageCacheFile_release a s) = reader_creates s"
  "pt_tile (ImageCacheFile_release a s) = pt_tile s"
  "pt_lasttile (ImageCacheFile_release a s) = pt_lasttile s"
  "pt_purge (ImageCacheFile_release a s) = pt_purge s"
  "length (file_heap (ImageCacheFile_release a s)) = length (file_heap s)"
  by (simp_all add: ImageCacheFile_release_def)

subsection \<open>The claims\<close>

lemma bitlength_pos: "0 < a \<Longrightarrow> 2 ^ (bitlength a - 1) \<le> a"
proof (induction a rule: bitlength.induct)
  case (1 a)
  show ?case
  proof (cases "a = 1")
    case True
    then show ?thesis by (subst bitlength.simps) (simp add: bitlength.simps [of 0])
  next
    case False
    with "1.prems" have a2: "0 < a div 2" by simp
    have bl: "bitlength a = Suc (bitlength (a div 2))"
      using "1.prems" by (subst bitlength.simps) simp
    have "0 < bitlength (a div 2)" using a2 by (subst bitlength.simps) simp
    then have "(2::int) ^ (bitlength a - 1) = 2 * 2 ^ (bitlength (a div 2) - 1)"
      using bl by (cases "bitlength (a div 2)") simp_all
    also have "\<dots> \<le> 2 * (a div 2)" using "1.IH" [OF _ a2] "1.prems" by simp
    also have "\<dots> \<le> a" by simp
    finally show ?thesis .
  qed
qed

lemma bitlength_small: "\<bar>n\<bar> < 2 ^ 24 \<Longrightarrow> bitlength \<bar>n\<bar> - 24 = 0"
proof -
  assume a: "\<bar>n\<bar> < 2 ^ 24"
  show ?thesis
  proof (rule ccontr)
    assume "bitlength \<bar>n\<bar> - 24 \<noteq> 0"
    then have b: "25 \<le> bitlength \<bar>n\<bar>" by simp
    then have "0 < \<bar>n\<bar>" by (subst (asm) bitlength.simps) (simp split: if_splits)
    from bitlength_pos [OF this] have "2 ^ (bitlength \<bar>n\<bar> - 1) \<le> \<bar>n\<bar>" .
    moreover have "(2::int) ^ 24 \<le> 2 ^ (bitlength \<bar>n\<bar> - 1)"
      using b by (intro power_increasing) simp_all
    ultimately show False using a by simp
  qed
qed

text \<open>An int converted to float is the int itself below \<open>2^24\<close> and at least \<open>2^24\<close> in
  magnitude, with the sign of the int, from there on.\<close>

lemma int_to_float_cases:
  "\<exists>r. int_to_float n = Finite r \<and>
       (\<bar>n\<bar> < 2 ^ 24 \<longrightarrow> r = of_int n) \<and>
       (2 ^ 24 \<le> n \<longrightarrow> 2 ^ 24 \<le> r) \<and> (n \<le> - (2 ^ 24) \<longrightarrow> r \<le> - (2 ^ 24))"
proof (cases "bitlength \<bar>n\<bar> - 24 = 0")
  case True
  then show ?thesis by (auto simp: int_to_float_def Let_def)
next
  case False
  define e where "e = bitlength \<bar>n\<bar> - 24"
  define q where "q = \<bar>n\<bar> div 2 ^ e"
  define q' where "q' = (if 2 ^ (e - 1) < \<bar>n\<bar> mod 2 ^ e \<or> (\<bar>n\<bar> mod 2 ^ e = 2 ^ (e - 1) \<and> odd q) then q + 1 else q)"
  have e: "0 < e" using False by (simp add: e_def)
  have big: "\<not> \<bar>n\<bar> < 2 ^ 24" using False bitlength_small [of n] by auto
  then have pos: "0 < \<bar>n\<bar>" by simp
  have "(2::int) ^ (23 + e) = 2 ^ (bitlength \<bar>n\<bar> - 1)" using e by (simp add: e_def)
  also have "\<dots> \<le> \<bar>n\<bar>" by (rule bitlength_pos [OF pos])
  finally have le: "(2::int) ^ 23 * 2 ^ e \<le> \<bar>n\<bar>" by (simp add: power_add)
  have "((2::int) ^ 23 * 2 ^ e) div 2 ^ e \<le> \<bar>n\<bar> div 2 ^ e"
    by (rule zdiv_mono1 [OF le]) simp
  then have "(2::int) ^ 23 \<le> q" by (simp add: q_def)
  then have q': "(2::int) ^ 23 \<le> q'" by (simp add: q'_def)
  have "(2::int) ^ 24 \<le> q' * 2 ^ e"
  proof -
    have "(2::int) ^ 24 = 2 ^ 23 * 2 ^ 1" by simp
    also have "\<dots> \<le> q' * 2 ^ e"
      using q' e by (intro mult_mono power_increasing) simp_all
    finally show ?thesis .
  qed
  then have mag: "(2::rat) ^ 24 \<le> of_int (q' * 2 ^ e)"
    by (metis of_int_le_iff of_int_numeral of_int_power)
  have val: "int_to_float n = Finite (of_int (sgn n * q' * 2 ^ e))"
    using False by (simp add: int_to_float_def Let_def e_def q'_def q_def)
  show ?thesis
  proof (cases "0 < n")
    case True
    then show ?thesis using val mag big by (auto simp: mult.assoc)
  next
    case False
    then have "n < 0" using pos by auto
    then show ?thesis using val mag big by (auto simp: mult.assoc)
  qed
qed


lemma float_to_int_in_range:
  assumes r: "- (2 ^ 31) - 1 < r * 2 ^ 20" "r * 2 ^ 20 < 2 ^ 31"
  shows "float_to_int (fmul1024 (fmul1024 (Finite r))) = c_trunc (r * 2 ^ 20)"
proof -
  have e: "r * 1024 * 1024 = r * 2 ^ 20" by simp
  have "\<bar>r * 2 ^ 20\<bar> < 2 ^ 31 + 1" using r by (simp add: abs_less_iff)
  then have a: "\<bar>r\<bar> < 2 ^ 12" by (simp add: abs_mult)
  then have b1: "\<bar>r * 1024\<bar> \<le> FLT_MAX" by (simp add: abs_mult FLT_MAX_def)
  have b2: "\<bar>r * 1024 * 1024\<bar> \<le> FLT_MAX" using a by (simp add: abs_mult FLT_MAX_def)
  have lo: "- (2 ^ 31) \<le> c_trunc (r * 2 ^ 20)"
  proof (cases "0 \<le> r * 2 ^ 20")
    case True
    then have "0 \<le> \<lfloor>r * 2 ^ 20\<rfloor>" by simp
    then show ?thesis using True by (simp add: c_trunc_def)
  next
    case False
    have "of_int (- (2 ^ 31) - 1) < r * 2 ^ 20" using r by simp
    then have "- (2 ^ 31) - 1 < \<lceil>r * 2 ^ 20\<rceil>" by (simp only: less_ceiling_iff)
    then show ?thesis using False by (simp add: c_trunc_def)
  qed
  have hi: "c_trunc (r * 2 ^ 20) < 2 ^ 31"
  proof (cases "0 \<le> r * 2 ^ 20")
    case True
    have "r * 2 ^ 20 < of_int (2 ^ 31)" using r by simp
    then have "\<lfloor>r * 2 ^ 20\<rfloor> < 2 ^ 31" by (simp only: floor_less_iff)
    then show ?thesis using True by (simp add: c_trunc_def)
  next
    case False
    then have "r * 2 ^ 20 \<le> of_int 0" by simp
    then have "\<lceil>r * 2 ^ 20\<rceil> \<le> 0" by (simp only: ceiling_le_iff)
    then show ?thesis using False by (simp add: c_trunc_def)
  qed
  show ?thesis
    using b1 b2 lo hi by (simp add: fmul1024_def float_to_int_def e)
qed

lemma float_to_int_out_of_range:
  assumes "\<not> (- (2 ^ 31) - 1 < r * 2 ^ 20 \<and> r * 2 ^ 20 < 2 ^ 31)"
  shows "float_to_int (fmul1024 (fmul1024 (Finite r))) = - (2 ^ 31)"
proof -
  note False = assms
  have out: "\<not> (- (2 ^ 31) \<le> c_trunc (r * 2 ^ 20) \<and> c_trunc (r * 2 ^ 20) < 2 ^ 31)"
  proof (cases "r * 2 ^ 20 < 2 ^ 31")
    case True
    with False have le: "r * 2 ^ 20 \<le> of_int (- (2 ^ 31) - 1)" by simp
    then have "\<lceil>r * 2 ^ 20\<rceil> \<le> - (2 ^ 31) - 1" by (simp only: ceiling_le_iff)
    moreover have "\<not> 0 \<le> r * 2 ^ 20" using le by simp
    ultimately show ?thesis by (simp add: c_trunc_def)
  next
    case False
    then have ge: "of_int (2 ^ 31) \<le> r * 2 ^ 20" by simp
    then have "2 ^ 31 \<le> \<lfloor>r * 2 ^ 20\<rfloor>" by (simp only: le_floor_iff)
    moreover have "0 \<le> r * 2 ^ 20" using ge by simp
    ultimately show ?thesis by (simp add: c_trunc_def)
  qed
  have "fmul1024 (fmul1024 (Finite r)) = NonFinite \<or>
        fmul1024 (fmul1024 (Finite r)) = Finite (r * 2 ^ 20)"
    by (auto simp: fmul1024_def)
  then show ?thesis using out by (auto simp: float_to_int_def INT_MIN_def)
qed

text \<open>
  C10 (amended). Setting \<open>max_memory_MB\<close>, with a float or with an int, returns true and
  stores the byte ceiling \<^verbatim>\<open>(int)(size * 1024 * 1024)\<close>. For a float \<open>r\<close> with
  \<open>r * 2^20\<close> strictly between \<open>- 2^31 - 1\<close> and \<open>2^31\<close> the stored ceiling is
  \<open>r * 2^20\<close> truncated towards zero. For \<open>r \<ge> 2048\<close>, and for \<open>r * 2^20\<close> at or
  below \<open>- 2^31 - 1\<close>, the product is not an \<^verbatim>\<open>int\<close>; the stored ceiling is then not
  the product wrapped modulo \<open>2^32\<close> but the result of the x86 conversion,
  \<^verbatim>\<open>INT_MIN\<close>, which is negative and not \<open>r * 2^20\<close>. For an int \<open>n\<close> the ceiling is
  \<open>n * 2^20\<close> from \<open>-2048\<close> up to \<open>2047\<close> and \<^verbatim>\<open>INT_MIN\<close> otherwise.
\<close>

theorem max_memory_bytes_conversion:
  "(- (2 ^ 31) - 1 < r * 2 ^ 20 \<and> r * 2 ^ 20 < 2 ^ 31 \<longrightarrow>
      attribute ''max_memory_MB'' (FloatVal (Finite r)) s =
        (s\<lparr>m_max_memory_MB := Finite r, m_max_memory_bytes := c_trunc (r * 2 ^ 20)\<rparr>, True)) \<and>
   (2048 \<le> r \<or> r * 2 ^ 20 \<le> - (2 ^ 31) - 1 \<longrightarrow>
      attribute ''max_memory_MB'' (FloatVal (Finite r)) s =
        (s\<lparr>m_max_memory_MB := Finite r, m_max_memory_bytes := - (2 ^ 31)\<rparr>, True) \<and>
      of_int (m_max_memory_bytes (fst (attribute ''max_memory_MB'' (FloatVal (Finite r)) s))) \<noteq> r * 2 ^ 20) \<and>
   (- 2048 \<le> n \<and> n < 2048 \<longrightarrow>
      attribute ''max_memory_MB'' (IntVal n) s =
        (s\<lparr>m_max_memory_MB := Finite (of_int n), m_max_memory_bytes := n * 2 ^ 20\<rparr>, True)) \<and>
   (n < - 2048 \<or> 2048 \<le> n \<longrightarrow>
      attribute ''max_memory_MB'' (IntVal n) s =
        (s\<lparr>m_max_memory_MB := int_to_float n, m_max_memory_bytes := - (2 ^ 31)\<rparr>, True))"
proof (intro conjI impI)
  assume "- (2 ^ 31) - 1 < r * 2 ^ 20 \<and> r * 2 ^ 20 < 2 ^ 31"
  then show "attribute ''max_memory_MB'' (FloatVal (Finite r)) s =
        (s\<lparr>m_max_memory_MB := Finite r, m_max_memory_bytes := c_trunc (r * 2 ^ 20)\<rparr>, True)"
    by (simp add: attribute_def set_max_memory_def float_to_int_in_range)
next
  assume a: "2048 \<le> r \<or> r * 2 ^ 20 \<le> - (2 ^ 31) - 1"
  then have out: "\<not> (- (2 ^ 31) - 1 < r * 2 ^ 20 \<and> r * 2 ^ 20 < 2 ^ 31)" by auto
  show eq: "attribute ''max_memory_MB'' (FloatVal (Finite r)) s =
        (s\<lparr>m_max_memory_MB := Finite r, m_max_memory_bytes := - (2 ^ 31)\<rparr>, True)"
    using float_to_int_out_of_range [OF out] by (simp add: attribute_def set_max_memory_def)
  show "of_int (m_max_memory_bytes (fst (attribute ''max_memory_MB'' (FloatVal (Finite r)) s))) \<noteq> r * 2 ^ 20"
    using a by (auto simp: eq)
next
  assume n: "- 2048 \<le> n \<and> n < 2048"
  then have "\<bar>n\<bar> < 2 ^ 24" by (auto simp: abs_less_iff)
  then have f: "int_to_float n = Finite (of_int n)"
    using int_to_float_cases [of n] by auto
  have 1: "- (2 ^ 31) - 1 < (of_int n :: rat) * 2 ^ 20"
  proof -
    have "(- (2 ^ 31) - 1 :: rat) < of_int (- 2048) * 2 ^ 20" by simp
    also have "\<dots> \<le> of_int n * 2 ^ 20" using n by (intro mult_right_mono) simp_all
    finally show ?thesis .
  qed
  have 2: "(of_int n :: rat) * 2 ^ 20 < 2 ^ 31"
  proof -
    have "(of_int n :: rat) * 2 ^ 20 \<le> of_int 2047 * 2 ^ 20"
      using n by (intro mult_right_mono) simp_all
    also have "\<dots> < 2 ^ 31" by simp
    finally show ?thesis .
  qed
  have 3: "c_trunc (of_int n * 2 ^ 20) = n * 2 ^ 20"
  proof -
    have "(of_int n :: rat) * 2 ^ 20 = of_int (n * 2 ^ 20)" by simp
    then show ?thesis by (simp only: c_trunc_def floor_of_int ceiling_of_int if_cancel)
  qed
  show "attribute ''max_memory_MB'' (IntVal n) s =
        (s\<lparr>m_max_memory_MB := Finite (of_int n), m_max_memory_bytes := n * 2 ^ 20\<rparr>, True)"
    using float_to_int_in_range [OF 1 2] 3 by (simp add: attribute_def set_max_memory_def f)
next
  assume n: "n < - 2048 \<or> 2048 \<le> n"
  obtain q where q: "int_to_float n = Finite q"
    and small: "\<bar>n\<bar> < 2 ^ 24 \<longrightarrow> q = of_int n"
    and up: "2 ^ 24 \<le> n \<longrightarrow> 2 ^ 24 \<le> q" and down: "n \<le> - (2 ^ 24) \<longrightarrow> q \<le> - (2 ^ 24)"
    using int_to_float_cases [of n] by blast
  have "2048 \<le> q \<or> q \<le> - 2049"
  proof (cases "\<bar>n\<bar> < 2 ^ 24")
    case True
    then have "q = of_int n" using small by simp
    moreover have "(2048::rat) \<le> of_int n \<or> (of_int n :: rat) \<le> - 2049"
    proof (cases "2048 \<le> n")
      case True
      then show ?thesis by simp
    next
      case False
      with n have "n \<le> - 2049" by simp
      then have "(of_int n :: rat) \<le> of_int (- 2049)" by (simp only: of_int_le_iff)
      then show ?thesis by simp
    qed
    ultimately show ?thesis by simp
  next
    case False
    then have "2 ^ 24 \<le> n \<or> n \<le> - (2 ^ 24)" by auto
    then show ?thesis using up down by auto
  qed
  then have out: "\<not> (- (2 ^ 31) - 1 < q * 2 ^ 20 \<and> q * 2 ^ 20 < 2 ^ 31)" by auto
  show "attribute ''max_memory_MB'' (IntVal n) s =
        (s\<lparr>m_max_memory_MB := int_to_float n, m_max_memory_bytes := - (2 ^ 31)\<rparr>, True)"
    using float_to_int_out_of_range [OF out] by (simp add: attribute_def set_max_memory_def q)
qed

theorem max_memory_bytes_conversion_witness:
  "attribute ''max_memory_MB'' (FloatVal (Finite (3 / 2))) new_ImageCacheImpl =
     (new_ImageCacheImpl\<lparr>m_max_memory_MB := Finite (3 / 2), m_max_memory_bytes := 1572864\<rparr>, True) \<and>
   attribute ''max_memory_MB'' (FloatVal (Finite 2048)) new_ImageCacheImpl =
     (new_ImageCacheImpl\<lparr>m_max_memory_MB := Finite 2048, m_max_memory_bytes := - 2147483648\<rparr>, True) \<and>
   attribute ''max_memory_MB'' (IntVal 50) new_ImageCacheImpl =
     (new_ImageCacheImpl\<lparr>m_max_memory_MB := Finite 50, m_max_memory_bytes := 52428800\<rparr>, True) \<and>
   attribute ''max_memory_MB'' (IntVal 4096) new_ImageCacheImpl =
     (new_ImageCacheImpl\<lparr>m_max_memory_MB := int_to_float 4096, m_max_memory_bytes := - 2147483648\<rparr>, True)"
  using max_memory_bytes_conversion [of "3 / 2" new_ImageCacheImpl 50]
    max_memory_bytes_conversion [of 2048 new_ImageCacheImpl 4096]
  by (simp add: c_trunc_def)

text \<open>
  C10 as stated fails at \<open>size = 5000\<close> and at \<open>size = - 5000\<close>. At 5000 the stored
  ceiling is \<^verbatim>\<open>INT_MIN\<close>, which is not \<open>5000 * 2^20\<close> wrapped modulo \<open>2^32\<close> (that
  would be 947912704, a positive number). At \<open>- 5000\<close> the product is below \<open>2^31\<close>
  but the stored ceiling is not the truncated product.
\<close>

theorem max_memory_bytes_wrap_counterexample:
  "m_max_memory_bytes (fst (attribute ''max_memory_MB'' (FloatVal (Finite 5000)) new_ImageCacheImpl))
     = - 2147483648 \<and>
   m_max_memory_bytes (fst (attribute ''max_memory_MB'' (FloatVal (Finite 5000)) new_ImageCacheImpl))
     \<noteq> sint (word_of_int (c_trunc (5000 * 2 ^ 20)) :: 32 word) \<and>
   m_max_memory_bytes (fst (attribute ''max_memory_MB'' (FloatVal (Finite (- 5000))) new_ImageCacheImpl))
     \<noteq> c_trunc (- 5000 * 2 ^ 20)"
  by (simp add: attribute_def set_max_memory_def float_to_int_def fmul1024_def FLT_MAX_def
      c_trunc_def INT_MIN_def)

lemma c_div_2_nonneg: "0 \<le> w \<Longrightarrow> c_div w 2 = w div 2"
  by (simp add: c_div_def sgn_if)

lemma new_file_automip:
  assumes "disk W (resolve_filename W filename) = Some df"
    and "df_open_ok df" and "df_subimages df = [t]"
    and "tile_width t = 0 \<or> tile_height t = 0"
    and "m_automip s" and "m_accept_untiled s"
    and "find_attribute t ''textureformat'' TD_STRING = None"
  shows "m_spec (file_heap (fst (new_ImageCacheFile W filename s)) ! snd (new_ImageCacheFile W filename s)) =
         make_tiled (m_autotile s) t #
         automip_levels (m_autotile s) (make_tiled (m_autotile s) t) (full_width t) (full_height t)"
proof -
  have fa: "find_attribute (make_tiled (m_autotile s) t) ''textureformat'' TD_STRING = None"
    using assms(7) by (simp add: find_attribute_def make_tiled_def)
  have fw: "full_width (make_tiled (m_autotile s) t) = full_width t"
     "full_height (make_tiled (m_autotile s) t) = full_height t"
    by (simp_all add: make_tiled_def)
  show ?thesis
    using assms fa fw
    by (simp add: new_ImageCacheFile_def ImageCacheFile_open_def open_first_time_def Let_def
        fill_fields_def)
qed

lemma max_1_c_div_2: "max 1 (c_div w 2) = max 1 (w div 2)"
proof (cases "0 \<le> w")
  case True
  then show ?thesis by (simp add: c_div_def sgn_if)
next
  case False
  then have "c_div w 2 \<le> 0" using c_div_2_le [of w] by simp
  moreover have "w div 2 \<le> 0" using False by simp
  ultimately show ?thesis by simp
qed

lemma halving_automip_any:
  "halves_down_to_1x1 (w, h) (dims (automip_levels autotile sp w h))"
proof (induction autotile sp w h rule: automip_levels.induct)
  case (1 autotile sp w h)
  show ?case
  proof (cases "1 < w \<or> 1 < h")
    case True
    have "halves_down_to_1x1 (max 1 (c_div w 2), max 1 (c_div h 2))
            (dims (automip_levels autotile sp (max 1 (c_div w 2)) (max 1 (c_div h 2))))"
      by (rule "1.IH" [OF True refl refl refl refl refl])
    then show ?thesis
      using True
      by (subst automip_levels.simps) (simp add: Let_def max_1_c_div_2 dims_def)
  next
    case False
    then show ?thesis by (subst automip_levels.simps) (simp add: dims_def)
  qed
qed

lemma automip_levels_full:
  "q \<in> set (automip_levels autotile sp w h) \<Longrightarrow> full_width q = width q \<and> full_height q = height q"
proof (induction autotile sp w h rule: automip_levels.induct)
  case (1 autotile sp w h)
  show ?case
  proof (cases "1 < w \<or> 1 < h")
    case True
    from "1.prems" True
    have "q \<in> set (automip_levels autotile sp (max 1 (c_div w 2)) (max 1 (c_div h 2))) \<or>
          (full_width q = width q \<and> full_height q = height q)"
      by (subst (asm) automip_levels.simps) (auto simp: Let_def simp del: automip_levels.simps)
    then show ?thesis using "1.IH" [OF True refl refl refl refl refl] by blast
  next
    case False
    then show ?thesis using "1.prems" by (subst (asm) automip_levels.simps) (simp del: automip_levels.simps)
  qed
qed

text \<open>
  C2 (amended). The record constructed for a scanline file with a single subimage, with
  automip on, untiled files accepted and no \<open>textureformat\<close> attribute in the file, has
  the spec of subimage 0 followed by the synthesized levels. The levels are computed from
  the full width and height of subimage 0: every level is half the one before it,
  rounded down and at least 1, down to 1 by 1, and its width and height are its full
  width and height. When the width and height of subimage 0 are its full width and
  height, the chain starts at the width and height of subimage 0.
\<close>

theorem automip_specs_halve:
  assumes "disk W (resolve_filename W filename) = Some df"
    and "df_open_ok df" and "df_subimages df = [t]"
    and "tile_width t = 0 \<or> tile_height t = 0"
    and "m_automip s" and "m_accept_untiled s"
    and "find_attribute t ''textureformat'' TD_STRING = None"
    and "new_ImageCacheFile W filename s = (s', a)"
  shows "m_spec (file_heap s' ! a) =
           make_tiled (m_autotile s) t #
           automip_levels (m_autotile s) (make_tiled (m_autotile s) t) (full_width t) (full_height t) \<and>
         halves_down_to_1x1 (full_width t, full_height t) (dims (tl (m_spec (file_heap s' ! a)))) \<and>
         (\<forall>q\<in>set (tl (m_spec (file_heap s' ! a))). full_width q = width q \<and> full_height q = height q) \<and>
         (width t = full_width t \<and> height t = full_height t \<longrightarrow>
            halves_down_to_1x1 (width (hd (m_spec (file_heap s' ! a))), height (hd (m_spec (file_heap s' ! a))))
              (dims (tl (m_spec (file_heap s' ! a)))))"
proof -
  let ?sp = "make_tiled (m_autotile s) t"
  let ?levels = "automip_levels (m_autotile s) ?sp (full_width t) (full_height t)"
  have fs: "fst (new_ImageCacheFile W filename s) = s'" "snd (new_ImageCacheFile W filename s) = a"
    by (simp_all only: assms(8) fst_conv snd_conv)
  have sp: "m_spec (file_heap s' ! a) = ?sp # ?levels"
    using new_file_automip [OF assms(1-7)] by (simp only: fs)
  have wh: "width ?sp = width t" "height ?sp = height t" by (simp_all add: make_tiled_def)
  have h: "halves_down_to_1x1 (full_width t, full_height t) (dims ?levels)"
    by (rule halving_automip_any)
  have f: "\<forall>q\<in>set ?levels. full_width q = width q \<and> full_height q = height q"
    using automip_levels_full by blast
  have rest: "tl (m_spec (file_heap s' ! a)) = ?levels" by (simp only: sp list.sel)
  have c2: "halves_down_to_1x1 (full_width t, full_height t) (dims (tl (m_spec (file_heap s' ! a))))"
    unfolding rest by (rule h)
  have c3: "\<forall>q\<in>set (tl (m_spec (file_heap s' ! a))). full_width q = width q \<and> full_height q = height q"
    unfolding rest by (rule f)
  have c4: "halves_down_to_1x1 (width (hd (m_spec (file_heap s' ! a))), height (hd (m_spec (file_heap s' ! a))))
              (dims (tl (m_spec (file_heap s' ! a))))"
    if "width t = full_width t \<and> height t = full_height t"
    using h that by (simp only: sp list.sel wh)
  show ?thesis
    apply (intro conjI impI)
       apply (rule sp)
      apply (rule c2)
     apply (rule c3)
    apply (erule c4)
    done
qed

theorem automip_specs_halve_witness:
  "halves_down_to_1x1 (100, 100)
     (dims (tl (m_spec (file_heap (fst (new_ImageCacheFile mip_world ''m.tif'' automip_cache)) !
                        snd (new_ImageCacheFile mip_world ''m.tif'' automip_cache))))) \<and>
   dims (m_spec (file_heap (fst (new_ImageCacheFile mip_world ''m.tif'' automip_cache)) !
                 snd (new_ImageCacheFile mip_world ''m.tif'' automip_cache))) ! 3 = (12, 12)"
proof -
  let ?t = "plain_spec 100 100 0 0 3 TD_FLOAT []"
  let ?df = "example_file [?t] None"
  let ?specs = "m_spec (file_heap (fst (new_ImageCacheFile mip_world ''m.tif'' automip_cache)) !
                        snd (new_ImageCacheFile mip_world ''m.tif'' automip_cache))"
  have 1: "disk mip_world (resolve_filename mip_world ''m.tif'') = Some ?df"
    by (simp add: mip_world_def example_world_def resolve_filename_def)
  have 2: "df_open_ok ?df" and 3: "df_subimages ?df = [?t]"
    by (simp_all add: example_file_def)
  have 4: "tile_width ?t = 0 \<or> tile_height ?t = 0" by (simp add: plain_spec_def)
  have 5: "m_automip automip_cache" and 6: "m_accept_untiled automip_cache"
    by (simp_all add: automip_cache_def new_ImageCacheImpl_def init_def)
  have 7: "find_attribute ?t ''textureformat'' TD_STRING = None"
    by (simp add: find_attribute_def plain_spec_def)
  have 8: "width ?t = full_width ?t \<and> height ?t = full_height ?t" by (simp add: plain_spec_def)
  note th = automip_specs_halve [OF 1 2 3 4 5 6 7 surjective_pairing]
  have hdsp: "hd ?specs = make_tiled (m_autotile automip_cache) ?t"
    by (simp only: th [THEN conjunct1] list.sel)
  from th [THEN conjunct2, THEN conjunct2, THEN conjunct2] 8
  have "halves_down_to_1x1 (width (hd ?specs), height (hd ?specs)) (dims (tl ?specs))"
    by (rule mp)
  moreover have "width (hd ?specs) = 100" "height (hd ?specs) = 100"
    by (simp_all only: hdsp) (simp_all add: make_tiled_def plain_spec_def)
  ultimately have a: "halves_down_to_1x1 (100, 100) (dims (tl ?specs))" by (simp only:)
  have b: "dims ?specs ! 3 = (12, 12)" by code_simp
  from a b show ?thesis by (rule conjI)
qed

text \<open>
  C2 as stated fails on its own example: with automip on, subimage 3 of the 100 by 100
  scanline file is 12 by 12, not 13 by 13. And the entry after a subimage 0 of 100 by 100
  need not be half of it in any rounding: with a display window of 64 by 64 it is 32 by
  32.
\<close>

theorem automip_level3_counterexample:
  "spec_size (get_imagespec mip_world ''m.tif'' 3 automip_cache) = Some (12, 12) \<and>
   spec_size (get_imagespec window_world ''w.tif'' 0 automip_cache) = Some (100, 100) \<and>
   spec_size (get_imagespec window_world ''w.tif'' 1 automip_cache) = Some (32, 32)"
  by code_simp

subsection \<open>The two sweeps\<close>

lemma check_max_files_post:
  assumes "check_max_files s = Some s'"
  shows "(m_stat_open_files_current s' < m_max_open_files s' \<or> m_files s' = []) \<and>
         m_max_open_files s' = m_max_open_files s \<and> m_files s' = m_files s"
proof (rule check_max_files.raw_induct
    [where P = "\<lambda>s s'. (m_stat_open_files_current s' < m_max_open_files s' \<or> m_files s' = []) \<and>
         m_max_open_files s' = m_max_open_files s \<and> m_files s' = m_files s" and s = s and y = s'])
  fix f s sa
  assume IH: "\<And>x y. f x = Some y \<Longrightarrow>
      (m_stat_open_files_current y < m_max_open_files y \<or> m_files y = []) \<and>
      m_max_open_files y = m_max_open_files x \<and> m_files y = m_files x"
    and eq: "(if m_max_open_files s \<le> m_stat_open_files_current s
      then case sweep_pos (m_file_sweep s) (m_files s) of
           None \<Rightarrow> Some (s\<lparr>m_file_sweep := None\<rparr>)
           | Some i \<Rightarrow>
               f (ImageCacheFile_release (snd (m_files s ! i)) s
                 \<lparr>m_file_sweep := if Suc i < length (m_files s) then Some (Suc i) else None\<rparr>)
      else Some s) = Some sa"
  show "(m_stat_open_files_current sa < m_max_open_files sa \<or> m_files sa = []) \<and>
         m_max_open_files sa = m_max_open_files s \<and> m_files sa = m_files s"
  proof (cases "m_max_open_files s \<le> m_stat_open_files_current s")
    case False
    then show ?thesis using eq by auto
  next
    case True
    show ?thesis
    proof (cases "sweep_pos (m_file_sweep s) (m_files s)")
      case None
      then have "m_files s = []" by (auto simp: sweep_pos_def split: option.splits if_splits)
      then show ?thesis using eq True None by auto
    next
      case (Some i)
      then show ?thesis using eq True IH [of _ sa] by fastforce
    qed
  qed
next
  show "check_max_files s = Some s'" by fact
qed

lemma check_max_mem_loop_post:
  "check_max_mem_loop s = Some s' \<Longrightarrow>
   (m_mem_used s' < m_max_memory_bytes s' \<or> m_tilecache s' = [])"
proof (induction s rule: check_max_mem_loop.induct)
  case (1 s)
  show ?case
  proof (cases "m_max_memory_bytes s \<le> m_mem_used s")
    case False
    then show ?thesis using "1.prems" by simp
  next
    case True
    show ?thesis
    proof (cases "tile_sweep_pos s")
      case None
      then have "m_tilecache s = []"
        by (auto simp: tile_sweep_pos_def sweep_pos_def split: option.splits if_splits)
      then show ?thesis using "1.prems" True None by auto
    next
      case (Some i)
      show ?thesis
      proof (cases "length (tile_heap s) \<le> snd (m_tilecache s ! i)")
        case True
        then show ?thesis using "1.prems" \<open>m_max_memory_bytes s \<le> m_mem_used s\<close> Some by simp
      next
        case False
        note inrange = False
        show ?thesis
        proof (cases "t_used (tile_heap s ! snd (m_tilecache s ! i))")
          case True
          then show ?thesis
            using "1.prems" "1.IH"(1) [OF \<open>m_max_memory_bytes s \<le> m_mem_used s\<close> Some inrange True]
              \<open>m_max_memory_bytes s \<le> m_mem_used s\<close> Some inrange by simp
        next
          case False
          then show ?thesis
            using "1.prems" "1.IH"(2) [OF \<open>m_max_memory_bytes s \<le> m_mem_used s\<close> Some inrange False]
              \<open>m_max_memory_bytes s \<le> m_mem_used s\<close> Some inrange
            by (auto split: option.splits)
        qed
      qed
    qed
  qed
qed

lemma open_in_table_upd_same:
  assumes "\<And>f. m_input (g f) = m_input f"
    and "file_heap s' = (file_heap s)[a := g (file_heap s ! a)]" and "m_files s' = m_files s"
  shows "open_in_table s' = open_in_table s"
  unfolding open_in_table_def
  using nth_upd_field [of m_input g "file_heap s" a] assms by simp

lemma open_in_table_close:
  assumes "i < length (m_files s)" "snd (m_files s ! i) < length (file_heap s)"
    "m_input (file_heap s ! snd (m_files s ! i)) \<noteq> None"
    and "file_heap s' = (file_heap s)[snd (m_files s ! i) :=
           (file_heap s ! snd (m_files s ! i))\<lparr>m_input := None\<rparr>]"
    and "m_files s' = m_files s"
  shows "open_in_table s' < open_in_table s"
  unfolding open_in_table_def
  using assms
  by (auto simp: nth_list_update intro!: sum_list_strict_at [where i = i])

lemma sweep_pos_Some: "xs \<noteq> [] \<Longrightarrow> \<exists>i. sweep_pos c xs = Some i \<and> i < length xs"
  by (cases c) (auto simp: sweep_pos_def)

lemma sweep_stuck_step:
  assumes "sweep_stuck s" "i < length (m_files s)"
  shows "sweep_stuck ((ImageCacheFile_release (snd (m_files s ! i)) s)\<lparr>m_file_sweep := c\<rparr>)"
proof -
  let ?a = "snd (m_files s ! i)"
  let ?s' = "(ImageCacheFile_release ?a s)\<lparr>m_file_sweep := c\<rparr>"
  have a: "?a < length (file_heap s)"
    using assms by (auto simp: sweep_stuck_def list_all_length)
  have fr: "m_files ?s' = m_files s" "m_max_open_files ?s' = m_max_open_files s"
    "length (file_heap ?s') = length (file_heap s)"
    by simp_all
  have "m_stat_open_files_current s - int (open_in_table s)
        \<le> m_stat_open_files_current ?s' - int (open_in_table ?s')"
  proof (cases "m_used (file_heap s ! ?a)")
    case True
    have "open_in_table ?s' = open_in_table s"
      by (rule open_in_table_upd_same [where g = "\<lambda>f. f\<lparr>m_used := False\<rparr>" and a = ?a])
         (simp_all add: ImageCacheFile_release_def True)
    then show ?thesis using True by (simp add: ImageCacheFile_release_def)
  next
    case False
    show ?thesis
    proof (cases "m_input (file_heap s ! ?a) = None")
      case True
      have "open_in_table ?s' = open_in_table s"
        using True False
        by (simp add: open_in_table_def ImageCacheFile_release_def ImageCacheFile_close_def)
      then show ?thesis
        using True False by (simp add: ImageCacheFile_release_def ImageCacheFile_close_def)
    next
      case isopen: False
      have "open_in_table ?s' < open_in_table s"
        by (rule open_in_table_close [OF assms(2) a isopen])
           (simp_all add: ImageCacheFile_release_def ImageCacheFile_close_def False isopen)
      then show ?thesis
        using isopen False by (simp add: ImageCacheFile_release_def ImageCacheFile_close_def)
    qed
  qed
  then show ?thesis
    using assms(1) unfolding sweep_stuck_def fr by simp
qed

lemma sweep_stuck_never_returns:
  assumes "sweep_stuck s"
  shows "check_max_files s = None"
proof -
  have "\<not> sweep_stuck s" if "check_max_files s = Some s'" for s'
  proof (rule check_max_files.raw_induct [where P = "\<lambda>s s'. \<not> sweep_stuck s" and s = s and y = s'])
    fix f s sa
    assume IH: "\<And>x y. f x = Some y \<Longrightarrow> \<not> sweep_stuck x"
      and eq: "(if m_max_open_files s \<le> m_stat_open_files_current s
        then case sweep_pos (m_file_sweep s) (m_files s) of
             None \<Rightarrow> Some (s\<lparr>m_file_sweep := None\<rparr>)
             | Some i \<Rightarrow>
                 f (ImageCacheFile_release (snd (m_files s ! i)) s
                   \<lparr>m_file_sweep := if Suc i < length (m_files s) then Some (Suc i) else None\<rparr>)
        else Some s) = Some sa"
    show "\<not> sweep_stuck s"
    proof
      assume st: "sweep_stuck s"
      then have c: "m_max_open_files s \<le> m_stat_open_files_current s"
        by (simp add: sweep_stuck_def)
      from st have "m_files s \<noteq> []" by (simp add: sweep_stuck_def)
      from sweep_pos_Some [OF this]
      obtain i where i: "sweep_pos (m_file_sweep s) (m_files s) = Some i" "i < length (m_files s)"
        by blast
      from eq c i have "f (ImageCacheFile_release (snd (m_files s ! i)) s
                   \<lparr>m_file_sweep := if Suc i < length (m_files s) then Some (Suc i) else None\<rparr>) = Some sa"
        by simp
      from IH [OF this] sweep_stuck_step [OF st i(2)] show False by blast
    qed
  next
    show "check_max_files s = Some s'" by fact
  qed
  with assms show ?thesis by (cases "check_max_files s") auto
qed

lemma find_file_None:
  assumes "map_of (m_files s) filename = None"
    and "map_of (m_files (fst (new_ImageCacheFile W filename s))) filename = None"
    and "check_max_files (dedup_fingerprint (snd (new_ImageCacheFile W filename s))
           (fst (new_ImageCacheFile W filename s))) = None"
  shows "find_file W filename s = None"
  using assms by (simp add: find_file_def split_beta)

text \<open>
  C1, at the failing input: with \<open>max_open_files = 2\<close>, the specs of \<open>a\<close>, \<open>b\<close> and
  \<open>c\<close> are asked for and then a tile of \<open>a\<close> and a tile of \<open>b\<close>. When the last call
  has returned the open-file counter is 3, three records hold a reader, and the ceiling
  is 2. \<^verbatim>\<open>find_file\<close> runs the file sweep when it has opened a reader;
  \<^verbatim>\<open>read_tile\<close> opens the reader of a record the sweep had closed and runs no sweep.
\<close>

theorem open_files_exceed_ceiling:
  "open_files_and_ceiling reopen_run = Some (3, 3, 2)"
  by code_simp

text \<open>
  C8, at the failing input: with \<open>max_open_files = 1\<close> and the readable file \<open>a\<close> in the
  table, asking for the spec of a second readable file \<open>b\<close> does not return. The sweep
  runs while the record of \<open>b\<close> is open but not yet in the table, so closing every record
  of the table cannot bring the counter below 1.
\<close>

theorem file_sweep_diverges:
  "one_file_cache \<noteq> None \<and> second_file_query = None"
proof -
  define s where "s = the one_file_cache"
  have ne: "one_file_cache \<noteq> None" by code_simp
  then have s: "one_file_cache = Some s" by (simp add: s_def)
  have 1: "map_of (m_files s) ''b'' = None" unfolding s_def by code_simp
  have 2: "map_of (m_files (fst (new_ImageCacheFile three_file_world ''b'' s))) ''b'' = None"
    unfolding s_def by code_simp
  have "sweep_stuck (dedup_fingerprint (snd (new_ImageCacheFile three_file_world ''b'' s))
           (fst (new_ImageCacheFile three_file_world ''b'' s)))"
    unfolding s_def by code_simp
  then have 3: "check_max_files (dedup_fingerprint (snd (new_ImageCacheFile three_file_world ''b'' s))
           (fst (new_ImageCacheFile three_file_world ''b'' s))) = None"
    by (rule sweep_stuck_never_returns)
  have 4: "get_perthread_info s = Some s" unfolding s_def by code_simp
  have "find_file three_file_world ''b'' s = None"
    using find_file_None [OF 1 2 3] .
  then have "get_imagespec three_file_world ''b'' 0 s = None"
    by (simp add: get_imagespec_def 4)
  then show ?thesis using ne by (simp add: second_file_query_def s)
qed

subsection \<open>The tile table\<close>

lemma check_max_mem_loop_inv:
  assumes "check_max_mem_loop s = Some s'" and "I s"
    and clr: "\<And>s i. I s \<Longrightarrow> I (sweep_clear i s)"
    and ers: "\<And>s i s'. I s \<Longrightarrow> sweep_erase i s = Some s' \<Longrightarrow> I s'"
    and brk: "\<And>s. I s \<Longrightarrow> I (s\<lparr>m_tile_sweep := None\<rparr>)"
  shows "I s'"
  using assms(1,2)
proof (induction s rule: check_max_mem_loop.induct)
  case (1 s)
  show ?case
  proof (cases "m_max_memory_bytes s \<le> m_mem_used s")
    case False
    then show ?thesis using "1.prems" by simp
  next
    case True
    note c = True
    show ?thesis
    proof (cases "tile_sweep_pos s")
      case None
      then show ?thesis using "1.prems" c brk by auto
    next
      case (Some i)
      show ?thesis
      proof (cases "length (tile_heap s) \<le> snd (m_tilecache s ! i)")
        case True
        then show ?thesis using "1.prems" c Some by simp
      next
        case False
        note inrange = False
        show ?thesis
        proof (cases "t_used (tile_heap s ! snd (m_tilecache s ! i))")
          case True
          have "check_max_mem_loop (sweep_clear i s) = Some s'"
            using "1.prems"(1) c Some inrange True by simp
          from "1.IH"(1) [OF c Some inrange True this clr [OF "1.prems"(2)]]
          show ?thesis .
        next
          case False
          from "1.prems"(1) c Some inrange False
          obtain s1 where s1: "sweep_erase i s = Some s1" "check_max_mem_loop s1 = Some s'"
            by (auto split: option.splits)
          from "1.IH"(2) [OF c Some inrange False s1(1) s1(2) ers [OF "1.prems"(2) s1(1)]]
          show ?thesis .
        qed
      qed
    qed
  qed
qed

lemma check_max_mem_inv:
  assumes "check_max_mem s = Some s'" and "I s"
    and "\<And>s i. I s \<Longrightarrow> I (sweep_clear i s)"
    and "\<And>s i s'. I s \<Longrightarrow> sweep_erase i s = Some s' \<Longrightarrow> I s'"
    and "\<And>s. I s \<Longrightarrow> I (s\<lparr>m_tile_sweep := None\<rparr>)"
  shows "I s'"
proof (cases "m_tilecache s = []")
  case True
  then show ?thesis using assms(1,2) by (simp add: check_max_mem_def)
next
  case False
  then have "check_max_mem_loop s = Some s'" using assms(1) by (simp add: check_max_mem_def)
  then show ?thesis using assms(2-) by (rule check_max_mem_loop_inv)
qed

lemma upd_tile_fields [simp]:
  "tile_heap (upd_tile a g s) = (tile_heap s)[a := g (tile_heap s ! a)]"
  "file_heap (upd_tile a g s) = file_heap s"
  "m_files (upd_tile a g s) = m_files s"
  "m_tilecache (upd_tile a g s) = m_tilecache s"
  "m_tile_sweep (upd_tile a g s) = m_tile_sweep s"
  "m_mem_used (upd_tile a g s) = m_mem_used s"
  "m_max_memory_bytes (upd_tile a g s) = m_max_memory_bytes s"
  "m_max_open_files (upd_tile a g s) = m_max_open_files s"
  "m_stat_open_files_current (upd_tile a g s) = m_stat_open_files_current s"
  "m_errormessage (upd_tile a g s) = m_errormessage s"
  "reader_creates (upd_tile a g s) = reader_creates s"
  "pt_tile (upd_tile a g s) = pt_tile s"
  "pt_lasttile (upd_tile a g s) = pt_lasttile s"
  "pt_purge (upd_tile a g s) = pt_purge s"
  by (simp_all add: upd_tile_def)

lemma decr_tiles_fields [simp]:
  "tile_heap (decr_tiles n s) = tile_heap s"
  "file_heap (decr_tiles n s) = file_heap s"
  "m_files (decr_tiles n s) = m_files s"
  "m_tilecache (decr_tiles n s) = m_tilecache s"
  "m_tile_sweep (decr_tiles n s) = m_tile_sweep s"
  "m_mem_used (decr_tiles n s) = m_mem_used s - n"
  "m_max_memory_bytes (decr_tiles n s) = m_max_memory_bytes s"
  "m_max_open_files (decr_tiles n s) = m_max_open_files s"
  "m_stat_open_files_current (decr_tiles n s) = m_stat_open_files_current s"
  "m_errormessage (decr_tiles n s) = m_errormessage s"
  "reader_creates (decr_tiles n s) = reader_creates s"
  "pt_tile (decr_tiles n s) = pt_tile s"
  "pt_lasttile (decr_tiles n s) = pt_lasttile s"
  "pt_purge (decr_tiles n s) = pt_purge s"
  by (simp_all add: decr_tiles_def)

lemma incr_tiles_fields [simp]:
  "tile_heap (incr_tiles n s) = tile_heap s"
  "file_heap (incr_tiles n s) = file_heap s"
  "m_files (incr_tiles n s) = m_files s"
  "m_tilecache (incr_tiles n s) = m_tilecache s"
  "m_tile_sweep (incr_tiles n s) = m_tile_sweep s"
  "m_mem_used (incr_tiles n s) = m_mem_used s + n"
  "m_max_memory_bytes (incr_tiles n s) = m_max_memory_bytes s"
  "m_max_open_files (incr_tiles n s) = m_max_open_files s"
  "m_stat_open_files_current (incr_tiles n s) = m_stat_open_files_current s"
  "m_errormessage (incr_tiles n s) = m_errormessage s"
  "reader_creates (incr_tiles n s) = reader_creates s"
  "pt_tile (incr_tiles n s) = pt_tile s"
  "pt_lasttile (incr_tiles n s) = pt_lasttile s"
  "pt_purge (incr_tiles n s) = pt_purge s"
  by (simp_all add: incr_tiles_def)

text \<open>
  Dropping a reference changes the reference count of one tile and, when the tile is
  destroyed, the tile counters; nothing else.
\<close>

lemma tile_decref_frame:
  assumes "tile_decref a s = Some s'"
  shows "tile_heap s' = (tile_heap s)[a := (tile_heap s ! a)\<lparr>t_refcnt := t_refcnt (tile_heap s ! a) - 1\<rparr>]"
    and "file_heap s' = file_heap s" and "m_files s' = m_files s"
    and "m_tilecache s' = m_tilecache s" and "m_tile_sweep s' = m_tile_sweep s"
    and "m_max_memory_bytes s' = m_max_memory_bytes s"
    and "m_max_open_files s' = m_max_open_files s"
    and "m_stat_open_files_current s' = m_stat_open_files_current s"
    and "m_errormessage s' = m_errormessage s" and "reader_creates s' = reader_creates s"
    and "pt_tile s' = pt_tile s" and "pt_lasttile s' = pt_lasttile s" and "pt_purge s' = pt_purge s"
  using assms by (auto simp: tile_decref_def Let_def split: if_splits option.splits)

lemma tile_decref_keeps:
  assumes "tile_decref a s = Some s'"
  shows "t_id (tile_heap s' ! b) = t_id (tile_heap s ! b)"
    and "t_valid (tile_heap s' ! b) = t_valid (tile_heap s ! b)"
    and "t_used (tile_heap s' ! b) = t_used (tile_heap s ! b)"
    and "t_pixels (tile_heap s' ! b) = t_pixels (tile_heap s ! b)"
    and "length (tile_heap s') = length (tile_heap s)"
  using tile_decref_frame(1) [OF assms]
    nth_upd_field [of t_id "\<lambda>t. t\<lparr>t_refcnt := t_refcnt t - 1\<rparr>" "tile_heap s" a b]
    nth_upd_field [of t_valid "\<lambda>t. t\<lparr>t_refcnt := t_refcnt t - 1\<rparr>" "tile_heap s" a b]
    nth_upd_field [of t_used "\<lambda>t. t\<lparr>t_refcnt := t_refcnt t - 1\<rparr>" "tile_heap s" a b]
    nth_upd_field [of t_pixels "\<lambda>t. t\<lparr>t_refcnt := t_refcnt t - 1\<rparr>" "tile_heap s" a b]
  by simp_all

lemma ref_reset_frame:
  assumes "ref_reset r s = Some s'"
  shows "file_heap s' = file_heap s \<and> m_files s' = m_files s \<and>
    m_tilecache s' = m_tilecache s \<and> m_tile_sweep s' = m_tile_sweep s \<and>
    m_max_memory_bytes s' = m_max_memory_bytes s \<and>
    m_max_open_files s' = m_max_open_files s \<and>
    m_stat_open_files_current s' = m_stat_open_files_current s \<and>
    m_errormessage s' = m_errormessage s \<and> reader_creates s' = reader_creates s \<and>
    pt_tile s' = pt_tile s \<and> pt_lasttile s' = pt_lasttile s \<and> pt_purge s' = pt_purge s \<and>
    t_id (tile_heap s' ! b) = t_id (tile_heap s ! b) \<and>
    t_valid (tile_heap s' ! b) = t_valid (tile_heap s ! b) \<and>
    t_used (tile_heap s' ! b) = t_used (tile_heap s ! b) \<and>
    t_pixels (tile_heap s' ! b) = t_pixels (tile_heap s ! b) \<and>
    length (tile_heap s') = length (tile_heap s)"
proof (cases r)
  case None
  then show ?thesis using assms by (simp add: ref_reset_def)
next
  case (Some a)
  then have d: "tile_decref a s = Some s'" using assms by (simp add: ref_reset_def)
  show ?thesis using tile_decref_frame(2-) [OF d] tile_decref_keeps [OF d] by simp
qed

text \<open>A sweep changes used flags and reference counts, never what a tile is.\<close>

lemma nth_upd_clear_used:
  "t_used (xs[a := (xs ! a)\<lparr>t_used := False\<rparr>] ! b) \<Longrightarrow> t_used (xs ! b)"
  by (cases "a < length xs"; cases "a = b"; simp add: list_update_beyond)

lemma sweep_clear_keeps:
  "t_id (tile_heap (sweep_clear i s) ! b) = t_id (tile_heap s ! b)"
  "t_valid (tile_heap (sweep_clear i s) ! b) = t_valid (tile_heap s ! b)"
  "t_pixels (tile_heap (sweep_clear i s) ! b) = t_pixels (tile_heap s ! b)"
  "length (tile_heap (sweep_clear i s)) = length (tile_heap s)"
  "t_used (tile_heap (sweep_clear i s) ! b) \<longrightarrow> t_used (tile_heap s ! b)"
  "file_heap (sweep_clear i s) = file_heap s"
  using nth_upd_field [of t_id "\<lambda>t. t\<lparr>t_used := False\<rparr>" "tile_heap s" "snd (m_tilecache s ! i)" b]
    nth_upd_field [of t_valid "\<lambda>t. t\<lparr>t_used := False\<rparr>" "tile_heap s" "snd (m_tilecache s ! i)" b]
    nth_upd_field [of t_pixels "\<lambda>t. t\<lparr>t_used := False\<rparr>" "tile_heap s" "snd (m_tilecache s ! i)" b]
    nth_upd_clear_used [of "tile_heap s" "snd (m_tilecache s ! i)" b]
  by (simp_all add: sweep_clear_def)

lemma sweep_erase_keeps:
  assumes "sweep_erase i s = Some s'"
  shows "t_id (tile_heap s' ! b) = t_id (tile_heap s ! b)"
    and "t_valid (tile_heap s' ! b) = t_valid (tile_heap s ! b)"
    and "t_used (tile_heap s' ! b) = t_used (tile_heap s ! b)"
    and "t_pixels (tile_heap s' ! b) = t_pixels (tile_heap s ! b)"
    and "length (tile_heap s') = length (tile_heap s)"
    and "file_heap s' = file_heap s"
proof -
  let ?s1 = "s\<lparr>m_tilecache := erase_at i (m_tilecache s),
               m_tile_sweep := (if Suc i < length (m_tilecache s) then Some i else None)\<rparr>"
  have d: "tile_decref (snd (m_tilecache s ! i)) ?s1 = Some s'"
    using assms by (auto simp: sweep_erase_def split: option.splits if_splits)
  show "t_id (tile_heap s' ! b) = t_id (tile_heap s ! b)"
    and "t_valid (tile_heap s' ! b) = t_valid (tile_heap s ! b)"
    and "t_used (tile_heap s' ! b) = t_used (tile_heap s ! b)"
    and "t_pixels (tile_heap s' ! b) = t_pixels (tile_heap s ! b)"
    and "length (tile_heap s') = length (tile_heap s)"
    and "file_heap s' = file_heap s"
    using tile_decref_keeps [OF d] tile_decref_frame(2) [OF d] by simp_all
qed

lemma check_max_mem_keeps:
  assumes "check_max_mem s = Some s'"
  shows "t_id (tile_heap s' ! b) = t_id (tile_heap s ! b) \<and>
         t_valid (tile_heap s' ! b) = t_valid (tile_heap s ! b) \<and>
         t_pixels (tile_heap s' ! b) = t_pixels (tile_heap s ! b) \<and>
         (t_used (tile_heap s' ! b) \<longrightarrow> t_used (tile_heap s ! b)) \<and>
         length (tile_heap s') = length (tile_heap s) \<and>
         file_heap s' = file_heap s"
  by (rule check_max_mem_inv [OF assms, where I = "\<lambda>x.
         t_id (tile_heap x ! b) = t_id (tile_heap s ! b) \<and>
         t_valid (tile_heap x ! b) = t_valid (tile_heap s ! b) \<and>
         t_pixels (tile_heap x ! b) = t_pixels (tile_heap s ! b) \<and>
         (t_used (tile_heap x ! b) \<longrightarrow> t_used (tile_heap s ! b)) \<and>
         length (tile_heap x) = length (tile_heap s) \<and>
         file_heap x = file_heap s"])
     (simp_all add: sweep_clear_keeps sweep_erase_keeps)

lemma map_of_table_set_same: "map_of (table_set k v m) k = Some v"
proof (cases "k \<in> fst ` set m")
  case True
  then have "map_of (map (\<lambda>(k', v'). if k' = k then (k', v) else (k', v')) m) k = Some v"
    by (induction m) auto
  then show ?thesis using True by (simp add: table_set_def)
next
  case False
  then have "map_of m k = None" by (simp add: map_of_eq_None_iff)
  then show ?thesis using False by (simp add: table_set_def map_add_def)
qed

lemma map_of_table_set_other: "k' \<noteq> k \<Longrightarrow> map_of (table_set k v m) k' = map_of m k'"
proof (cases "k \<in> fst ` set m")
  case True
  assume "k' \<noteq> k"
  then have "map_of (map (\<lambda>(k', v'). if k' = k then (k', v) else (k', v')) m) k' = map_of m k'"
    by (induction m) auto
  then show ?thesis using True by (simp add: table_set_def)
next
  case False
  assume "k' \<noteq> k"
  then show ?thesis using False by (simp add: table_set_def map_add_def split: option.splits)
qed

lemma tilecache_set_table:
  assumes "tilecache_set tid a s = Some s'"
  shows "m_tilecache s' = table_set tid a (m_tilecache s)"
  using ref_reset_frame [of "map_of (m_tilecache s) tid"
      "tile_incref a (s\<lparr>m_tilecache := table_set tid a (m_tilecache s)\<rparr>)" s'] assms
  by (simp add: tilecache_set_def tile_incref_def)

subsection \<open>The claims on tiles and attributes\<close>

text \<open>
  Whenever \<^verbatim>\<open>add_tile_to_cache\<close> returns, the tile table holds the tile it was
  given under the id of that tile.
\<close>

lemma add_tile_to_cache_stores:
  assumes "add_tile_to_cache a s = Some s'"
  shows "map_of (m_tilecache s') (t_id (tile_heap s ! a)) = Some a"
proof -
  from assms obtain s1 where s1: "check_max_mem s = Some s1"
    and t: "tilecache_set (t_id (tile_heap s1 ! a)) a s1 = Some s'"
    by (auto simp: add_tile_to_cache_def split: option.splits)
  have "t_id (tile_heap s1 ! a) = t_id (tile_heap s ! a)"
    using check_max_mem_keeps [OF s1, of a] by simp
  then show ?thesis using tilecache_set_table [OF t] by (simp add: map_of_table_set_same)
qed

text \<open>
  C4, at the failing input: tile 0 is resident under the id, and a thread that missed it
  in the table has constructed tile 1 with the same id and calls
  \<^verbatim>\<open>add_tile_to_cache\<close>. Before the call the table holds tile 0 under the id, after
  it the table holds tile 1: the newcomer has replaced the earlier entry.
  \<^verbatim>\<open>find_file\<close> looks its table up again under the write lock and keeps the earlier
  record; \<^verbatim>\<open>add_tile_to_cache\<close> has no such lookup.
\<close>

theorem collision_newcomer_wins:
  "collision_run = Some (Some 0, Some 1, 1)"
  by code_simp

text \<open>
  C5, at the failing input: the attribute \<open>gain\<close> is stored as two ints and asked for as
  two floats. The call returns false and writes nothing, because the test before the
  conversion loop asks for a stored float and a requested int.
\<close>

theorem int_attribute_as_float_fails:
  "info_result (get_image_info attr_world ''t.tif'' ''gain'' \<lparr>basetype = TD_FLOAT, arraylen = 2\<rparr>
     new_ImageCacheImpl) = Some (False, None)"
  by code_simp

subsection \<open>The file table\<close>

lemma close_other [simp]:
  "b \<noteq> a \<Longrightarrow> file_heap (ImageCacheFile_close a s) ! b = file_heap s ! b"
  by (simp add: ImageCacheFile_close_def)

lemma release_other [simp]:
  "b \<noteq> a \<Longrightarrow> file_heap (ImageCacheFile_release a s) ! b = file_heap s ! b"
  by (simp add: ImageCacheFile_release_def)

text \<open>\<^verbatim>\<open>open\<close> touches the record at \<open>a\<close> and the counters only.\<close>

lemma open_first_time_frame:
  "length (file_heap (fst (open_first_time W a df s))) = length (file_heap s)"
  "b \<noteq> a \<Longrightarrow> file_heap (fst (open_first_time W a df s)) ! b = file_heap s ! b"
  "m_files (fst (open_first_time W a df s)) = m_files s"
  "m_file_sweep (fst (open_first_time W a df s)) = m_file_sweep s"
  "m_fingerprints (fst (open_first_time W a df s)) = m_fingerprints s"
  "m_max_open_files (fst (open_first_time W a df s)) = m_max_open_files s"
  "tile_heap (fst (open_first_time W a df s)) = tile_heap s"
  "m_tilecache (fst (open_first_time W a df s)) = m_tilecache s"
  "pt_tile (fst (open_first_time W a df s)) = pt_tile s"
  "pt_lasttile (fst (open_first_time W a df s)) = pt_lasttile s"
  "pt_purge (fst (open_first_time W a df s)) = pt_purge s"
  "reader_creates (fst (open_first_time W a df s)) = reader_creates s"
  by (simp_all add: open_first_time_def Let_def split: prod.splits bool.splits)

lemma ImageCacheFile_open_frame:
  "length (file_heap (fst (ImageCacheFile_open W a s))) = length (file_heap s)"
  "b \<noteq> a \<Longrightarrow> file_heap (fst (ImageCacheFile_open W a s)) ! b = file_heap s ! b"
  "m_files (fst (ImageCacheFile_open W a s)) = m_files s"
  "m_file_sweep (fst (ImageCacheFile_open W a s)) = m_file_sweep s"
  "m_fingerprints (fst (ImageCacheFile_open W a s)) = m_fingerprints s"
  "m_max_open_files (fst (ImageCacheFile_open W a s)) = m_max_open_files s"
  "tile_heap (fst (ImageCacheFile_open W a s)) = tile_heap s"
  "m_tilecache (fst (ImageCacheFile_open W a s)) = m_tilecache s"
  "pt_tile (fst (ImageCacheFile_open W a s)) = pt_tile s"
  "pt_lasttile (fst (ImageCacheFile_open W a s)) = pt_lasttile s"
  "pt_purge (fst (ImageCacheFile_open W a s)) = pt_purge s"
  by (simp_all add: ImageCacheFile_open_def Let_def open_first_time_frame split: option.splits)

text \<open>A record that is broken is not opened again: \<^verbatim>\<open>open\<close> changes nothing.\<close>

lemma open_broken: "m_broken (file_heap s ! a) \<Longrightarrow> ImageCacheFile_open W a s = (s, False)"
  by (simp add: ImageCacheFile_open_def Let_def)

lemma open_first_time_duplicate:
  "m_duplicate (file_heap (fst (open_first_time W a df s)) ! b) = m_duplicate (file_heap s ! b)"
  by (cases "a < length (file_heap s)"; cases "b = a")
     (simp_all add: open_first_time_def Let_def fill_fields_def ImageCacheFile_close_def
        list_update_beyond split: prod.splits bool.splits)

lemma ImageCacheFile_open_duplicate:
  "m_duplicate (file_heap (fst (ImageCacheFile_open W a s)) ! b) = m_duplicate (file_heap s ! b)"
  by (cases "a < length (file_heap s)"; cases "b = a")
     (simp_all add: ImageCacheFile_open_def Let_def open_first_time_duplicate list_update_beyond
        split: option.splits)

lemma new_file_frame:
  "snd (new_ImageCacheFile W n s) = length (file_heap s)"
  "length (file_heap (fst (new_ImageCacheFile W n s))) = Suc (length (file_heap s))"
  "b < length (file_heap s) \<Longrightarrow> file_heap (fst (new_ImageCacheFile W n s)) ! b = file_heap s ! b"
  "m_files (fst (new_ImageCacheFile W n s)) = m_files s"
  "m_file_sweep (fst (new_ImageCacheFile W n s)) = m_file_sweep s"
  "m_fingerprints (fst (new_ImageCacheFile W n s)) = m_fingerprints s"
  "m_max_open_files (fst (new_ImageCacheFile W n s)) = m_max_open_files s"
  "pt_purge (fst (new_ImageCacheFile W n s)) = pt_purge s"
  "m_duplicate (file_heap (fst (new_ImageCacheFile W n s)) ! length (file_heap s)) = None"
  by (simp_all add: new_ImageCacheFile_def Let_def ImageCacheFile_open_frame
      ImageCacheFile_open_duplicate nth_append)

lemma new_file_missing:
  assumes "disk W (resolve_filename W n) = None"
  shows "m_broken (file_heap (fst (new_ImageCacheFile W n s)) ! length (file_heap s))"
    and "m_fingerprint (file_heap (fst (new_ImageCacheFile W n s)) ! length (file_heap s)) = []"
    and "reader_creates (fst (new_ImageCacheFile W n s)) = Suc (reader_creates s)"
    and "m_stat_open_files_current (fst (new_ImageCacheFile W n s)) = m_stat_open_files_current s"
  using assms by (simp_all add: new_ImageCacheFile_def Let_def ImageCacheFile_open_def)

lemma check_max_files_below: 
  "m_stat_open_files_current s < m_max_open_files s \<Longrightarrow> check_max_files s = Some s"
  by (subst check_max_files.simps) simp

lemma check_max_files_inv:
  assumes "check_max_files s = Some s'" and "I s"
    and rel: "\<And>s a c. I s \<Longrightarrow> I ((ImageCacheFile_release a s)\<lparr>m_file_sweep := c\<rparr>)"
    and brk: "\<And>s. I s \<Longrightarrow> I (s\<lparr>m_file_sweep := None\<rparr>)"
  shows "I s'"
proof -
  have "I s \<longrightarrow> I s'"
  proof (rule check_max_files.raw_induct [where P = "\<lambda>s s'. I s \<longrightarrow> I s'" and s = s and y = s'])
    fix f s sa
    assume IH: "\<And>x y. f x = Some y \<Longrightarrow> I x \<longrightarrow> I y"
      and eq: "(if m_max_open_files s \<le> m_stat_open_files_current s
        then case sweep_pos (m_file_sweep s) (m_files s) of
             None \<Rightarrow> Some (s\<lparr>m_file_sweep := None\<rparr>)
             | Some i \<Rightarrow>
                 f (ImageCacheFile_release (snd (m_files s ! i)) s
                   \<lparr>m_file_sweep := if Suc i < length (m_files s) then Some (Suc i) else None\<rparr>)
        else Some s) = Some sa"
    show "I s \<longrightarrow> I sa"
    proof
      assume i: "I s"
      show "I sa"
      proof (cases "m_max_open_files s \<le> m_stat_open_files_current s")
        case False
        then show ?thesis using eq i by simp
      next
        case True
        show ?thesis
        proof (cases "sweep_pos (m_file_sweep s) (m_files s)")
          case None
          then show ?thesis using eq True brk [OF i] by auto
        next
          case (Some j)
          then have "f (ImageCacheFile_release (snd (m_files s ! j)) s
                   \<lparr>m_file_sweep := if Suc j < length (m_files s) then Some (Suc j) else None\<rparr>) = Some sa"
            using eq True by simp
          from IH [OF this] rel [OF i] show ?thesis by blast
        qed
      qed
    qed
  next
    show "check_max_files s = Some s'" by fact
  qed
  then show ?thesis using assms(2) by blast
qed

lemma release_keeps:
  "m_broken (file_heap (ImageCacheFile_release a s) ! b) = m_broken (file_heap s ! b)"
  "m_duplicate (file_heap (ImageCacheFile_release a s) ! b) = m_duplicate (file_heap s ! b)"
  by (cases "a < length (file_heap s)"; cases "b = a";
      simp add: ImageCacheFile_release_def ImageCacheFile_close_def list_update_beyond)+

lemma use_file_keeps:
  "m_broken (file_heap (use_file a s) ! b) = m_broken (file_heap s ! b)"
  "m_duplicate (file_heap (use_file a s) ! b) = m_duplicate (file_heap s ! b)"
  by (cases "a < length (file_heap s)"; cases "b = a"; simp add: list_update_beyond)+

lemma find_file_result_not_null: "find_file W filename s = Some (s', r) \<Longrightarrow> r \<noteq> None"
  by (auto simp: find_file_def Let_def split: option.splits prod.splits) metis

lemma find_file_missing:
  assumes "disk W (resolve_filename W filename) = None"
    and "map_of (m_files s) filename = None"
    and "m_stat_open_files_current s < m_max_open_files s"
  shows "find_file W filename s =
           Some (use_file (length (file_heap s))
                   ((fst (new_ImageCacheFile W filename s))
                      \<lparr>m_files := table_set filename (length (file_heap s)) (m_files s),
                       unique_files := Suc (unique_files (fst (new_ImageCacheFile W filename s)))\<rparr>),
                 Some (length (file_heap s)))"
proof -
  let ?s1 = "fst (new_ImageCacheFile W filename s)"
  let ?a = "length (file_heap s)"
  have d: "dedup_fingerprint ?a ?s1 = ?s1"
    using new_file_missing(2) [OF assms(1), of s] by (simp add: dedup_fingerprint_def)
  have "m_stat_open_files_current ?s1 < m_max_open_files ?s1"
    using new_file_missing(4) [OF assms(1), of s] assms(3) by (simp add: new_file_frame)
  then have c: "check_max_files ?s1 = Some ?s1" by (rule check_max_files_below)
  have dup: "m_duplicate (file_heap ?s1 ! ?a) = None"
    by (simp add: new_file_frame)
  show ?thesis
    using assms(2) d c dup by (simp add: find_file_def case_prod_beta new_file_frame)
qed

lemma find_file_present:
  "map_of (m_files s) n = Some a0 \<Longrightarrow>
   find_file W n s = Some (use_file (canonical s a0) s, Some (canonical s a0))"
  by (simp add: find_file_def)

lemma get_perthread_info_frame:
  assumes "get_perthread_info s = Some s0"
  shows "file_heap s0 = file_heap s \<and> m_files s0 = m_files s \<and>
         reader_creates s0 = reader_creates s \<and> m_errormessage s0 = m_errormessage s \<and>
         m_max_open_files s0 = m_max_open_files s \<and>
         m_stat_open_files_current s0 = m_stat_open_files_current s \<and> \<not> pt_purge s0"
proof (cases "pt_purge s")
  case False
  then show ?thesis using assms by (simp add: get_perthread_info_def)
next
  case True
  then obtain s1 s2 where 1: "ref_reset (pt_tile s) s = Some s1"
    and 2: "ref_reset (pt_lasttile s1) (s1\<lparr>pt_tile := None\<rparr>) = Some s2"
    and 3: "s0 = s2\<lparr>pt_lasttile := None, pt_purge := False\<rparr>"
    using assms by (auto simp: get_perthread_info_def split: Option.bind_splits)
  show ?thesis using ref_reset_frame [OF 1] ref_reset_frame [OF 2] 3 by simp
qed

lemma get_perthread_info_idle: "\<not> pt_purge s \<Longrightarrow> get_perthread_info s = Some s"
  by (simp add: get_perthread_info_def)

text \<open>Every query through a broken record fails with the Broken error, without an open.\<close>

lemma query_broken:
  assumes "get_perthread_info s = Some s0"
    and "map_of (m_files s) n = Some a0" and "m_broken (file_heap s ! canonical s a0)"
  defines "s1 \<equiv> error (Broken n) (use_file (canonical s a0) s0)"
  shows "get_imagespec W n k s = Some (s1, None)"
    and "get_pixels W n k r fmt s = Some (s1, False, [])"
    and "get_image_info W n dn dt s = Some (s1, False, None)"
    and "get_tile W n k x y z s = Some (use_file (canonical s a0) s0, None)"
    and "reader_creates s1 = reader_creates s"
    and "file_heap s1 = file_heap (use_file (canonical s a0) s)"
    and "m_files s1 = m_files s"
proof -
  note fr = get_perthread_info_frame [OF assms(1)]
  have c: "canonical s0 a0 = canonical s a0" using fr by (simp add: canonical_def)
  have ff: "find_file W n s0 = Some (use_file (canonical s a0) s0, Some (canonical s a0))"
    using find_file_present [of s0 n a0 W] assms(2) fr c by simp
  have b: "m_broken (file_heap (use_file (canonical s a0) s0) ! canonical s a0)"
    using use_file_keeps(1) [of "canonical s a0" s0 "canonical s a0"] assms(3) fr by simp
  show "get_imagespec W n k s = Some (s1, None)"
    using assms(1) ff b by (simp add: get_imagespec_def s1_def)
  show "get_pixels W n k r fmt s = Some (s1, False, [])"
    using assms(1) ff b by (simp add: get_pixels_def s1_def)
  show "get_image_info W n dn dt s = Some (s1, False, None)"
    using assms(1) ff b by (simp add: get_image_info_def s1_def)
  show "get_tile W n k x y z s = Some (use_file (canonical s a0) s0, None)"
    using assms(1) ff b by (simp add: get_tile_def)
  show "reader_creates s1 = reader_creates s" using fr by (simp add: s1_def)
  show "file_heap s1 = file_heap (use_file (canonical s a0) s)" using fr by (simp add: s1_def)
  show "m_files s1 = m_files s" using fr by (simp add: s1_def)
qed

subsection \<open>The claims on file records\<close>

text \<open>
  Whatever \<^verbatim>\<open>find_file\<close> returns is not the null pointer. For a file no reader can
  be created for, not yet in the table, with the cache below its open-file ceiling and no
  purge pending, \<^verbatim>\<open>find_file\<close> returns a new record that is broken and cached under
  the name, after one call of \<^verbatim>\<open>ImageInput::create\<close>; the three queries return
  false with the Broken error, never the not-found error; and the same queries asked
  again fail the same way without another call of \<^verbatim>\<open>ImageInput::create\<close>.
\<close>

lemma missing_file_below_ceiling:
  "(find_file W n s = Some (s', r) \<longrightarrow> r \<noteq> None) \<and>
   (disk W (resolve_filename W n) = None \<and> map_of (m_files s) n = None \<and>
    m_stat_open_files_current s < m_max_open_files s \<and> \<not> pt_purge s \<longrightarrow>
    (\<exists>s1 a. find_file W n s = Some (s1, Some a) \<and>
        m_broken (file_heap s1 ! a) \<and> map_of (m_files s1) n = Some a \<and>
        reader_creates s1 = Suc (reader_creates s) \<and>
        get_imagespec W n k s = Some (error (Broken n) s1, None) \<and>
        get_pixels W n k rg fmt s = Some (error (Broken n) s1, False, []) \<and>
        get_image_info W n dn dt s = Some (error (Broken n) s1, False, None) \<and>
        (\<exists>s2. get_imagespec W n k (error (Broken n) s1) = Some (error (Broken n) s2, None) \<and>
              get_pixels W n k rg fmt (error (Broken n) s1) = Some (error (Broken n) s2, False, []) \<and>
              get_image_info W n dn dt (error (Broken n) s1) = Some (error (Broken n) s2, False, None) \<and>
              reader_creates s2 = Suc (reader_creates s))))"
proof (intro conjI impI)
  assume "find_file W n s = Some (s', r)"
  then show "r \<noteq> None" by (rule find_file_result_not_null)
next
  assume h: "disk W (resolve_filename W n) = None \<and> map_of (m_files s) n = None \<and>
    m_stat_open_files_current s < m_max_open_files s \<and> \<not> pt_purge s"
  let ?a = "length (file_heap s)"
  let ?n = "fst (new_ImageCacheFile W n s)"
  let ?s1 = "use_file ?a (?n\<lparr>m_files := table_set n ?a (m_files s),
                               unique_files := Suc (unique_files ?n)\<rparr>)"
  let ?t = "error (Broken n) ?s1"
  from h have ff: "find_file W n s = Some (?s1, Some ?a)"
    by (simp add: find_file_missing)
  have br: "m_broken (file_heap ?s1 ! ?a)"
    using h new_file_missing(1) [of W n s] by (simp add: new_file_frame)
  have mf: "map_of (m_files ?s1) n = Some ?a" by (simp add: map_of_table_set_same)
  have rc: "reader_creates ?s1 = Suc (reader_creates s)"
    using h new_file_missing(3) [of W n s] by simp
  have idle: "get_perthread_info s = Some s" using h by (simp add: get_perthread_info_idle)
  have q1: "get_imagespec W n k s = Some (?t, None)"
    using ff br idle by (simp add: get_imagespec_def)
  have q2: "get_pixels W n k rg fmt s = Some (?t, False, [])"
    using ff br idle by (simp add: get_pixels_def)
  have q3: "get_image_info W n dn dt s = Some (?t, False, None)"
    using ff br idle by (simp add: get_image_info_def)
  have du: "m_duplicate (file_heap ?s1 ! ?a) = None"
    by (simp add: new_file_frame)
  have idle2: "get_perthread_info ?t = Some ?t"
    using h by (simp add: get_perthread_info_idle new_file_frame)
  have mf2: "map_of (m_files ?t) n = Some ?a" using mf by simp
  have can: "canonical ?t ?a = ?a" using du by (simp add: canonical_def)
  have br2: "m_broken (file_heap ?t ! canonical ?t ?a)" using br can by simp
  note qb = query_broken [OF idle2 mf2 br2, unfolded can]
  let ?s2 = "use_file ?a ?t"
  have "get_imagespec W n k ?t = Some (error (Broken n) ?s2, None)"
    and "get_pixels W n k rg fmt ?t = Some (error (Broken n) ?s2, False, [])"
    and "get_image_info W n dn dt ?t = Some (error (Broken n) ?s2, False, None)"
    and "reader_creates ?s2 = Suc (reader_creates s)"
    using qb(1) [of W k] qb(2) [of W k rg fmt] qb(3) [of W dn dt] rc by simp_all
  then show "\<exists>s1 a. find_file W n s = Some (s1, Some a) \<and>
        m_broken (file_heap s1 ! a) \<and> map_of (m_files s1) n = Some a \<and>
        reader_creates s1 = Suc (reader_creates s) \<and>
        get_imagespec W n k s = Some (error (Broken n) s1, None) \<and>
        get_pixels W n k rg fmt s = Some (error (Broken n) s1, False, []) \<and>
        get_image_info W n dn dt s = Some (error (Broken n) s1, False, None) \<and>
        (\<exists>s2. get_imagespec W n k (error (Broken n) s1) = Some (error (Broken n) s2, None) \<and>
              get_pixels W n k rg fmt (error (Broken n) s1) = Some (error (Broken n) s2, False, []) \<and>
              get_image_info W n dn dt (error (Broken n) s1) = Some (error (Broken n) s2, False, None) \<and>
              reader_creates s2 = Suc (reader_creates s))"
    using ff br mf rc q1 q2 q3 by blast
qed

text \<open>
  C9, at the failing input: with \<open>max_open_files = 1\<close> and untiled files not accepted,
  the scanline file \<open>m.tif\<close> was asked for and rejected. The rejection drops the reader
  without \<^verbatim>\<open>decr_open_files\<close>, so the counter is 1 although no record holds a
  reader, and the ceiling is 1. The query for the spec of a file that does not exist then
  does not return: \<^verbatim>\<open>find_file\<close> creates the broken record and runs the file sweep
  before it returns it, and the sweep cannot bring the counter below the ceiling.
\<close>

theorem missing_file_query_diverges:
  "open_files_and_ceiling rejected_cache = Some (1, 0, 1) \<and> missing_file_query = None"
proof -
  define s where "s = the rejected_cache"
  have st: "open_files_and_ceiling rejected_cache = Some (1, 0, 1)" by code_simp
  have "rejected_cache \<noteq> None" by code_simp
  then have s: "rejected_cache = Some s" by (simp add: s_def)
  have 1: "map_of (m_files s) ''nowhere.tif'' = None" unfolding s_def by code_simp
  have 2: "map_of (m_files (fst (new_ImageCacheFile mip_world ''nowhere.tif'' s))) ''nowhere.tif'' = None"
    unfolding s_def by code_simp
  have "sweep_stuck (dedup_fingerprint (snd (new_ImageCacheFile mip_world ''nowhere.tif'' s))
           (fst (new_ImageCacheFile mip_world ''nowhere.tif'' s)))"
    unfolding s_def by code_simp
  then have 3: "check_max_files (dedup_fingerprint (snd (new_ImageCacheFile mip_world ''nowhere.tif'' s))
           (fst (new_ImageCacheFile mip_world ''nowhere.tif'' s))) = None"
    by (rule sweep_stuck_never_returns)
  have 4: "get_perthread_info s = Some s" unfolding s_def by code_simp
  have "find_file mip_world ''nowhere.tif'' s = None"
    using find_file_None [OF 1 2 3] .
  then have "get_imagespec mip_world ''nowhere.tif'' 0 s = None"
    by (simp add: get_imagespec_def 4)
  then show ?thesis using st by (simp add: missing_file_query_def s)
qed

lemma close_keeps:
  "m_broken (file_heap (ImageCacheFile_close a s) ! b) = m_broken (file_heap s ! b)"
  "m_duplicate (file_heap (ImageCacheFile_close a s) ! b) = m_duplicate (file_heap s ! b)"
  by (cases "a < length (file_heap s)"; cases "b = a";
      simp add: ImageCacheFile_close_def list_update_beyond)+

lemma dedup_fingerprint_cases:
  assumes "m_fingerprint (file_heap s ! tf) \<noteq> []" and "tf < length (file_heap s)"
  shows "(map_of (m_fingerprints s) (m_fingerprint (file_heap s ! tf)) = None \<longrightarrow>
            map_of (m_fingerprints (dedup_fingerprint tf s)) (m_fingerprint (file_heap s ! tf)) = Some tf \<and>
            file_heap (dedup_fingerprint tf s) = file_heap s) \<and>
         (\<forall>dup. map_of (m_fingerprints s) (m_fingerprint (file_heap s ! tf)) = Some dup \<longrightarrow>
            (same_kind (file_heap s ! tf) (file_heap s ! dup) \<longrightarrow>
               m_duplicate (file_heap (dedup_fingerprint tf s) ! tf) = Some dup \<and>
               m_input (file_heap (dedup_fingerprint tf s) ! tf) = None \<and>
               m_fingerprints (dedup_fingerprint tf s) = m_fingerprints s) \<and>
            (\<not> same_kind (file_heap s ! tf) (file_heap s ! dup) \<longrightarrow>
               dedup_fingerprint tf s = s))"
  using assms
  by (auto simp: dedup_fingerprint_def Let_def same_kind_def map_of_table_set_same
      ImageCacheFile_close_def)

lemma find_file_duplicate:
  assumes n1: "map_of (m_files s) n1 = Some c" and c: "c < length (file_heap s)"
    and canon: "m_duplicate (file_heap s ! c) = None"
    and n2: "map_of (m_files s) n2 = None"
    and fp: "m_fingerprint (file_heap (fst (new_ImageCacheFile W n2 s)) ! length (file_heap s)) \<noteq> []"
    and held: "map_of (m_fingerprints s)
                 (m_fingerprint (file_heap (fst (new_ImageCacheFile W n2 s)) ! length (file_heap s))) = Some c"
    and kind: "same_kind (file_heap (fst (new_ImageCacheFile W n2 s)) ! length (file_heap s))
                 (file_heap s ! c)"
    and ff: "find_file W n2 s = Some (s2, r)"
  shows "r = Some c \<and>
         find_file W n1 s2 = Some (use_file c s2, Some c) \<and>
         find_file W n2 s2 = Some (use_file c s2, Some c)"
proof -
  let ?s1 = "fst (new_ImageCacheFile W n2 s)"
  let ?tf = "length (file_heap s)"
  have ne: "n1 \<noteq> n2" using n1 n2 by auto
  have ctf: "c \<noteq> ?tf" using c by simp
  have hc: "file_heap ?s1 ! c = file_heap s ! c" using c by (simp add: new_file_frame)
  have tfl: "?tf < length (file_heap ?s1)" by (simp add: new_file_frame)
  have held1: "map_of (m_fingerprints ?s1) (m_fingerprint (file_heap ?s1 ! ?tf)) = Some c"
    using held by (simp add: new_file_frame)
  have kind1: "same_kind (file_heap ?s1 ! ?tf) (file_heap ?s1 ! c)" using kind hc by simp
  let ?d = "dedup_fingerprint ?tf ?s1"
  have d1: "m_duplicate (file_heap ?d ! ?tf) = Some c"
    using dedup_fingerprint_cases [OF fp tfl] held1 kind1 by blast
  have d2: "m_duplicate (file_heap ?d ! c) = None"
    using fp held1 kind1 ctf canon hc
    by (simp add: dedup_fingerprint_def Let_def same_kind_def close_keeps)
  have d3: "m_files ?d = m_files s"
    using fp held1 kind1 by (simp add: dedup_fingerprint_def Let_def same_kind_def new_file_frame)
  from ff n2 obtain s3 where s3: "check_max_files ?d = Some s3"
    and res: "(s2, r) = (let s4 = s3\<lparr>m_files := table_set n2 ?tf (m_files s3)\<rparr>
                in case m_duplicate (file_heap s4 ! ?tf) of
                     Some d \<Rightarrow> (use_file d s4, Some d)
                   | None \<Rightarrow> (use_file ?tf (s4\<lparr>unique_files := Suc (unique_files s4)\<rparr>), Some ?tf))"
    by (auto simp: find_file_def case_prod_beta new_file_frame Let_def split: option.splits)
  have inv: "m_duplicate (file_heap s3 ! ?tf) = Some c \<and> m_duplicate (file_heap s3 ! c) = None \<and>
             m_files s3 = m_files s"
    by (rule check_max_files_inv [OF s3, where I = "\<lambda>x. m_duplicate (file_heap x ! ?tf) = Some c \<and>
          m_duplicate (file_heap x ! c) = None \<and> m_files x = m_files s"])
       (simp_all add: d1 d2 d3 release_keeps)
  let ?s4 = "s3\<lparr>m_files := table_set n2 ?tf (m_files s3)\<rparr>"
  have r: "r = Some c" and s2: "s2 = use_file c ?s4" using res inv by (simp_all add: Let_def)
  have m1: "map_of (m_files s2) n1 = Some c"
    using s2 inv n1 ne by (simp add: map_of_table_set_other)
  have m2: "map_of (m_files s2) n2 = Some ?tf"
    using s2 by (simp add: map_of_table_set_same)
  have c1: "canonical s2 c = c"
    using s2 inv use_file_keeps(2) [of c ?s4 c] by (simp add: canonical_def)
  have c2: "canonical s2 ?tf = c"
    using s2 inv use_file_keeps(2) [of c ?s4 ?tf] by (simp add: canonical_def)
  show ?thesis
    using r find_file_present [OF m1, of W] find_file_present [OF m2, of W] c1 c2 by simp
qed

lemma fill_fields_input [simp]: "m_input (fill_fields W ff fn f) = m_input f"
  by (simp add: fill_fields_def Let_def)

lemma close_fingerprint [simp]:
  "m_fingerprint (file_heap (ImageCacheFile_close a s) ! b) = m_fingerprint (file_heap s ! b)"
  by (cases "a < length (file_heap s)"; cases "b = a";
      simp add: ImageCacheFile_close_def list_update_beyond)+

lemma open_first_time_fingerprint:
  assumes a: "a < length (file_heap s)" and e: "m_fingerprint (file_heap s ! a) = []"
    and fp: "m_fingerprint (file_heap (fst (open_first_time W a df s)) ! a) \<noteq> []"
  shows "m_input (file_heap (fst (open_first_time W a df s)) ! a) \<noteq> None \<and>
         m_stat_open_files_current (fst (open_first_time W a df s)) = m_stat_open_files_current s"
proof -
  obtain ok specs u where r: "read_subimages (m_autotile s) (df_subimages df) [] (m_untiled (file_heap s ! a)) = (ok, specs, u)"
    by (cases "read_subimages (m_autotile s) (df_subimages df) [] (m_untiled (file_heap s ! a))")
  show ?thesis
  proof (cases ok)
    case False
    then have "m_fingerprint (file_heap (fst (open_first_time W a df s)) ! a) = []"
      using a e r by (simp add: open_first_time_def)
    with fp show ?thesis by simp
  next
    case True
    show ?thesis
    proof (cases "u \<and> \<not> m_accept_untiled s")
      case rej: True
      then have "m_fingerprint (file_heap (fst (open_first_time W a df s)) ! a) = []"
        using a e r True by (simp add: open_first_time_def Let_def)
      with fp show ?thesis by simp
    next
      case False
      then show ?thesis
        using a r True by (simp add: open_first_time_def Let_def)
    qed
  qed
qed

lemma open_fingerprint:
  assumes a: "a < length (file_heap s)" and e: "m_fingerprint (file_heap s ! a) = []"
    and i: "m_input (file_heap s ! a) = None" and sp: "m_spec (file_heap s ! a) = []"
    and fp: "m_fingerprint (file_heap (fst (ImageCacheFile_open W a s)) ! a) \<noteq> []"
  shows "m_input (file_heap (fst (ImageCacheFile_open W a s)) ! a) \<noteq> None \<and>
         m_stat_open_files_current (fst (ImageCacheFile_open W a s)) = m_stat_open_files_current s + 1"
proof (cases "m_broken (file_heap s ! a)")
  case True
  then show ?thesis using fp e by (simp add: open_broken)
next
  case nb: False
  show ?thesis
  proof (cases "disk W (m_filename (file_heap s ! a))")
    case None
    then show ?thesis using fp e i nb a by (simp add: ImageCacheFile_open_def Let_def)
  next
    case (Some df)
    show ?thesis
    proof (cases "\<not> df_open_ok df \<or> df_subimages df = []")
      case True
      then show ?thesis using fp e i nb a Some by (auto simp: ImageCacheFile_open_def Let_def)
    next
      case False
      define s1 where "s1 = use_file a (incr_open_files
                                       (upd_file a (\<lambda>f. f\<lparr>m_input := Some 0,
                                                           m_fileformat := df_format_name df,
                                                           m_timesopened := Suc (m_timesopened f)\<rparr>)
                                          (s\<lparr>reader_creates := Suc (reader_creates s)\<rparr>)))"
      have o: "ImageCacheFile_open W a s = open_first_time W a df s1"
        using i nb Some False sp by (simp add: ImageCacheFile_open_def Let_def s1_def)
      have a1: "a < length (file_heap s1)" using a by (simp add: s1_def)
      have e1: "m_fingerprint (file_heap s1 ! a) = []" using a e by (simp add: s1_def)
      have c1: "m_stat_open_files_current s1 = m_stat_open_files_current s + 1"
        by (simp add: s1_def)
      from open_first_time_fingerprint [OF a1 e1 fp [unfolded o]] c1 show ?thesis
        unfolding o by simp
    qed
  qed
qed

lemma new_file_fingerprint:
  assumes "m_fingerprint (file_heap (fst (new_ImageCacheFile W n s)) ! length (file_heap s)) \<noteq> []"
  shows "m_input (file_heap (fst (new_ImageCacheFile W n s)) ! length (file_heap s)) \<noteq> None"
    and "m_stat_open_files_current (fst (new_ImageCacheFile W n s)) = m_stat_open_files_current s + 1"
proof -
  define f0 where "f0 = \<lparr>m_filename = resolve_filename W n, m_used = True, m_broken = False,
               m_untiled = False, m_unmipped = False, m_input = None, m_fileformat = [],
               m_spec = [], m_texformat = TexFormatTexture, m_swrap = 0, m_twrap = 0,
               m_cubelayout = CubeUnknown, m_y_up = False, m_datatype = TD_UNKNOWN,
               m_channelsize = 0, m_pixelsize = 0, m_eightbit = False, m_fingerprint = [],
               m_duplicate = None, m_tilesread = 0, m_timesopened = 0, m_mipused = False,
               m_mod_time = 0\<rparr>"
  define s0 where "s0 = s\<lparr>file_heap := file_heap s @ [f0]\<rparr>"
  let ?a = "length (file_heap s)"
  let ?s1 = "fst (ImageCacheFile_open W ?a s0)"
  have nf: "fst (new_ImageCacheFile W n s) =
      (if \<not> m_broken (file_heap ?s1 ! ?a)
       then upd_file ?a (\<lambda>f. f\<lparr>m_mod_time :=
                 (case disk W (m_filename f) of Some df \<Rightarrow> df_mod_time df | None \<Rightarrow> 0)\<rparr>) ?s1
       else ?s1)"
    by (simp add: new_ImageCacheFile_def Let_def s0_def f0_def)
  have len: "?a < length (file_heap ?s1)" by (simp add: ImageCacheFile_open_frame s0_def)
  have fp1: "m_fingerprint (file_heap ?s1 ! ?a) \<noteq> []"
    using assms len unfolding nf by (simp split: if_splits)
  have "m_input (file_heap ?s1 ! ?a) \<noteq> None \<and>
        m_stat_open_files_current ?s1 = m_stat_open_files_current s0 + 1"
    by (rule open_fingerprint [OF _ _ _ _ fp1]) (simp_all add: s0_def f0_def)
  then show "m_input (file_heap (fst (new_ImageCacheFile W n s)) ! length (file_heap s)) \<noteq> None"
    and "m_stat_open_files_current (fst (new_ImageCacheFile W n s)) = m_stat_open_files_current s + 1"
    using len unfolding nf by (simp_all add: s0_def)
qed


lemma find_file_duplicate_returns:
  assumes n1: "map_of (m_files s) n1 = Some c" and c: "c < length (file_heap s)"
    and canon: "m_duplicate (file_heap s ! c) = None"
    and n2: "map_of (m_files s) n2 = None"
    and fp: "m_fingerprint (file_heap (fst (new_ImageCacheFile W n2 s)) ! length (file_heap s)) \<noteq> []"
    and held: "map_of (m_fingerprints s)
                 (m_fingerprint (file_heap (fst (new_ImageCacheFile W n2 s)) ! length (file_heap s))) = Some c"
    and kind: "same_kind (file_heap (fst (new_ImageCacheFile W n2 s)) ! length (file_heap s))
                 (file_heap s ! c)"
    and below: "m_stat_open_files_current s < m_max_open_files s"
  shows "\<exists>s2. find_file W n2 s = Some (s2, Some c) \<and>
              find_file W n1 s2 = Some (use_file c s2, Some c) \<and>
              find_file W n2 s2 = Some (use_file c s2, Some c)"
proof -
  let ?s1 = "fst (new_ImageCacheFile W n2 s)"
  let ?tf = "length (file_heap s)"
  let ?d = "dedup_fingerprint ?tf ?s1"
  have hc: "file_heap ?s1 ! c = file_heap s ! c" using c by (simp add: new_file_frame)
  have held1: "map_of (m_fingerprints ?s1) (m_fingerprint (file_heap ?s1 ! ?tf)) = Some c"
    using held by (simp add: new_file_frame)
  have kind1: "same_kind (file_heap ?s1 ! ?tf) (file_heap ?s1 ! c)" using kind hc by simp
  have d: "?d = ImageCacheFile_close ?tf (upd_file ?tf (\<lambda>f. f\<lparr>m_duplicate := Some c\<rparr>) ?s1)"
    using fp held1 kind1 by (simp add: dedup_fingerprint_def Let_def same_kind_def)
  have tfl: "?tf < length (file_heap ?s1)" by (simp add: new_file_frame)
  have "m_stat_open_files_current ?d = m_stat_open_files_current ?s1 - 1"
    using new_file_fingerprint(1) [OF fp] tfl
    by (simp add: d ImageCacheFile_close_def decr_open_files_def)
  then have cnt: "m_stat_open_files_current ?d = m_stat_open_files_current s"
    using new_file_fingerprint(2) [OF fp] by simp
  have mx: "m_max_open_files ?d = m_max_open_files s" by (simp add: d new_file_frame)
  have cm: "check_max_files ?d = Some ?d"
    using below cnt mx by (simp add: check_max_files_below)
  have "find_file W n2 s \<noteq> None"
    using n2 cm new_file_frame(1,4) [of W n2 s]
    by (simp add: find_file_def case_prod_beta Let_def split: option.splits)
  then obtain s2 r where ff: "find_file W n2 s = Some (s2, r)" by auto
  from find_file_duplicate [OF n1 c canon n2 fp held kind ff] ff show ?thesis by auto
qed


text \<open>
  C3 (amended). For a newly opened record \<open>tf\<close> with a non-empty fingerprint: if the
  fingerprint map has no record for the fingerprint, \<open>tf\<close> is entered; if it has the
  record \<open>dup\<close> and wrap modes, data type, cube layout and y-up orientation agree, \<open>tf\<close>
  is marked as a duplicate of \<open>dup\<close> and its reader is closed; if it has a record and
  one of these fields differs, nothing changes: the map keeps the earlier record and
  \<open>tf\<close> is not entered. Consequently, let the fingerprint map hold, for a fingerprint,
  the canonical record \<open>c\<close> of a first name. When a second name is opened whose record
  has this fingerprint and agrees with \<open>c\<close> in the four fields, and the lookup returns,
  it returns \<open>c\<close>, and from then on both names lead to the same record \<open>c\<close>. The
  lookup does return when the cache is below its open-file ceiling.
\<close>

theorem fingerprint_dedup:
  "(m_fingerprint (file_heap s ! tf) \<noteq> [] \<and> tf < length (file_heap s) \<longrightarrow>
      (map_of (m_fingerprints s) (m_fingerprint (file_heap s ! tf)) = None \<longrightarrow>
         map_of (m_fingerprints (dedup_fingerprint tf s)) (m_fingerprint (file_heap s ! tf)) = Some tf \<and>
         file_heap (dedup_fingerprint tf s) = file_heap s) \<and>
      (\<forall>dup. map_of (m_fingerprints s) (m_fingerprint (file_heap s ! tf)) = Some dup \<longrightarrow>
         (same_kind (file_heap s ! tf) (file_heap s ! dup) \<longrightarrow>
            m_duplicate (file_heap (dedup_fingerprint tf s) ! tf) = Some dup \<and>
            m_input (file_heap (dedup_fingerprint tf s) ! tf) = None \<and>
            m_fingerprints (dedup_fingerprint tf s) = m_fingerprints s) \<and>
         (\<not> same_kind (file_heap s ! tf) (file_heap s ! dup) \<longrightarrow>
            dedup_fingerprint tf s = s))) \<and>
   (map_of (m_files t) n1 = Some c \<and> c < length (file_heap t) \<and>
    m_duplicate (file_heap t ! c) = None \<and> map_of (m_files t) n2 = None \<and>
    m_fingerprint (file_heap (fst (new_ImageCacheFile W n2 t)) ! length (file_heap t)) \<noteq> [] \<and>
    map_of (m_fingerprints t)
      (m_fingerprint (file_heap (fst (new_ImageCacheFile W n2 t)) ! length (file_heap t))) = Some c \<and>
    same_kind (file_heap (fst (new_ImageCacheFile W n2 t)) ! length (file_heap t)) (file_heap t ! c) \<longrightarrow>
      (find_file W n2 t = Some (t', r) \<longrightarrow>
         r = Some c \<and>
         find_file W n1 t' = Some (use_file c t', Some c) \<and>
         find_file W n2 t' = Some (use_file c t', Some c)) \<and>
      (m_stat_open_files_current t < m_max_open_files t \<longrightarrow>
         (\<exists>t2. find_file W n2 t = Some (t2, Some c) \<and>
               find_file W n1 t2 = Some (use_file c t2, Some c) \<and>
               find_file W n2 t2 = Some (use_file c t2, Some c))))"
  using dedup_fingerprint_cases [of s tf] find_file_duplicate [of t n1 c n2 W t' r]
    find_file_duplicate_returns [of t n1 c n2 W]
  by blast

theorem fingerprint_dedup_witness:
  "m_stat_open_files_current x_cache < m_max_open_files x_cache \<and>
   (\<exists>t2. find_file fp_world ''y.exr'' x_cache = Some (t2, Some 0) \<and>
         find_file fp_world ''x.exr'' t2 = Some (use_file 0 t2, Some 0) \<and>
         find_file fp_world ''y.exr'' t2 = Some (use_file 0 t2, Some 0)) \<and>
   m_duplicate (file_heap (dedup_fingerprint 1 (fst (new_ImageCacheFile fp_world ''y.exr'' x_cache))) ! 1)
     = Some 0"
proof -
  let ?n = "fst (new_ImageCacheFile fp_world ''y.exr'' x_cache)"
  have h1: "m_fingerprint (file_heap ?n ! 1) \<noteq> [] \<and> 1 < length (file_heap ?n)"
    by code_simp
  have h2: "map_of (m_fingerprints ?n) (m_fingerprint (file_heap ?n ! 1)) = Some 0"
    by code_simp
  have h3: "same_kind (file_heap ?n ! 1) (file_heap ?n ! 0)" by code_simp
  have g: "map_of (m_files x_cache) ''x.exr'' = Some 0 \<and> 0 < length (file_heap x_cache) \<and>
    m_duplicate (file_heap x_cache ! 0) = None \<and> map_of (m_files x_cache) ''y.exr'' = None \<and>
    m_fingerprint (file_heap ?n ! length (file_heap x_cache)) \<noteq> [] \<and>
    map_of (m_fingerprints x_cache) (m_fingerprint (file_heap ?n ! length (file_heap x_cache))) = Some 0 \<and>
    same_kind (file_heap ?n ! length (file_heap x_cache)) (file_heap x_cache ! 0)"
    by code_simp
  have below: "m_stat_open_files_current x_cache < m_max_open_files x_cache" by code_simp
  note inst = fingerprint_dedup [of ?n 1 x_cache "''x.exr''" 0 "''y.exr''" fp_world]
  have a: "m_duplicate (file_heap (dedup_fingerprint 1 ?n) ! 1) = Some 0"
    using inst h1 h2 h3 by blast
  have b: "\<exists>t2. find_file fp_world ''y.exr'' x_cache = Some (t2, Some 0) \<and>
         find_file fp_world ''x.exr'' t2 = Some (use_file 0 t2, Some 0) \<and>
         find_file fp_world ''y.exr'' t2 = Some (use_file 0 t2, Some 0)"
    using inst g below by blast
  show ?thesis using below a b by blast
qed

text \<open>
  C3 as stated fails in its third case and in its last sentence. \<open>z.exr\<close> has the
  fingerprint of \<open>x.exr\<close> but another data type; after both are opened the fingerprint
  map still holds record 0 of \<open>x.exr\<close> only, and record 1 of \<open>z.exr\<close> is neither
  entered nor a duplicate. When \<open>w.exr\<close> is opened next, its record 2 has the fingerprint
  of record 1 and agrees with it in the four fields, yet the two names lead to the two
  records 1 and 2: each was compared with record 0 only.
\<close>

theorem fingerprint_mismatch_counterexample:
  "mismatch_run = Some (Some 0, [0], None) \<and> twin_run = Some (True, Some 1, Some 2)"
  by code_simp

subsection \<open>The length of the buffers read\<close>

lemma fold_opt_inv:
  assumes "fold_opt f xs s = Some s'" and "I s"
    and "\<And>x s s'. I s \<Longrightarrow> f x s = Some s' \<Longrightarrow> I s'"
  shows "I s'"
  using assms(1,2)
proof (induction xs arbitrary: s)
  case Nil
  then show ?case by simp
next
  case (Cons x xs)
  from Cons.prems(1) obtain s1 where s1: "f x s = Some s1" "fold_opt f xs s1 = Some s'"
    by (auto split: option.splits)
  from Cons.IH [OF s1(2) assms(3) [OF Cons.prems(2) s1(1)]] show ?case .
qed

lemma overwrite_length [simp]: "length (overwrite b d) = length d"
  by (simp add: overwrite_def)

lemma untiled_row_step_length:
  assumes "untiled_row_step a subimage sp buf sl ps xx y0 z i (s, ok, data) = Some (s', ok', data')"
  shows "length data' = length data"
  using assms
  by (auto simp: untiled_row_step_def Let_def split: if_splits Option.bind_splits prod.splits)

lemma read_untiled_length:
  assumes "read_untiled W a subimage x y z fmt data s = Some (s', ok, data')"
  shows "length data' = length data"
proof -
  have fold: "length (snd (snd r')) = length data"
    if "fold_opt (untiled_row_step a subimage sp buf sl ps xx y0 z) cols r = Some r'"
      and "length (snd (snd r)) = length data" for sp buf sl ps xx y0 cols r r'
    by (rule fold_opt_inv [OF that(1), where I = "\<lambda>r. length (snd (snd r)) = length data"])
       (use that(2) untiled_row_step_length in \<open>auto simp: split_paired_all\<close>)
  show ?thesis
    using assms
    by (auto simp: read_untiled_def Let_def split: if_splits option.splits prod.splits bool.splits
        dest!: fold)
qed

subsection \<open>A broken record stays broken\<close>



lemma broken_at_simple [simp]:
  "broken_at b (error e s) = broken_at b s"
  "broken_at b (use_file a s) = broken_at b s"
  "broken_at b (ImageCacheFile_close a s) = broken_at b s"
  "broken_at b (ImageCacheFile_release a s) = broken_at b s"
  "broken_at b (incr_tiles n s) = broken_at b s"
  "broken_at b (decr_tiles n s) = broken_at b s"
  "broken_at b (upd_tile t g s) = broken_at b s"
  "broken_at b (use_tile t s) = broken_at b s"
  "broken_at b (tile_incref t s) = broken_at b s"
  using use_file_keeps(1) [of a s b] close_keeps(1) [of a s b] release_keeps(1) [of a s b]
  by (simp_all add: broken_at_def use_tile_def tile_incref_def)




lemma broken_at_ref_reset:
  "ref_reset r s = Some s' \<Longrightarrow> broken_at b s' = broken_at b s"
  using ref_reset_frame [of r s s'] by (simp add: broken_at_def)


lemma broken_at_check_max_mem:
  "check_max_mem s = Some s' \<Longrightarrow> broken_at b s' = broken_at b s"
  using check_max_mem_keeps [of s s'] by (simp add: broken_at_def)














subsection \<open>A name stays bound to its record\<close>



lemma named_at_simple [simp]:
  "named_at n a d (error e s) = named_at n a d s"
  "named_at n a d (use_file c s) = named_at n a d s"
  "named_at n a d (ImageCacheFile_close c s) = named_at n a d s"
  "named_at n a d (ImageCacheFile_release c s) = named_at n a d s"
  "named_at n a d (incr_tiles k s) = named_at n a d s"
  "named_at n a d (decr_tiles k s) = named_at n a d s"
  "named_at n a d (upd_tile t g s) = named_at n a d s"
  "named_at n a d (use_tile t s) = named_at n a d s"
  "named_at n a d (tile_incref t s) = named_at n a d s"
  using use_file_keeps(2) [of c s a] close_keeps(2) [of c s a] release_keeps(2) [of c s a]
  by (simp_all add: named_at_def use_tile_def tile_incref_def)




lemma named_at_ref_reset:
  "ref_reset r s = Some s' \<Longrightarrow> named_at n a d s' = named_at n a d s"
  using ref_reset_frame [of r s s'] by (simp add: named_at_def)


lemma sweep_erase_files:
  assumes "sweep_erase i s = Some s'"
  shows "file_heap s' = file_heap s \<and> m_files s' = m_files s"
proof -
  from assms obtain t where "tile_decref (snd (m_tilecache s ! i)) t = Some s'"
    and "file_heap t = file_heap s" "m_files t = m_files s"
    by (auto simp: sweep_erase_def split: option.splits if_splits)
  then show ?thesis using tile_decref_frame(2,3) by metis
qed

lemma check_max_mem_files:
  "check_max_mem s = Some s' \<Longrightarrow> file_heap s' = file_heap s \<and> m_files s' = m_files s"
  by (rule check_max_mem_inv [where I = "\<lambda>t. file_heap t = file_heap s \<and> m_files t = m_files s"])
     (auto simp: sweep_clear_def dest!: sweep_erase_files)

lemma named_at_check_max_mem:
  "check_max_mem s = Some s' \<Longrightarrow> named_at n a d s' = named_at n a d s"
  using check_max_mem_files [of s s'] by (simp add: named_at_def)














subsection \<open>What the queries keep\<close>












subsection \<open>The claim on broken records\<close>







subsection \<open>The claim on tiles that cannot be read\<close>

text \<open>
  C7, at the failing input: the one tile of \<open>c\<close> cannot be read. The first
  \<^verbatim>\<open>get_tile\<close> reads it and returns the null pointer; the tile table then holds the
  tile with the valid flag and the used flag cleared and its buffer of four zero bytes.
  The second \<^verbatim>\<open>get_tile\<close> finds the tile in the table and returns it, tile 0, though
  its valid flag is false, and \<^verbatim>\<open>get_pixels\<close> on its first pixel then returns true
  with a zero pixel. The path of \<^verbatim>\<open>find_tile_main_cache\<close> that reads the tile returns
  its valid flag; the path that finds it in the table returns true.
\<close>

theorem failed_tile_is_handed_back:
  "failed_tile_run = Some (None, Some (False, False, [0, 0, 0, 0]), Some 0, Some False, True, [0])"
  by code_simp

end
